(* ===== verification/El_Prelude.thy ===== *)
theory El_Prelude
  imports Complex_Main "HOL-Library.Word"
begin

text \<open>
  What every component of the development shares: the error codes of
  rtcom-eventlogger/eventlogger-types.h, the C conversions between integer widths the
  code relies on, GLib's string comparison, and generic lemmas on lists.
\<close>

unbundle bit_operations_syntax

named_theorems stmt_defs "the SQL statements of the source, as functions on the tables"
named_theorems durable_simps "how the operations change the durable tables"

section \<open>Errors reported to the callers\<close>

datatype RTComElError =
    RTCOM_EL_INTERNAL_ERROR
  | RTCOM_EL_INVALID_ARGUMENT_ERROR
  | RTCOM_EL_TEMPORARY_ERROR
  | RTCOM_EL_DATABASE_FULL
  | RTCOM_EL_DATABASE_CORRUPTED

section \<open>Integers\<close>

text \<open>
  SQLite integers are 64 bits wide, a \<open>gint\<close> is 32 bits wide and signed. Values are
  kept as \<open>int\<close>; where the code narrows one to a \<open>gint\<close> (\<open>sqlite3_column_int\<close>,
  assignment of a row id) the narrowing is written out.
\<close>

definition to_gint :: "int \<Rightarrow> int" where
  "to_gint x = sint (word_of_int x :: 32 word)"

lemma to_gint_id [simp]: "- (2 ^ 31) \<le> x \<Longrightarrow> x < 2 ^ 31 \<Longrightarrow> to_gint x = x"
  by (simp add: to_gint_def sint_sbintrunc' signed_take_bit_int_eq_self)

lemma to_gint_range: "- (2 ^ 31) \<le> to_gint x \<and> to_gint x < 2 ^ 31"
  using sint_greater_eq[of "word_of_int x :: 32 word"] sint_less[of "word_of_int x :: 32 word"]
  by (simp add: to_gint_def)

lemma to_gint_0 [simp]: "to_gint 0 = 0" and to_gint_1 [simp]: "to_gint 1 = 1"
  by simp_all

section \<open>Strings\<close>

text \<open>
  A \<open>gchar *\<close> is a \<open>string option\<close>, \<open>None\<close> being NULL. \<open>g_strcmp0\<close> orders NULL
  before every string; the code only asks whether two pointers compare equal.
\<close>

definition g_strcmp0_differs :: "string option \<Rightarrow> string option \<Rightarrow> bool" where
  "g_strcmp0_differs a b \<longleftrightarrow> a \<noteq> b"

text \<open>\<open>strcmp\<close> must not be given NULL: \<open>None\<close> is the crash.\<close>

definition strcmp_differs :: "string option \<Rightarrow> string option \<Rightarrow> bool option" where
  "strcmp_differs a b =
     (case a of None \<Rightarrow> None
      | Some x \<Rightarrow> (case b of None \<Rightarrow> None | Some y \<Rightarrow> Some (x \<noteq> y)))"

section \<open>Lists\<close>

lemma filter_map_swap:
  "(\<And>x. x \<in> set xs \<Longrightarrow> P (f x) \<longleftrightarrow> P x) \<Longrightarrow> filter P (map f xs) = map f (filter P xs)"
  by (induction xs) auto

lemma sum_list_map_filter_eq:
  "(\<And>x. x \<in> set xs \<Longrightarrow> P x \<Longrightarrow> f x = g x) \<Longrightarrow>
   sum_list (map f (filter P xs)) = sum_list (map g (filter P xs))"
  by (induction xs) auto

lemma filter_eq_Nil_iff: "filter P xs = [] \<longleftrightarrow> (\<forall>x\<in>set xs. \<not> P x)"
  by (simp add: filter_empty_conv)

lemma distinct_map_filterI: "distinct (map f xs) \<Longrightarrow> distinct (map f (filter P xs))"
  by (induction xs) auto

lemma distinct_map_inj_on_set:
  "distinct (map f xs) \<Longrightarrow> x \<in> set xs \<Longrightarrow> y \<in> set xs \<Longrightarrow> f x = f y \<Longrightarrow> x = y"
  by (metis distinct_map inj_on_eq_iff)

lemma filter_key_unique:
  "distinct (map f xs) \<Longrightarrow> x \<in> set xs \<Longrightarrow> filter (\<lambda>y. f y = f x) xs = [x]"
  by (induction xs) (auto simp: filter_empty_conv image_iff)

lemma not_distinct_map_snoc: "x \<in> set xs \<Longrightarrow> f x = f z \<Longrightarrow> \<not> distinct (map f (xs @ [z]))"
  by (auto intro: rev_image_eqI)

lemma sum_list_update_one:
  fixes f g :: "'a \<Rightarrow> int"
  assumes "distinct (map key xs)" and "y \<in> set xs"
    and "\<And>x. x \<in> set xs \<Longrightarrow> key x \<noteq> key y \<Longrightarrow> g x = f x"
  shows "sum_list (map g xs) = sum_list (map f xs) - f y + g y"
  using assms
proof (induction xs)
  case Nil
  then show ?case by simp
next
  case (Cons a xs)
  show ?case
  proof (cases "y = a")
    case True
    with Cons.prems(1) have "\<forall>x \<in> set xs. key x \<noteq> key y" by (auto simp: image_iff)
    with Cons.prems(3) have "map g xs = map f xs" by simp
    with True show ?thesis by (simp del: map_eq_conv)
  next
    case False
    with Cons.prems have "y \<in> set xs" and "key a \<noteq> key y" by force+
    with Cons show ?thesis by simp
  qed
qed

section \<open>Decimal numbers\<close>

text \<open>What \<open>%d\<close> and \<open>%u\<close> print.\<close>

definition digit :: "nat \<Rightarrow> char" where
  "digit n = char_of (48 + n)"

fun show_nat :: "nat \<Rightarrow> string" where
  "show_nat n = (if n < 10 then [digit n] else show_nat (n div 10) @ [digit (n mod 10)])"

declare show_nat.simps [simp del]

definition show_int :: "int \<Rightarrow> string" where
  "show_int i = (if i < 0 then CHR ''-'' # show_nat (nat (- i)) else show_nat (nat i))"

definition read_digits :: "string \<Rightarrow> nat" where
  "read_digits s = foldl (\<lambda>a c. 10 * a + (of_char c - 48)) 0 s"

lemma of_char_digit: "n < 10 \<Longrightarrow> (of_char (digit n) :: nat) = 48 + n"
  by (simp add: digit_def)

lemma read_show_nat [simp]: "read_digits (show_nat n) = n"
proof (induction n rule: show_nat.induct)
  case (1 n)
  then show ?case
    by (subst show_nat.simps) (auto simp: read_digits_def of_char_digit)
qed

lemma show_nat_inj: "show_nat m = show_nat n \<Longrightarrow> m = n"
  by (metis read_show_nat)

lemma show_nat_digits: "set (show_nat n) \<subseteq> digit ` {..<10}"
proof (induction n rule: show_nat.induct)
  case (1 n)
  then show ?case by (subst show_nat.simps) auto
qed

lemma show_nat_not_Nil [simp]: "show_nat n \<noteq> []"
  by (subst show_nat.simps) simp

end
