(* ===== verification/El_Event.thy ===== *)
theory El_Event
  imports El_Prelude
begin

text \<open>
  The event structure of rtcom-eventlogger/event.h and src/event.c: the mask of the
  fields that are set, the macros that test, set and unset a field, the comparison
  \<open>rtcom_el_event_equals\<close> and \<open>rtcom_el_event_free_contents\<close>.
\<close>

section \<open>The structure and its mask\<close>

datatype ev_field =
    F_id | F_service_id | F_event_type_id | F_storage_time | F_start_time | F_end_time
  | F_is_read | F_flags | F_bytes_sent | F_bytes_received | F_remote_ebook_uid
  | F_local_uid | F_local_name | F_remote_uid | F_remote_name | F_channel | F_free_text
  | F_group_uid | F_service | F_event_type | F_additional_text | F_icon_name
  | F_pango_markup | F_outgoing

record RTComElEvent =
  ev_mask :: "32 word"
  fld_id :: int
  fld_service_id :: int
  fld_event_type_id :: int
  fld_storage_time :: int
  fld_start_time :: int
  fld_end_time :: int
  fld_is_read :: int
  fld_flags :: int
  fld_bytes_sent :: int
  fld_bytes_received :: int
  fld_local_uid :: "string option"
  fld_local_name :: "string option"
  fld_remote_uid :: "string option"
  fld_remote_name :: "string option"
  fld_remote_ebook_uid :: "string option"
  fld_channel :: "string option"
  fld_free_text :: "string option"
  fld_group_uid :: "string option"
  fld_service :: "string option"
  fld_event_type :: "string option"
  fld_additional_text :: "string option"
  fld_icon_name :: "string option"
  fld_pango_markup :: "string option"
  fld_outgoing :: int

text \<open>The anonymous enum of event.h: bit \<open>1 << n\<close> for each field.\<close>

fun is_set_bit :: "ev_field \<Rightarrow> 32 word" where
  "is_set_bit F_id = push_bit 0 1"
| "is_set_bit F_service_id = push_bit 1 1"
| "is_set_bit F_event_type_id = push_bit 2 1"
| "is_set_bit F_storage_time = push_bit 3 1"
| "is_set_bit F_start_time = push_bit 4 1"
| "is_set_bit F_end_time = push_bit 5 1"
| "is_set_bit F_is_read = push_bit 6 1"
| "is_set_bit F_flags = push_bit 7 1"
| "is_set_bit F_bytes_sent = push_bit 8 1"
| "is_set_bit F_bytes_received = push_bit 9 1"
| "is_set_bit F_remote_ebook_uid = push_bit 10 1"
| "is_set_bit F_local_uid = push_bit 11 1"
| "is_set_bit F_local_name = push_bit 12 1"
| "is_set_bit F_remote_uid = push_bit 13 1"
| "is_set_bit F_remote_name = push_bit 14 1"
| "is_set_bit F_channel = push_bit 15 1"
| "is_set_bit F_free_text = push_bit 16 1"
| "is_set_bit F_group_uid = push_bit 17 1"
| "is_set_bit F_service = push_bit 18 1"
| "is_set_bit F_event_type = push_bit 19 1"
| "is_set_bit F_additional_text = push_bit 20 1"
| "is_set_bit F_icon_name = push_bit 21 1"
| "is_set_bit F_pango_markup = push_bit 22 1"
| "is_set_bit F_outgoing = push_bit 23 1"

definition event_init :: "RTComElEvent \<Rightarrow> RTComElEvent" where
  "event_init ev = ev\<lparr>ev_mask := 0\<rparr>"

definition event_is_set :: "RTComElEvent \<Rightarrow> ev_field \<Rightarrow> bool" where
  "event_is_set ev f \<longleftrightarrow> ev_mask ev AND is_set_bit f \<noteq> 0"

text \<open>
  The macro RTCOM_EL_EVENT_SET_FIELD sets the field's bit and stores the value: \<open>store\<close>
  is the update of the one member of the structure.
\<close>

definition event_set_field ::
    "ev_field \<Rightarrow> (RTComElEvent \<Rightarrow> RTComElEvent) \<Rightarrow> RTComElEvent \<Rightarrow> RTComElEvent" where
  "event_set_field f store ev = store (ev\<lparr>ev_mask := ev_mask ev OR is_set_bit f\<rparr>)"

definition event_unset_field :: "ev_field \<Rightarrow> RTComElEvent \<Rightarrow> RTComElEvent" where
  "event_unset_field f ev = ev\<lparr>ev_mask := ev_mask ev AND NOT (is_set_bit f)\<rparr>"

text \<open>\<open>g_slice_new0\<close>, and the \<open>memset\<close> that ends \<open>rtcom_el_event_free_contents\<close>.\<close>

definition rtcom_el_event_new :: RTComElEvent where
  "rtcom_el_event_new =
     \<lparr>ev_mask = 0, fld_id = 0, fld_service_id = 0, fld_event_type_id = 0,
      fld_storage_time = 0, fld_start_time = 0, fld_end_time = 0, fld_is_read = 0,
      fld_flags = 0, fld_bytes_sent = 0, fld_bytes_received = 0, fld_local_uid = None,
      fld_local_name = None, fld_remote_uid = None, fld_remote_name = None,
      fld_remote_ebook_uid = None, fld_channel = None, fld_free_text = None,
      fld_group_uid = None, fld_service = None, fld_event_type = None,
      fld_additional_text = None, fld_icon_name = None, fld_pango_markup = None,
      fld_outgoing = 0\<rparr>"

text \<open>
  The strings \<open>rtcom_el_event_free_contents\<close> hands to \<open>g_free\<close> (NULL is ignored there),
  in order, and the cleared structure.
\<close>

definition rtcom_el_event_free_contents :: "RTComElEvent \<Rightarrow> string list \<times> RTComElEvent" where
  "rtcom_el_event_free_contents ev =
     (List.map_filter id
        [fld_local_uid ev, fld_local_name ev, fld_remote_uid ev, fld_remote_name ev,
         fld_remote_ebook_uid ev, fld_channel ev, fld_free_text ev, fld_group_uid ev,
         fld_service ev, fld_event_type ev, fld_additional_text ev, fld_icon_name ev,
         fld_pango_markup ev],
      rtcom_el_event_new)"

section \<open>Comparison\<close>

text \<open>
  Each test of \<open>rtcom_el_event_equals\<close> returns FALSE if both events have the field set
  and the values differ; otherwise the next test runs. The string tests call \<open>strcmp\<close>,
  which must not see NULL: \<open>None\<close> is that crash.
\<close>

definition int_test ::
    "ev_field \<Rightarrow> (RTComElEvent \<Rightarrow> int) \<Rightarrow> RTComElEvent \<Rightarrow> RTComElEvent \<Rightarrow> bool option
      \<Rightarrow> bool option" where
  "int_test f fld a b rest =
     (if event_is_set a f \<and> event_is_set b f \<and> fld a \<noteq> fld b then Some False else rest)"

definition str_test ::
    "ev_field \<Rightarrow> (RTComElEvent \<Rightarrow> string option) \<Rightarrow> RTComElEvent \<Rightarrow> RTComElEvent
      \<Rightarrow> bool option \<Rightarrow> bool option" where
  "str_test f fld a b rest =
     (if event_is_set a f \<and> event_is_set b f
      then case strcmp_differs (fld a) (fld b) of
             None \<Rightarrow> None
           | Some d \<Rightarrow> if d then Some False else rest
      else rest)"

definition rtcom_el_event_equals :: "RTComElEvent \<Rightarrow> RTComElEvent \<Rightarrow> bool option" where
  "rtcom_el_event_equals a b =
     int_test F_id fld_id a b (
     int_test F_service_id fld_service_id a b (
     int_test F_event_type_id fld_event_type_id a b (
     int_test F_storage_time fld_storage_time a b (
     int_test F_start_time fld_start_time a b (
     int_test F_end_time fld_end_time a b (
     int_test F_flags fld_flags a b (
     int_test F_bytes_sent fld_bytes_sent a b (
     int_test F_bytes_received fld_bytes_received a b (
     str_test F_remote_ebook_uid fld_remote_ebook_uid a b (
     str_test F_remote_ebook_uid fld_remote_ebook_uid a b (
     str_test F_local_uid fld_local_uid a b (
     str_test F_local_name fld_local_name a b (
     str_test F_remote_uid fld_remote_uid a b (
     str_test F_remote_name fld_remote_name a b (
     str_test F_channel fld_channel a b (
     str_test F_free_text fld_free_text a b (
     str_test F_group_uid fld_group_uid a b (
     Some True))))))))))))))))))"

section \<open>Lemmas: the mask\<close>

fun bit_index :: "ev_field \<Rightarrow> nat" where
  "bit_index F_id = 0" | "bit_index F_service_id = 1" | "bit_index F_event_type_id = 2"
| "bit_index F_storage_time = 3" | "bit_index F_start_time = 4" | "bit_index F_end_time = 5"
| "bit_index F_is_read = 6" | "bit_index F_flags = 7" | "bit_index F_bytes_sent = 8"
| "bit_index F_bytes_received = 9" | "bit_index F_remote_ebook_uid = 10"
| "bit_index F_local_uid = 11" | "bit_index F_local_name = 12"
| "bit_index F_remote_uid = 13" | "bit_index F_remote_name = 14"
| "bit_index F_channel = 15" | "bit_index F_free_text = 16" | "bit_index F_group_uid = 17"
| "bit_index F_service = 18" | "bit_index F_event_type = 19"
| "bit_index F_additional_text = 20" | "bit_index F_icon_name = 21"
| "bit_index F_pango_markup = 22" | "bit_index F_outgoing = 23"

lemma bit_index_less: "bit_index f < 32"
  by (cases f) simp_all

lemma is_set_bit_index: "is_set_bit f = push_bit (bit_index f) 1"
  by (cases f) (simp_all only: is_set_bit.simps bit_index.simps)

lemma bit_index_inj: "bit_index f = bit_index g \<longleftrightarrow> f = g"
  by (cases f; cases g) simp_all

lemma bit_is_set_bit: "bit (is_set_bit f) n \<longleftrightarrow> n = bit_index f"
  using bit_index_less[of f]
  by (auto simp: is_set_bit_index bit_push_bit_iff bit_1_iff simp del: push_bit_of_1)

lemma event_is_set_bit: "event_is_set ev f \<longleftrightarrow> bit (ev_mask ev) (bit_index f)"
proof -
  have "event_is_set ev f \<longleftrightarrow> (\<exists>n. bit (ev_mask ev AND is_set_bit f) n)"
    unfolding event_is_set_def by (metis bit_eqI bit_0_eq bot_apply bot_bool_def)
  then show ?thesis by (simp add: bit_and_iff bit_is_set_bit)
qed

lemma event_is_set_init [simp]: "\<not> event_is_set (event_init ev) f"
  by (simp add: event_is_set_def event_init_def)

lemma event_is_set_new [simp]: "\<not> event_is_set rtcom_el_event_new f"
  by (simp add: event_is_set_def rtcom_el_event_new_def)

lemma event_is_set_set_field:
  assumes "\<And>e. ev_mask (store e) = ev_mask e"
  shows "event_is_set (event_set_field f store ev) g \<longleftrightarrow> g = f \<or> event_is_set ev g"
  using assms
  by (auto simp: event_is_set_bit event_set_field_def bit_or_iff bit_is_set_bit bit_index_inj)

lemma event_is_set_unset_field:
  "event_is_set (event_unset_field f ev) g \<longleftrightarrow> g \<noteq> f \<and> event_is_set ev g"
  using bit_index_less[of g]
  by (auto simp: event_is_set_bit event_unset_field_def bit_and_iff bit_not_iff
      bit_is_set_bit bit_index_inj)

section \<open>Lemmas: comparison\<close>

text \<open>A string field is readable when it is set only together with a non-NULL pointer.\<close>

definition readable :: "RTComElEvent \<Rightarrow> bool" where
  "readable ev \<longleftrightarrow>
     (event_is_set ev F_remote_ebook_uid \<longrightarrow> fld_remote_ebook_uid ev \<noteq> None) \<and>
     (event_is_set ev F_local_uid \<longrightarrow> fld_local_uid ev \<noteq> None) \<and>
     (event_is_set ev F_local_name \<longrightarrow> fld_local_name ev \<noteq> None) \<and>
     (event_is_set ev F_remote_uid \<longrightarrow> fld_remote_uid ev \<noteq> None) \<and>
     (event_is_set ev F_remote_name \<longrightarrow> fld_remote_name ev \<noteq> None) \<and>
     (event_is_set ev F_channel \<longrightarrow> fld_channel ev \<noteq> None) \<and>
     (event_is_set ev F_free_text \<longrightarrow> fld_free_text ev \<noteq> None) \<and>
     (event_is_set ev F_group_uid \<longrightarrow> fld_group_uid ev \<noteq> None)"

definition agree_on ::
    "ev_field \<Rightarrow> (RTComElEvent \<Rightarrow> 'a) \<Rightarrow> RTComElEvent \<Rightarrow> RTComElEvent \<Rightarrow> bool" where
  "agree_on f fld a b \<longleftrightarrow> (event_is_set a f \<and> event_is_set b f \<longrightarrow> fld a = fld b)"

lemma int_test_agree: "int_test f fld a b rest = (if agree_on f fld a b then rest else Some False)"
  by (auto simp: int_test_def agree_on_def)

lemma str_test_agree:
  assumes "event_is_set a f \<longrightarrow> fld a \<noteq> None" and "event_is_set b f \<longrightarrow> fld b \<noteq> None"
  shows "str_test f fld a b rest = (if agree_on f fld a b then rest else Some False)"
  using assms
  by (auto simp: str_test_def agree_on_def strcmp_differs_def split: option.splits)

text \<open>What the comparison decides: the conjunction over the seventeen compared fields.\<close>

definition events_agree :: "RTComElEvent \<Rightarrow> RTComElEvent \<Rightarrow> bool" where
  "events_agree a b \<longleftrightarrow>
     agree_on F_id fld_id a b \<and> agree_on F_service_id fld_service_id a b \<and>
     agree_on F_event_type_id fld_event_type_id a b \<and>
     agree_on F_storage_time fld_storage_time a b \<and>
     agree_on F_start_time fld_start_time a b \<and> agree_on F_end_time fld_end_time a b \<and>
     agree_on F_flags fld_flags a b \<and> agree_on F_bytes_sent fld_bytes_sent a b \<and>
     agree_on F_bytes_received fld_bytes_received a b \<and>
     agree_on F_remote_ebook_uid fld_remote_ebook_uid a b \<and>
     agree_on F_local_uid fld_local_uid a b \<and> agree_on F_local_name fld_local_name a b \<and>
     agree_on F_remote_uid fld_remote_uid a b \<and>
     agree_on F_remote_name fld_remote_name a b \<and> agree_on F_channel fld_channel a b \<and>
     agree_on F_free_text fld_free_text a b \<and> agree_on F_group_uid fld_group_uid a b"

lemma str_test_readable:
  assumes "readable a" and "readable b"
    and "(f, fld) \<in> {(F_remote_ebook_uid, fld_remote_ebook_uid), (F_local_uid, fld_local_uid),
       (F_local_name, fld_local_name), (F_remote_uid, fld_remote_uid),
       (F_remote_name, fld_remote_name), (F_channel, fld_channel),
       (F_free_text, fld_free_text), (F_group_uid, fld_group_uid)}"
  shows "str_test f fld a b rest = (if agree_on f fld a b then rest else Some False)"
proof (rule str_test_agree)
  show "event_is_set a f \<longrightarrow> fld a \<noteq> None"
    using assms(1,3) unfolding readable_def by (elim insertE) auto
  show "event_is_set b f \<longrightarrow> fld b \<noteq> None"
    using assms(2,3) unfolding readable_def by (elim insertE) auto
qed

lemma if_Some_conj: "(if P then Some Q else Some False) = Some (P \<and> Q)"
  by simp

lemma event_equals_agree:
  assumes "readable a" and "readable b"
  shows "rtcom_el_event_equals a b = Some (events_agree a b)"
  unfolding rtcom_el_event_equals_def events_agree_def int_test_agree
  by (simp add: str_test_readable [OF assms] if_Some_conj cong: if_cong split del: if_split)

lemma agree_on_sym: "agree_on f fld a b \<longleftrightarrow> agree_on f fld b a"
  by (auto simp: agree_on_def)

lemma events_agree_sym: "events_agree a b \<longleftrightarrow> events_agree b a"
  unfolding events_agree_def by (simp only: agree_on_sym [of _ _ a b])

section \<open>The comparison as a statement about fields\<close>

datatype field_value = IntField int | StrField "string option"

fun get_field :: "ev_field \<Rightarrow> RTComElEvent \<Rightarrow> field_value" where
  "get_field F_id ev = IntField (fld_id ev)"
| "get_field F_service_id ev = IntField (fld_service_id ev)"
| "get_field F_event_type_id ev = IntField (fld_event_type_id ev)"
| "get_field F_storage_time ev = IntField (fld_storage_time ev)"
| "get_field F_start_time ev = IntField (fld_start_time ev)"
| "get_field F_end_time ev = IntField (fld_end_time ev)"
| "get_field F_is_read ev = IntField (fld_is_read ev)"
| "get_field F_flags ev = IntField (fld_flags ev)"
| "get_field F_bytes_sent ev = IntField (fld_bytes_sent ev)"
| "get_field F_bytes_received ev = IntField (fld_bytes_received ev)"
| "get_field F_outgoing ev = IntField (fld_outgoing ev)"
| "get_field F_remote_ebook_uid ev = StrField (fld_remote_ebook_uid ev)"
| "get_field F_local_uid ev = StrField (fld_local_uid ev)"
| "get_field F_local_name ev = StrField (fld_local_name ev)"
| "get_field F_remote_uid ev = StrField (fld_remote_uid ev)"
| "get_field F_remote_name ev = StrField (fld_remote_name ev)"
| "get_field F_channel ev = StrField (fld_channel ev)"
| "get_field F_free_text ev = StrField (fld_free_text ev)"
| "get_field F_group_uid ev = StrField (fld_group_uid ev)"
| "get_field F_service ev = StrField (fld_service ev)"
| "get_field F_event_type ev = StrField (fld_event_type ev)"
| "get_field F_additional_text ev = StrField (fld_additional_text ev)"
| "get_field F_icon_name ev = StrField (fld_icon_name ev)"
| "get_field F_pango_markup ev = StrField (fld_pango_markup ev)"

definition compared :: "ev_field set" where
  "compared = UNIV - {F_is_read, F_outgoing, F_service, F_event_type, F_additional_text, F_icon_name,
     F_pango_markup}"

lemma compared_fields_list:
  "compared = {F_id, F_service_id, F_event_type_id, F_storage_time, F_start_time, F_end_time, F_flags,
     F_bytes_sent, F_bytes_received, F_remote_ebook_uid, F_local_uid, F_local_name, F_remote_uid,
     F_remote_name, F_channel, F_free_text, F_group_uid}"
proof -
  have "f \<in> compared \<longleftrightarrow> f \<in> {F_id, F_service_id, F_event_type_id, F_storage_time, F_start_time,
      F_end_time, F_flags, F_bytes_sent, F_bytes_received, F_remote_ebook_uid, F_local_uid,
      F_local_name, F_remote_uid, F_remote_name, F_channel, F_free_text, F_group_uid}" for f
    by (cases f) (simp_all add: compared_def)
  then show ?thesis by blast
qed

text \<open>C38: On events whose set string fields are not NULL, \<open>rtcom_el_event_equals\<close> is agreement on the
  fields both events have set, apart from seven it does not look at (the read and outgoing states,
  the names of service and type, and what plugins compute): events without a common field are equal,
  so that it is symmetric and reflexive, but not transitive.\<close>

theorem event_equals_decides:
  assumes "readable a" and "readable b"
  shows "rtcom_el_event_equals a b =
     Some (\<forall>f\<in>compared. event_is_set a f \<and> event_is_set b f \<longrightarrow> get_field f a = get_field f b)"
proof -
  have "events_agree a b \<longleftrightarrow>
      (\<forall>f\<in>compared. event_is_set a f \<and> event_is_set b f \<longrightarrow> get_field f a = get_field f b)"
    unfolding events_agree_def agree_on_def compared_fields_list by simp
  with event_equals_agree [OF assms] show ?thesis by simp
qed

definition named_event :: "string \<Rightarrow> RTComElEvent" where
  "named_event n = event_set_field F_local_uid (\<lambda>e. e\<lparr>fld_local_uid := Some n\<rparr>) rtcom_el_event_new"

theorem event_equals_decides_witness:
  "rtcom_el_event_equals (named_event ''a'') (named_event ''b'') = Some False \<and>
   rtcom_el_event_equals (named_event ''a'') rtcom_el_event_new = Some True \<and>
   rtcom_el_event_equals rtcom_el_event_new (named_event ''b'') = Some True"
proof -
  have set: "event_is_set (named_event n) f \<longleftrightarrow> f = F_local_uid" for n f
    by (simp add: named_event_def event_is_set_set_field)
  have val: "fld_local_uid (named_event n) = Some n" for n
    by (simp add: named_event_def event_set_field_def)
  have r: "readable (named_event n)" "readable rtcom_el_event_new" for n
    by (simp_all add: readable_def set val)
  have "F_local_uid \<in> compared" by (simp add: compared_fields_list)
  with event_equals_decides [OF r(1,1), of "''a''" "''b''"] event_equals_decides [OF r(1,2), of "''a''"]
    event_equals_decides [OF r(2,1), of "''b''"]
  show ?thesis by (auto simp: set val)
qed

end
