(* ===== verification/El_Schema.thy ===== *)
theory El_Schema
  imports El_Prelude
begin

text \<open>
  The database of src/db.c: the tables of \<open>db_schema_sql\<close> with their constraints, the
  triggers, and the SQL statements the library issues, each one as a function on the
  tables. A statement yields the rows it returns, the row id it inserted (if it is an
  INSERT) and the new tables, or the error SQLite reports for a violated constraint; a
  failed statement changes nothing.
\<close>

section \<open>Result codes of SQLite that stand for a failure\<close>

datatype sqlite_error =
    SQLITE_ERROR | SQLITE_BUSY | SQLITE_LOCKED | SQLITE_FULL | SQLITE_IOERR
  | SQLITE_CORRUPT | SQLITE_FORMAT | SQLITE_NOTADB | SQLITE_ABORT | SQLITE_INTERRUPT
  | SQLITE_CONSTRAINT | SQLITE_OTHER nat

section \<open>Rows and tables\<close>

record service_row =
  sv_id :: int
  sv_name :: string
  sv_plugin_id :: int
  sv_desc :: "string option"

record eventtype_row =
  et_id :: int
  et_name :: string
  et_plugin_id :: int
  et_desc :: "string option"

record flag_row =
  fl_id :: int
  fl_service_id :: int
  fl_name :: string
  fl_value :: int
  fl_desc :: "string option"

record plugin_row =
  pl_id :: int
  pl_name :: string
  pl_desc :: string

record attachment_row =
  at_id :: int
  at_event_id :: int
  at_path :: string
  at_desc :: "string option"

record header_row =
  hd_id :: int
  hd_event_id :: int
  hd_name :: string
  hd_value :: string

record remote_row =
  rm_local_uid :: string
  rm_remote_uid :: string
  rm_remote_name :: "string option"
  rm_abook_uid :: "string option"

record event_row =
  e_id :: int
  e_service_id :: int
  e_event_type_id :: int
  e_storage_time :: int
  e_start_time :: int
  e_end_time :: int
  e_is_read :: int
  e_outgoing :: int
  e_flags :: int
  e_bytes_sent :: int
  e_bytes_received :: int
  e_local_uid :: "string option"
  e_local_name :: "string option"
  e_remote_uid :: "string option"
  e_channel :: "string option"
  e_free_text :: "string option"
  e_group_uid :: "string option"

record cache_row =
  gc_event_id :: int
  gc_service_id :: int
  gc_group_uid :: string
  gc_total_events :: int
  gc_read_events :: int
  gc_flags :: int

record tables =
  Services :: "service_row list"
  EventTypes :: "eventtype_row list"
  Flags :: "flag_row list"
  Plugins :: "plugin_row list"
  Attachments :: "attachment_row list"
  Headers :: "header_row list"
  Remotes :: "remote_row list"
  Events :: "event_row list"
  GroupCache :: "cache_row list"

definition empty_tables :: tables where
  "empty_tables = \<lparr>Services = [], EventTypes = [], Flags = [], Plugins = [],
     Attachments = [], Headers = [], Remotes = [], Events = [], GroupCache = []\<rparr>"

type_synonym 'r stmt = "tables \<Rightarrow> sqlite_error + 'r list \<times> int option \<times> tables"

text \<open>
  An INTEGER PRIMARY KEY that an INSERT leaves out (or gives as NULL) becomes one more
  than the largest in the table, and 1 in an empty table.
\<close>

fun next_rowid :: "int list \<Rightarrow> int" where
  "next_rowid [] = 1"
| "next_rowid (x # xs) = (if xs = [] then x + 1 else max (x + 1) (next_rowid xs))"

section \<open>Triggers\<close>

text \<open>
  \<open>gc_update_ev_add1\<close>, BEFORE INSERT ON Events: an empty cache row for the group, unless
  one of the UNIQUE constraints of GroupCache (event_id, and service_id with group_uid)
  forbids it (INSERT OR IGNORE).
\<close>

definition gc_update_ev_add1 :: "event_row \<Rightarrow> tables \<Rightarrow> tables" where
  "gc_update_ev_add1 new t =
     (case e_group_uid new of
        None \<Rightarrow> t
      | Some g \<Rightarrow>
          if \<exists>c\<in>set (GroupCache t). gc_event_id c = 0 \<or>
               (gc_service_id c = e_service_id new \<and> gc_group_uid c = g)
          then t
          else t\<lparr>GroupCache := GroupCache t @
                 [\<lparr>gc_event_id = 0, gc_service_id = e_service_id new, gc_group_uid = g,
                   gc_total_events = 0, gc_read_events = 0, gc_flags = 0\<rparr>]\<rparr>)"

text \<open>
  \<open>gc_update_ev_add4\<close>, AFTER INSERT ON Events: every cache row of the group counts the
  new event. Two rows may not share an event_id: the UPDATE, and with it the INSERT,
  fails then.
\<close>

definition gc_count_event :: "event_row \<Rightarrow> string \<Rightarrow> cache_row \<Rightarrow> cache_row" where
  "gc_count_event new g c =
     (if gc_group_uid c = g
      then c\<lparr>gc_event_id := e_id new, gc_total_events := gc_total_events c + 1,
             gc_read_events := gc_read_events c + e_is_read new,
             gc_flags := gc_flags c OR e_flags new\<rparr>
      else c)"

definition gc_update_ev_add4 :: "event_row \<Rightarrow> tables \<Rightarrow> sqlite_error + tables" where
  "gc_update_ev_add4 new t =
     (case e_group_uid new of
        None \<Rightarrow> Inr t
      | Some g \<Rightarrow>
          let gcs = map (gc_count_event new g) (GroupCache t)
          in if distinct (map gc_event_id gcs) then Inr (t\<lparr>GroupCache := gcs\<rparr>)
             else Inl SQLITE_CONSTRAINT)"

text \<open>\<open>gc_update_ev_update\<close>, AFTER UPDATE ON Events.\<close>

definition gc_update_ev_update :: "event_row \<Rightarrow> event_row \<Rightarrow> tables \<Rightarrow> tables" where
  "gc_update_ev_update old new t =
     (case e_group_uid new of
        None \<Rightarrow> t
      | Some g \<Rightarrow>
          t\<lparr>GroupCache := map (\<lambda>c.
              if gc_group_uid c = g
              then c\<lparr>gc_read_events := gc_read_events c - e_is_read old + e_is_read new,
                     gc_flags := (gc_flags c AND NOT (e_flags old)) OR e_flags new\<rparr>
              else c) (GroupCache t)\<rparr>)"

text \<open>\<open>fkd_headers_atts_event_id\<close>, BEFORE DELETE ON Events.\<close>

definition fkd_headers_atts_event_id :: "event_row \<Rightarrow> tables \<Rightarrow> tables" where
  "fkd_headers_atts_event_id old t =
     t\<lparr>Headers := filter (\<lambda>h. hd_event_id h \<noteq> e_id old) (Headers t),
       Attachments := filter (\<lambda>a. at_event_id a \<noteq> e_id old) (Attachments t)\<rparr>"

section \<open>Statements that change Events\<close>

text \<open>The row carries the values of the VALUES list; its id is chosen by the table.\<close>

definition insert_event :: "event_row \<Rightarrow> 'r stmt" where
  "insert_event row t =
     (let new = row\<lparr>e_id := next_rowid (map e_id (Events t))\<rparr>;
          t1 = gc_update_ev_add1 new t;
          t2 = t1\<lparr>Events := Events t1 @ [new]\<rparr>
      in case gc_update_ev_add4 new t2 of
           Inl e \<Rightarrow> Inl e
         | Inr t3 \<Rightarrow> Inr ([], Some (e_id new), t3))"

definition update_event :: "int \<Rightarrow> (event_row \<Rightarrow> event_row) \<Rightarrow> 'r stmt" where
  "update_event i f t =
     Inr ([], None,
       fold (\<lambda>old. gc_update_ev_update old (f old))
         (filter (\<lambda>e. e_id e = i) (Events t))
         (t\<lparr>Events := map (\<lambda>e. if e_id e = i then f e else e) (Events t)\<rparr>))"

definition delete_events_where :: "(event_row \<Rightarrow> bool) \<Rightarrow> 'r stmt" where
  "delete_events_where P t =
     Inr ([], None,
       (fold fkd_headers_atts_event_id (filter P (Events t)) t)
         \<lparr>Events := filter (\<lambda>e. \<not> P e) (Events t)\<rparr>)"

section \<open>Statements on GroupCache\<close>

text \<open>
  \<open>INSERT OR REPLACE INTO GroupCache SELECT MAX(id), service_id, group_uid, COUNT(*),
  SUM(is_read), SUM(flags) FROM Events WHERE group_uid IN (...) GROUP BY group_uid\<close>: the
  bare column service_id comes from the row that holds the maximum; a row that violates a
  UNIQUE constraint replaces the rows it conflicts with.
\<close>

definition group_events :: "tables \<Rightarrow> string \<Rightarrow> event_row list" where
  "group_events t g = filter (\<lambda>e. e_group_uid e = Some g) (Events t)"

fun newest :: "event_row \<Rightarrow> event_row list \<Rightarrow> event_row" where
  "newest m [] = m"
| "newest m (e # es) = newest (if e_id m < e_id e then e else m) es"

definition summary_row :: "string \<Rightarrow> event_row list \<Rightarrow> cache_row" where
  "summary_row g es =
     (let m = newest (hd es) (tl es)
      in \<lparr>gc_event_id = e_id m, gc_service_id = e_service_id m, gc_group_uid = g,
          gc_total_events = int (length es), gc_read_events = sum_list (map e_is_read es),
          gc_flags = sum_list (map e_flags es)\<rparr>)"

definition replace_cache_row :: "cache_row \<Rightarrow> cache_row list \<Rightarrow> cache_row list" where
  "replace_cache_row n cs =
     filter (\<lambda>c. gc_event_id c \<noteq> gc_event_id n \<and>
        \<not> (gc_service_id c = gc_service_id n \<and> gc_group_uid c = gc_group_uid n)) cs @ [n]"

definition refresh_groups :: "string list \<Rightarrow> 'r stmt" where
  "refresh_groups gs t =
     Inr ([], None,
       t\<lparr>GroupCache :=
          fold (\<lambda>g. replace_cache_row (summary_row g (group_events t g)))
            (filter (\<lambda>g. group_events t g \<noteq> []) (remdups gs)) (GroupCache t)\<rparr>)"

definition drop_empty_groups :: "'r stmt" where
  "drop_empty_groups t =
     Inr ([], None,
       t\<lparr>GroupCache := filter (\<lambda>c. group_events t (gc_group_uid c) \<noteq> []) (GroupCache t)\<rparr>)"

definition delete_cache_where :: "(cache_row \<Rightarrow> bool) \<Rightarrow> 'r stmt" where
  "delete_cache_where P t =
     Inr ([], None, t\<lparr>GroupCache := filter (\<lambda>c. \<not> P c) (GroupCache t)\<rparr>)"

section \<open>Statements on the other tables\<close>

text \<open>Values are NULL-able pointers; NULL in a NOT NULL column is a violated constraint.\<close>

definition insert_header :: "int \<Rightarrow> string option \<Rightarrow> string option \<Rightarrow> 'r stmt" where
  "insert_header ev name val t =
     (case (name, val) of
        (Some n, Some v) \<Rightarrow>
          if \<exists>h\<in>set (Headers t). hd_event_id h = ev \<and> hd_name h = n then Inl SQLITE_CONSTRAINT
          else let i = next_rowid (map hd_id (Headers t))
               in Inr ([], Some i, t\<lparr>Headers := Headers t @
                    [\<lparr>hd_id = i, hd_event_id = ev, hd_name = n, hd_value = v\<rparr>]\<rparr>)
      | _ \<Rightarrow> Inl SQLITE_CONSTRAINT)"

definition insert_attachment :: "int \<Rightarrow> string \<Rightarrow> string option \<Rightarrow> 'r stmt" where
  "insert_attachment ev path desc t =
     (let i = next_rowid (map at_id (Attachments t))
      in Inr ([], Some i, t\<lparr>Attachments := Attachments t @
           [\<lparr>at_id = i, at_event_id = ev, at_path = path, at_desc = desc\<rparr>]\<rparr>))"

text \<open>
  In \<open>column = value\<close> a NULL value selects no row. Remotes has no primary key of its
  own and the library never deletes from it: the implicit row id counts the rows.
\<close>

definition remote_is :: "string option \<Rightarrow> string option \<Rightarrow> remote_row \<Rightarrow> bool" where
  "remote_is ruid luid r \<longleftrightarrow> ruid = Some (rm_remote_uid r) \<and> luid = Some (rm_local_uid r)"

definition select_remote ::
    "string option \<Rightarrow> string option \<Rightarrow> (string option \<times> string option) stmt" where
  "select_remote ruid luid t =
     Inr (map (\<lambda>r. (rm_abook_uid r, rm_remote_name r))
            (filter (remote_is ruid luid) (Remotes t)), None, t)"

definition insert_remote ::
    "string option \<Rightarrow> string option \<Rightarrow> string option \<Rightarrow> string option \<Rightarrow> 'r stmt" where
  "insert_remote luid ruid name abook t =
     (case (luid, ruid) of
        (Some l, Some r) \<Rightarrow>
          if \<exists>x\<in>set (Remotes t). remote_is ruid luid x then Inl SQLITE_CONSTRAINT
          else Inr ([], Some (int (length (Remotes t)) + 1), t\<lparr>Remotes := Remotes t @
                 [\<lparr>rm_local_uid = l, rm_remote_uid = r, rm_remote_name = name,
                   rm_abook_uid = abook\<rparr>]\<rparr>)
      | _ \<Rightarrow> Inl SQLITE_CONSTRAINT)"

definition update_remotes ::
    "(remote_row \<Rightarrow> bool) \<Rightarrow> (remote_row \<Rightarrow> remote_row) \<Rightarrow> 'r stmt" where
  "update_remotes P f t =
     Inr ([], None, t\<lparr>Remotes := map (\<lambda>r. if P r then f r else r) (Remotes t)\<rparr>)"

definition insert_plugin :: "string \<Rightarrow> string \<Rightarrow> 'r stmt" where
  "insert_plugin name desc t =
     (if name \<in> pl_name ` set (Plugins t) then Inl SQLITE_CONSTRAINT
      else let i = next_rowid (map pl_id (Plugins t))
           in Inr ([], Some i, t\<lparr>Plugins := Plugins t @
                [\<lparr>pl_id = i, pl_name = name, pl_desc = desc\<rparr>]\<rparr>))"

definition insert_service :: "string \<Rightarrow> int \<Rightarrow> string option \<Rightarrow> 'r stmt" where
  "insert_service name plugin desc t =
     (if name \<in> sv_name ` set (Services t) then Inl SQLITE_CONSTRAINT
      else let i = next_rowid (map sv_id (Services t))
           in Inr ([], Some i, t\<lparr>Services := Services t @
                [\<lparr>sv_id = i, sv_name = name, sv_plugin_id = plugin, sv_desc = desc\<rparr>]\<rparr>))"

definition insert_eventtype :: "string \<Rightarrow> int \<Rightarrow> string option \<Rightarrow> 'r stmt" where
  "insert_eventtype name plugin desc t =
     (if name \<in> et_name ` set (EventTypes t) then Inl SQLITE_CONSTRAINT
      else let i = next_rowid (map et_id (EventTypes t))
           in Inr ([], Some i, t\<lparr>EventTypes := EventTypes t @
                [\<lparr>et_id = i, et_name = name, et_plugin_id = plugin, et_desc = desc\<rparr>]\<rparr>))"

definition insert_flag :: "int \<Rightarrow> string \<Rightarrow> int \<Rightarrow> string option \<Rightarrow> 'r stmt" where
  "insert_flag service name val desc t =
     (if name \<in> fl_name ` set (Flags t) then Inl SQLITE_CONSTRAINT
      else let i = next_rowid (map fl_id (Flags t))
           in Inr ([], Some i, t\<lparr>Flags := Flags t @
                [\<lparr>fl_id = i, fl_service_id = service, fl_name = name, fl_value = val,
                  fl_desc = desc\<rparr>]\<rparr>))"

text \<open>A query that only reads: its rows, in the order of the table.\<close>

definition select_rows :: "(tables \<Rightarrow> 'r list) \<Rightarrow> 'r stmt" where
  "select_rows q t = Inr (q t, None, t)"

end
