(* ===== verification/El_Db.thy ===== *)
theory El_Db
  imports El_Schema
begin

text \<open>
  The database layer of src/db.c: \<open>rtcom_el_db_iterate\<close> with its busy loop,
  \<open>rtcom_el_db_exec\<close>, the transaction brackets and the lookup tables. The state \<open>db\<close> is a
  connection: its view of the tables, the tables to return to when a transaction is open,
  the journal mode. What SQLite decides for reasons outside the tables (the file is
  locked, full, corrupt) is an input: \<open>script\<close> lists its answers to the calls to come, and
  an exhausted script means that SQLite goes ahead.
\<close>

section \<open>Answers of SQLite, and the busy loop\<close>

text \<open>
  \<open>Go\<close>: the call does its work. \<open>Refuse c t rb\<close>: it returns the error \<open>c\<close>, the timer of the
  busy loop then shows \<open>t\<close> seconds, and \<open>rb\<close> tells whether SQLite rolled back the open
  transaction by itself (it may for a full disk, an I/O error or an interrupt).
\<close>

datatype answer = Go | Refuse sqlite_error real bool

definition is_busy :: "sqlite_error \<Rightarrow> bool" where
  "is_busy c \<longleftrightarrow> c = SQLITE_BUSY \<or> c = SQLITE_LOCKED"

text \<open>RTCOM_EL_DB_MAX_BUSYLOOP_TIME, in seconds.\<close>

definition max_busyloop_time :: real where
  "max_busyloop_time = 2"

text \<open>The \<open>switch\<close> of \<open>rtcom_el_db_iterate\<close> and of \<open>rtcom_el_db_exec\<close>.\<close>

fun result_error :: "sqlite_error \<Rightarrow> RTComElError" where
  "result_error SQLITE_FULL = RTCOM_EL_DATABASE_FULL"
| "result_error SQLITE_IOERR = RTCOM_EL_DATABASE_FULL"
| "result_error SQLITE_CORRUPT = RTCOM_EL_DATABASE_CORRUPTED"
| "result_error SQLITE_FORMAT = RTCOM_EL_DATABASE_CORRUPTED"
| "result_error SQLITE_NOTADB = RTCOM_EL_DATABASE_CORRUPTED"
| "result_error _ = RTCOM_EL_INTERNAL_ERROR"

text \<open>
  One call of \<open>rtcom_el_db_iterate\<close>: SQLite made its step (the row or the end of the
  statement is then up to the statement), or the call failed with SQLite's error code and
  the error it reports.
\<close>

datatype step_result = Stepped | Failed sqlite_error RTComElError bool

fun rtcom_el_db_iterate :: "answer list \<Rightarrow> step_result \<times> answer list" where
  "rtcom_el_db_iterate [] = (Stepped, [])"
| "rtcom_el_db_iterate (Go # as) = (Stepped, as)"
| "rtcom_el_db_iterate (Refuse c t rb # as) =
     (if is_busy c
      then if max_busyloop_time < t then (Failed c RTCOM_EL_TEMPORARY_ERROR rb, as)
           else rtcom_el_db_iterate as
      else (Failed c (result_error c) rb, as))"

text \<open>
  The same loop over an endless sequence of answers, where it may run forever; \<open>n\<close> counts
  the calls of \<open>sqlite3_step\<close>.
\<close>

partial_function (option) iterate_loop :: "(nat \<Rightarrow> answer) \<Rightarrow> nat \<Rightarrow> (step_result \<times> nat) option"
where
  "iterate_loop w n =
     (case w n of
        Go \<Rightarrow> Some (Stepped, Suc n)
      | Refuse c t rb \<Rightarrow>
          if is_busy c
          then if max_busyloop_time < t then Some (Failed c RTCOM_EL_TEMPORARY_ERROR rb, Suc n)
               else iterate_loop w (Suc n)
          else Some (Failed c (result_error c) rb, Suc n))"

declare iterate_loop.simps [code]

section \<open>Connections\<close>

datatype journal_mode = JM_DELETE | JM_TRUNCATE | JM_MEMORY | JM_OFF

text \<open>
  \<open>txn\<close> is \<open>None\<close> in autocommit mode, else the tables at the BEGIN. Without a journal
  (JM_OFF) SQLite cannot undo anything: \<open>torn d old new\<close> is what a failed or rolled back
  change from \<open>old\<close> to \<open>new\<close> leaves behind then, which its documentation leaves undefined.
  \<open>jm_fixed\<close>: whether a PRAGMA journal_mode inside a transaction is ignored.
\<close>

record db =
  tb :: tables
  txn :: "tables option"
  journal :: journal_mode
  script :: "answer list"
  last_rowid :: int
  errcode :: "sqlite_error option"
  torn :: "tables \<Rightarrow> tables \<Rightarrow> tables"
  jm_fixed :: bool

datatype 'r sql =
    Stmt "'r stmt"
  | BEGIN_DEFERRED | BEGIN_EXCLUSIVE | COMMIT | ROLLBACK
  | PRAGMA_JOURNAL journal_mode
  | MALFORMED \<comment> \<open>text SQLite cannot compile\<close>

definition undo :: "'a db_scheme \<Rightarrow> 'a db_scheme" where
  "undo d =
     (case txn d of
        None \<Rightarrow> d
      | Some sv \<Rightarrow>
          d\<lparr>tb := (if journal d = JM_OFF \<and> sv \<noteq> tb d then torn d sv (tb d) else sv),
            txn := None\<rparr>)"

fun effect :: "'r sql \<Rightarrow> 'a db_scheme \<Rightarrow> sqlite_error + 'r list \<times> 'a db_scheme" where
  "effect (Stmt f) d =
     (case f (tb d) of
        Inl c \<Rightarrow> Inl c
      | Inr (rows, i, t) \<Rightarrow>
          Inr (rows, d\<lparr>tb := t, last_rowid := (case i of None \<Rightarrow> last_rowid d | Some k \<Rightarrow> k)\<rparr>))"
| "effect BEGIN_DEFERRED d =
     (if txn d = None then Inr ([], d\<lparr>txn := Some (tb d)\<rparr>) else Inl SQLITE_ERROR)"
| "effect BEGIN_EXCLUSIVE d =
     (if txn d = None then Inr ([], d\<lparr>txn := Some (tb d)\<rparr>) else Inl SQLITE_ERROR)"
| "effect COMMIT d =
     (if txn d = None then Inl SQLITE_ERROR else Inr ([], d\<lparr>txn := None\<rparr>))"
| "effect ROLLBACK d =
     (if txn d = None then Inl SQLITE_ERROR else Inr ([], undo d))"
| "effect (PRAGMA_JOURNAL m) d =
     Inr ([], if txn d \<noteq> None \<and> jm_fixed d then d else d\<lparr>journal := m\<rparr>)"
| "effect MALFORMED d = Inl SQLITE_ERROR"

text \<open>What a refused statement leaves: nothing changed, unless there is no journal.\<close>

definition refused :: "sqlite_error \<Rightarrow> bool \<Rightarrow> 'a db_scheme \<Rightarrow> tables \<Rightarrow> 'a db_scheme" where
  "refused c rb d new =
     (let d1 = (if journal d = JM_OFF \<and> \<not> is_busy c \<and> new \<noteq> tb d
                then d\<lparr>tb := torn d (tb d) new\<rparr> else d);
          d2 = (if rb then undo d1 else d1)
      in d2\<lparr>errcode := Some c\<rparr>)"

section \<open>Executing a statement\<close>

text \<open>The \<open>do\<close> loop: one iteration for each row, and one that finds the end.\<close>

fun fetch :: "'r list \<Rightarrow> answer list \<Rightarrow> 'r list \<times> step_result \<times> answer list" where
  "fetch [] as =
     (case rtcom_el_db_iterate as of (r, as') \<Rightarrow> ([], r, as'))"
| "fetch (row # rows) as =
     (case rtcom_el_db_iterate as of
        (Stepped, as') \<Rightarrow> (case fetch rows as' of (got, r, as'') \<Rightarrow> (row # got, r, as''))
      | (Failed c e rb, as') \<Rightarrow> ([], Failed c e rb, as'))"

text \<open>
  The result: whether it returned TRUE, the rows handed to the callback, the error it
  reports and the connection afterwards. The first answer is \<open>sqlite3_prepare_v2\<close>'s.
\<close>

definition rtcom_el_db_exec ::
    "'r sql \<Rightarrow> 'a db_scheme \<Rightarrow> bool \<times> 'r list \<times> RTComElError option \<times> 'a db_scheme" where
  "rtcom_el_db_exec q d =
     (case script d of
        Refuse c t rb # as \<Rightarrow>
          (False, [], Some (result_error c), d\<lparr>script := as, errcode := Some c\<rparr>)
      | _ \<Rightarrow>
          let as = tl (script d) in
          case q of
            MALFORMED \<Rightarrow>
              (False, [], Some RTCOM_EL_INTERNAL_ERROR,
               d\<lparr>script := as, errcode := Some SQLITE_ERROR\<rparr>)
          | _ \<Rightarrow>
              (case effect q d of
                 Inl c \<Rightarrow>
                   (case rtcom_el_db_iterate as of
                      (Stepped, as') \<Rightarrow>
                        (False, [], Some (result_error c), d\<lparr>script := as', errcode := Some c\<rparr>)
                    | (Failed c' e rb, as') \<Rightarrow>
                        (False, [], Some e, (refused c' rb d (tb d))\<lparr>script := as'\<rparr>))
               | Inr (rows, d') \<Rightarrow>
                   (case fetch rows as of
                      (got, Stepped, as') \<Rightarrow> (True, got, None, d'\<lparr>script := as', errcode := None\<rparr>)
                    | (got, Failed c e rb, as') \<Rightarrow>
                        (False, got, Some e, (refused c rb d (tb d'))\<lparr>script := as'\<rparr>))))"

section \<open>Transactions\<close>

definition rtcom_el_db_transaction ::
    "bool \<Rightarrow> 'a db_scheme \<Rightarrow> bool \<times> RTComElError option \<times> 'a db_scheme" where
  "rtcom_el_db_transaction exclusive d =
     (if txn d \<noteq> None then (False, None, d)
      else case rtcom_el_db_exec (if exclusive then BEGIN_EXCLUSIVE else BEGIN_DEFERRED :: unit sql) d of
             (ok, _, e, d') \<Rightarrow> (ok, e, d'))"

definition rtcom_el_db_commit ::
    "'a db_scheme \<Rightarrow> bool \<times> RTComElError option \<times> 'a db_scheme" where
  "rtcom_el_db_commit d =
     (if txn d = None then (False, None, d)
      else case rtcom_el_db_exec (COMMIT :: unit sql) d of (ok, _, e, d') \<Rightarrow> (ok, e, d'))"

definition rtcom_el_db_rollback ::
    "'a db_scheme \<Rightarrow> bool \<times> RTComElError option \<times> 'a db_scheme" where
  "rtcom_el_db_rollback d =
     (if txn d = None then (False, None, d)
      else case rtcom_el_db_exec (ROLLBACK :: unit sql) d of (ok, _, e, d') \<Rightarrow> (ok, e, d'))"

section \<open>Reading values\<close>

text \<open>\<open>sqlite3_column_int\<close>: NULL reads as 0, other values lose their upper 32 bits.\<close>

definition sqlite3_column_int :: "int option \<Rightarrow> int" where
  "sqlite3_column_int v = (case v of None \<Rightarrow> 0 | Some x \<Rightarrow> to_gint x)"

text \<open>The callback \<open>rtcom_el_db_single_int\<close>, run on every row: the last one stays.\<close>

definition rtcom_el_db_single_int :: "int option list \<Rightarrow> int \<Rightarrow> int" where
  "rtcom_el_db_single_int rows val = fold (\<lambda>row _. sqlite3_column_int row) rows val"

text \<open>
  \<open>rtcom_el_db_cache_lookup_table\<close>: the hash table from names to ids (\<open>None\<close>: NULL after an
  error); \<open>sel\<close> lists the table's (id, name) rows.
\<close>

definition rtcom_el_db_cache_lookup_table ::
    "(tables \<Rightarrow> (int \<times> string) list) \<Rightarrow> 'a db_scheme
      \<Rightarrow> (string \<rightharpoonup> int) option \<times> 'a db_scheme" where
  "rtcom_el_db_cache_lookup_table sel d =
     (case rtcom_el_db_exec (Stmt (select_rows sel)) d of
        (ok, rows, _, d') \<Rightarrow>
          (if ok then Some (fold (\<lambda>(i, n) m. m(n \<mapsto> to_gint i)) rows Map.empty) else None, d'))"

section \<open>Lemmas: the busy loop\<close>

text \<open>
  The loop ends as soon as some answer is not busy, or comes after the time limit; a
  script that ends in one has the same result in both forms of the loop.
\<close>

definition stops :: "answer \<Rightarrow> bool" where
  "stops a \<longleftrightarrow> (case a of Go \<Rightarrow> True | Refuse c t rb \<Rightarrow> is_busy c \<longrightarrow> max_busyloop_time < t)"

lemma iterate_loop_list:
  assumes "\<forall>k<m. \<not> stops (w (n + k))" and "stops (w (n + m))"
  shows "iterate_loop w n =
     Some (fst (rtcom_el_db_iterate (map w [n..<Suc (n + m)])), Suc (n + m))"
  using assms
proof (induction m arbitrary: n)
  case 0
  then show ?case
    by (subst iterate_loop.simps) (auto simp: stops_def split: answer.splits)
next
  case (Suc m)
  from Suc.prems(1) have "\<not> stops (w n)" by fastforce
  then obtain c t rb where w: "w n = Refuse c t rb" "is_busy c" "\<not> max_busyloop_time < t"
    by (auto simp: stops_def split: answer.splits)
  have "\<forall>k<m. \<not> stops (w (Suc n + k))" using Suc.prems(1) by fastforce
  from Suc.IH [OF this] Suc.prems(2) have "iterate_loop w (Suc n) =
      Some (fst (rtcom_el_db_iterate (map w [Suc n..<Suc (Suc n + m)])), Suc (Suc n + m))" by simp
  with w show ?case
    by (subst iterate_loop.simps) (simp add: upt_conv_Cons del: upt_Suc)
qed

lemma stops_eventually:
  fixes n :: nat
  assumes "\<exists>k. stops (w (n + k))"
  shows "\<exists>m. (\<forall>k<m. \<not> stops (w (n + k))) \<and> stops (w (n + m))"
  using assms exists_least_iff [of "\<lambda>k. stops (w (n + k))"] by auto

section \<open>Lemmas: statements and transactions\<close>

text \<open>What survives a crash or a rollback: the tables at the BEGIN of an open transaction.\<close>

definition durable :: "'a db_scheme \<Rightarrow> tables" where
  "durable d = (case txn d of None \<Rightarrow> tb d | Some sv \<Rightarrow> sv)"

lemma durable_script [simp]:
  "durable (d\<lparr>script := as\<rparr>) = durable d" "durable (d\<lparr>errcode := c\<rparr>) = durable d"
  "durable (d\<lparr>last_rowid := i\<rparr>) = durable d" "durable (d\<lparr>journal := m\<rparr>) = durable d"
  by (simp_all add: durable_def split: option.splits)

lemma durable_same:
  assumes "txn d' = txn d" and "tb d' = tb d"
  shows "durable d' = durable d"
  using assms by (simp add: durable_def cong: option.case_cong)

lemma undo_journaled:
  assumes "journal d \<noteq> JM_OFF"
  shows "durable (undo d) = durable d" and "journal (undo d) = journal d"
    and "tb (undo d) = durable d" and "txn (undo d) = None"
    and "db.more (undo d) = db.more d" and "script (undo d) = script d"
  using assms by (auto simp: undo_def durable_def split: option.splits)

lemma more_refused: "db.more (refused c rb d new) = db.more d"
  by (auto simp: refused_def undo_def Let_def split: option.splits)

lemma journal_refused: "journal (refused c rb d new) = journal d"
  by (auto simp: refused_def undo_def Let_def split: option.splits)

lemma refused_journaled:
  assumes "journal d \<noteq> JM_OFF"
  shows "refused c rb d new = (if rb then undo d else d)\<lparr>errcode := Some c\<rparr>"
  using assms by (simp add: refused_def Let_def)

lemma refused_cases:
  assumes "journal d \<noteq> JM_OFF"
  shows "durable (refused c rb d new) = durable d"
    and "tb (refused c rb d new) \<in> {tb d, durable d}"
    and "txn (refused c rb d new) \<in> {txn d, None}"
    and "txn d = None \<Longrightarrow> tb (refused c rb d new) = tb d"
  using assms undo_journaled [OF assms]
  by (auto simp: refused_journaled durable_def undo_def split: option.splits)

text \<open>The rows that were fetched before the call stopped are a prefix of the answer.\<close>

lemma fetch_stepped: "fetch rows as = (got, Stepped, as') \<Longrightarrow> got = rows"
  by (induction rows as arbitrary: got as' rule: fetch.induct)
    (auto split: prod.splits step_result.splits)

lemma fetch_calm [simp]: "fetch rows [] = (rows, Stepped, [])"
  by (induction rows) auto

lemma exec_ok:
  assumes "rtcom_el_db_exec q d = (True, rows, e, d')"
  obtains d1 as where "effect q d = Inr (rows, d1)" and "d' = d1\<lparr>script := as, errcode := None\<rparr>"
    and "e = None"
  using assms
  by (auto simp: rtcom_el_db_exec_def Let_def split: list.splits answer.splits sql.splits
      sum.splits prod.splits step_result.splits dest!: fetch_stepped)

lemma exec_failed:
  assumes "rtcom_el_db_exec q d = (False, rows, e, d')"
  obtains as c rb new where "d' = d\<lparr>script := as, errcode := Some c\<rparr>" and "e \<noteq> None"
  | as c rb new where "d' = (refused c rb d new)\<lparr>script := as\<rparr>" and "e \<noteq> None"
  using assms
  by (auto simp: rtcom_el_db_exec_def Let_def split: list.splits answer.splits sql.splits
      sum.splits prod.splits step_result.splits)

lemma exec_calm:
  assumes "script d = []"
  shows "rtcom_el_db_exec q d =
     (case effect q d of
        Inl c \<Rightarrow> (False, [], Some (result_error c), d\<lparr>script := [], errcode := Some c\<rparr>)
      | Inr (rows, d1) \<Rightarrow> (True, rows, None, d1\<lparr>script := [], errcode := None\<rparr>))"
  using assms
  by (cases q) (auto simp: rtcom_el_db_exec_def Let_def split: sum.splits)

text \<open>A failed statement leaves the durable tables as they were, if there is a journal.\<close>

lemma exec_failed_journaled:
  assumes "rtcom_el_db_exec q d = (False, rows, e, d')" and "journal d \<noteq> JM_OFF"
  shows "durable d' = durable d \<and> tb d' \<in> {tb d, durable d} \<and> txn d' \<in> {txn d, None} \<and>
     journal d' = journal d \<and> e \<noteq> None"
  using assms(1)
  by (cases rule: exec_failed) (use refused_cases [OF assms(2)] in \<open>auto simp: journal_refused\<close>)

lemma exec_more:
  assumes "rtcom_el_db_exec q d = (ok, rows, e, d')"
  shows "db.more d' = db.more d"
proof (cases ok)
  case False
  with assms show ?thesis by (auto elim!: exec_failed simp: more_refused)
next
  case True
  with assms obtain d1 as where "effect q d = Inr (rows, d1)"
    "d' = d1\<lparr>script := as, errcode := None\<rparr>" by (auto elim: exec_ok)
  then show ?thesis
    by (cases q) (auto split: sum.splits if_splits simp: undo_def split: option.splits)
qed

text \<open>A statement that succeeds: its effect on the tables, and nothing else of the connection.\<close>

lemma exec_stmt_ok:
  assumes "rtcom_el_db_exec (Stmt f) d = (True, rows, e, d')"
  shows "\<exists>i. f (tb d) = Inr (rows, i, tb d') \<and> txn d' = txn d \<and> journal d' = journal d \<and>
     e = None \<and> last_rowid d' = (case i of None \<Rightarrow> last_rowid d | Some k \<Rightarrow> k)"
  using assms by (auto elim!: exec_ok split: sum.splits)

lemma exec_stmt_in_txn:
  assumes "rtcom_el_db_exec (Stmt f) d = (ok, rows, e, d')" and "journal d \<noteq> JM_OFF"
    and "txn d = Some sv"
  shows "durable d' = sv \<and> journal d' = journal d \<and> (ok \<longrightarrow> txn d' = Some sv)"
proof (cases ok)
  case True
  with assms exec_stmt_ok [of f d rows e d'] show ?thesis by (auto simp: durable_def)
next
  case False
  with assms exec_failed_journaled [of "Stmt f" d rows e d'] show ?thesis
    by (auto simp: durable_def)
qed

text \<open>
  The same outside a transaction: the statement commits by itself.
\<close>

lemma exec_stmt_auto:
  assumes "rtcom_el_db_exec (Stmt f) d = (ok, rows, e, d')" and "journal d \<noteq> JM_OFF"
    and "txn d = None"
  shows "txn d' = None \<and> journal d' = journal d \<and>
     (if ok then \<exists>i. f (tb d) = Inr (rows, i, tb d') else tb d' = tb d)"
proof (cases ok)
  case True
  with assms exec_stmt_ok [of f d rows e d'] show ?thesis by auto
next
  case False
  with assms exec_failed_journaled [of "Stmt f" d rows e d'] show ?thesis
    by (auto simp: durable_def)
qed

lemma transaction_ok:
  assumes "rtcom_el_db_transaction excl d = (True, e, d')"
  shows "txn d = None \<and> txn d' = Some (tb d) \<and> tb d' = tb d \<and> journal d' = journal d \<and>
     db.more d' = db.more d \<and> last_rowid d' = last_rowid d"
  using assms exec_more
  by (fastforce simp: rtcom_el_db_transaction_def split: if_splits prod.splits elim!: exec_ok)

lemma transaction_failed:
  assumes "rtcom_el_db_transaction excl d = (False, e, d')" and "journal d \<noteq> JM_OFF"
  shows "durable d' = durable d \<and> tb d' \<in> {tb d, durable d} \<and> txn d' \<in> {txn d, None} \<and>
     journal d' = journal d \<and> (txn d = None \<longrightarrow> e \<noteq> None)"
  using assms exec_failed_journaled
  by (fastforce simp: rtcom_el_db_transaction_def split: if_splits prod.splits)

lemma commit_ok:
  assumes "rtcom_el_db_commit d = (True, e, d')"
  shows "txn d \<noteq> None \<and> txn d' = None \<and> tb d' = tb d \<and> journal d' = journal d \<and>
     last_rowid d' = last_rowid d"
  using assms
  by (auto simp: rtcom_el_db_commit_def split: if_splits prod.splits elim!: exec_ok)

lemma commit_failed:
  assumes "rtcom_el_db_commit d = (False, e, d')" and "journal d \<noteq> JM_OFF"
  shows "durable d' = durable d \<and> tb d' \<in> {tb d, durable d} \<and> txn d' \<in> {txn d, None} \<and>
     journal d' = journal d"
  using assms exec_failed_journaled
  by (fastforce simp: rtcom_el_db_commit_def split: if_splits prod.splits)

lemma rollback_journaled:
  assumes "rtcom_el_db_rollback d = (ok, e, d')" and j: "journal d \<noteq> JM_OFF"
  shows "durable d' = durable d \<and> tb d' \<in> {tb d, durable d} \<and> txn d' \<in> {txn d, None} \<and>
     journal d' = journal d"
proof (cases "txn d")
  case None
  with assms show ?thesis by (simp add: rtcom_el_db_rollback_def)
next
  case (Some sv)
  with assms(1) obtain rows where ex: "rtcom_el_db_exec (ROLLBACK :: unit sql) d = (ok, rows, e, d')"
    by (auto simp: rtcom_el_db_rollback_def split: prod.splits)
  show ?thesis
  proof (cases ok)
    case True
    with ex Some undo_journaled [OF j] show ?thesis by (auto elim!: exec_ok)
  next
    case False
    with ex exec_failed_journaled [of "ROLLBACK :: unit sql" d rows e d'] j show ?thesis by simp
  qed
qed

lemma transaction_more: "rtcom_el_db_transaction excl d = (ok, e, d') \<Longrightarrow> db.more d' = db.more d"
  and commit_more: "rtcom_el_db_commit d = (ok, e, d') \<Longrightarrow> db.more d' = db.more d"
  and rollback_more: "rtcom_el_db_rollback d = (ok, e, d') \<Longrightarrow> db.more d' = db.more d"
  using exec_more
  by (fastforce simp: rtcom_el_db_transaction_def rtcom_el_db_commit_def rtcom_el_db_rollback_def
      split: if_splits prod.splits)+

section \<open>Work done in a transaction\<close>

text \<open>
  The pattern of every operation that makes several changes: open a transaction, run the
  body, roll back if it fails, commit, roll back if that fails. \<open>keeps_txn ok d d'\<close> is what
  the parts of such a body promise inside a transaction.
\<close>

definition keeps_txn :: "bool \<Rightarrow> 'a db_scheme \<Rightarrow> 'a db_scheme \<Rightarrow> bool" where
  "keeps_txn ok d d' \<longleftrightarrow>
     (\<forall>sv. journal d \<noteq> JM_OFF \<longrightarrow> txn d = Some sv \<longrightarrow>
        durable d' = sv \<and> journal d' = journal d \<and> (ok \<longrightarrow> txn d' = Some sv))"

lemma keeps_txn_refl: "keeps_txn ok d d"
  by (simp add: keeps_txn_def durable_def)

lemma keeps_txn_trans: "keeps_txn True d d1 \<Longrightarrow> keeps_txn ok d1 d2 \<Longrightarrow> keeps_txn ok d d2"
  by (simp add: keeps_txn_def)

lemma keeps_txn_exec: "rtcom_el_db_exec (Stmt f) d = (ok, rows, e, d') \<Longrightarrow> keeps_txn ok d d'"
  using exec_stmt_in_txn [of f d ok rows e d'] by (simp add: keeps_txn_def)

text \<open>
  A body that crashes or never returns is \<open>None\<close>; one that fails yields \<open>Some (None, \<dots>)\<close>.
  \<open>ready\<close> is what the body needs of the object around the connection.
\<close>

definition in_transaction ::
    "bool \<Rightarrow> ('a db_scheme \<Rightarrow> ('x option \<times> RTComElError option \<times> 'a db_scheme) option)
      \<Rightarrow> 'a db_scheme \<Rightarrow> ('x option \<times> RTComElError option \<times> 'a db_scheme) option" where
  "in_transaction excl body d =
     (case rtcom_el_db_transaction excl d of
        (False, e, d1) \<Rightarrow> Some (None, e, d1)
      | (True, _, d1) \<Rightarrow>
          (case body d1 of
             None \<Rightarrow> None
           | Some (None, e, d2) \<Rightarrow> Some (None, e, snd (snd (rtcom_el_db_rollback d2)))
           | Some (Some x, _, d2) \<Rightarrow>
               (case rtcom_el_db_commit d2 of
                  (False, e, d3) \<Rightarrow> Some (None, e, snd (snd (rtcom_el_db_rollback d3)))
                | (True, _, d3) \<Rightarrow> Some (Some x, None, d3))))"

locale transactional_body =
  fixes body :: "'a db_scheme \<Rightarrow> ('x option \<times> RTComElError option \<times> 'a db_scheme) option"
    and ready :: "'a db_scheme \<Rightarrow> bool"
  assumes body_keeps: "ready d \<Longrightarrow> body d = Some (r, e, d') \<Longrightarrow> keeps_txn (r \<noteq> None) d d'"
    and ready_more: "db.more d' = db.more d \<Longrightarrow> ready d \<Longrightarrow> ready d'"
begin

lemma failure_keeps_durable:
  assumes run: "in_transaction excl body d = Some (None, e, d')" and j: "journal d \<noteq> JM_OFF"
    and pre: "ready d"
  shows "durable d' = durable d \<and> journal d' = journal d \<and> txn d' \<in> {None, Some (durable d)}"
proof -
  obtain ok1 e1 d1 where t: "rtcom_el_db_transaction excl d = (ok1, e1, d1)" by (metis prod_cases3)
  show ?thesis
  proof (cases ok1)
    case False
    with run t transaction_failed [of excl d e1 d1] j show ?thesis
      by (auto simp: in_transaction_def durable_def split: option.splits)
  next
    case True
    note t1 = transaction_ok [OF t [unfolded True [THEN eqTrueI]]]
    from run t True obtain r2 e2 d2 where b: "body d1 = Some (r2, e2, d2)"
      by (cases "body d1") (auto simp: in_transaction_def)
    from t1 pre have "ready d1" using ready_more by blast
    from body_keeps [OF this b] t1 j
    have d2: "durable d2 = durable d" "journal d2 = journal d"
      by (auto simp: keeps_txn_def durable_def)
    show ?thesis
    proof (cases r2)
      case None
      obtain ok3 e3 d3 where r: "rtcom_el_db_rollback d2 = (ok3, e3, d3)" by (metis prod_cases3)
      from rollback_journaled [OF r] d2 j run t b True None r show ?thesis
        by (auto simp: in_transaction_def durable_def split: option.splits)
    next
      case (Some x)
      obtain ok3 e3 d3 where c: "rtcom_el_db_commit d2 = (ok3, e3, d3)" by (metis prod_cases3)
      with run t b True Some have "\<not> ok3" by (auto simp: in_transaction_def)
      with commit_failed [of d2 e3 d3] c d2 j
      have d3: "durable d3 = durable d" "journal d3 = journal d" by auto
      obtain ok4 e4 d4 where r: "rtcom_el_db_rollback d3 = (ok4, e4, d4)" by (metis prod_cases3)
      from rollback_journaled [OF r] d3 j run t b True Some c \<open>\<not> ok3\<close> r show ?thesis
        by (auto simp: in_transaction_def durable_def split: option.splits)
    qed
  qed
qed

lemma success_commits:
  assumes run: "in_transaction excl body d = Some (Some x, e, d')" and pre: "ready d"
  shows "\<exists>e2 d1 d2. txn d = None \<and> txn d1 = Some (tb d) \<and> tb d1 = tb d \<and>
     journal d1 = journal d \<and> db.more d1 = db.more d \<and> e = None \<and>
     body d1 = Some (Some x, e2, d2) \<and> tb d' = tb d2 \<and> txn d' = None \<and>
     journal d' = journal d2 \<and> db.more d' = db.more d2 \<and> (journal d \<noteq> JM_OFF \<longrightarrow> journal d' = journal d)"
proof -
  obtain ok1 e1 d1 where t: "rtcom_el_db_transaction excl d = (ok1, e1, d1)" by (metis prod_cases3)
  from run t have ok1: "ok1" by (auto simp: in_transaction_def split: bool.splits)
  with run t obtain r2 e2 d2 where b: "body d1 = Some (r2, e2, d2)"
    by (cases "body d1") (auto simp: in_transaction_def)
  obtain ok3 e3 d3 where c: "rtcom_el_db_commit d2 = (ok3, e3, d3)" by (metis prod_cases3)
  from run t b c ok1 have "r2 = Some x" "ok3" "d' = d3" "e = None"
    by (auto simp: in_transaction_def split: bool.splits option.splits)
  moreover have "ready d1"
    using transaction_ok [of excl d e1 d1] t ok1 pre ready_more by simp
  ultimately show ?thesis
    using transaction_ok [of excl d e1 d1] commit_ok [of d2 e3 d3] commit_more [of d2 ok3 e3 d3]
      t b c body_keeps [OF _ b] ok1 by (auto simp: keeps_txn_def)
qed

end

text \<open>With no refusal the bracket is the body, with its changes undone on failure.\<close>

lemma in_transaction_calm:
  assumes "script d = []" and "txn d = None"
    and body: "body (d\<lparr>txn := Some (tb d), errcode := None\<rparr>) = Some (r, e, d2)"
    and "script d2 = []" and "txn d2 \<noteq> None"
  shows "in_transaction excl body d =
     Some (case r of
        None \<Rightarrow> (None, e, (undo d2)\<lparr>errcode := None\<rparr>)
      | Some x \<Rightarrow> (Some x, None, d2\<lparr>txn := None, errcode := None\<rparr>))"
proof -
  have "rtcom_el_db_transaction excl d = (True, None, d\<lparr>txn := Some (tb d), errcode := None\<rparr>)"
    using assms(1,2) by (simp add: rtcom_el_db_transaction_def exec_calm)
  moreover have "script (undo d2) = []"
    using assms(4) by (simp add: undo_def split: option.splits)
  ultimately show ?thesis
    using assms(4,5) body
    by (auto simp: in_transaction_def rtcom_el_db_commit_def rtcom_el_db_rollback_def exec_calm
        split: option.splits)
qed

section \<open>The busy loop returns\<close>

text \<open>C27: The loop of \<open>rtcom_el_db_iterate\<close> returns if the timer advances, whatever infinite sequence of answers
  SQLite would give: when the timer shows at least \<open>k * dt\<close> seconds at each refusal, the k-th step's, for some positive \<open>dt\<close>,
  then the loop makes at most \<open>2 / dt + 2\<close> steps, and its result is that of the finite sequence of answers it used up.\<close>

theorem busy_loop_returns:
  assumes timer: "\<forall>k. case w k of Go \<Rightarrow> True | Refuse c t rb \<Rightarrow> real k * dt \<le> t" and "0 < dt"
  shows "\<exists>n. real n \<le> 2 / dt + 2 \<and>
     iterate_loop w 0 = Some (fst (rtcom_el_db_iterate (map w [0..<n])), n)"
proof -
  define m where "m = nat \<lfloor>2 / dt\<rfloor> + 1"
  have m: "2 / dt < real m" "real m \<le> 2 / dt + 1"
    using assms(2) by (simp_all add: m_def) linarith+
  have "stops (w (0 + m))"
  proof (cases "w m")
    case (Refuse c t rb)
    from timer have "real m * dt \<le> t" by (auto simp: Refuse dest: spec [of _ m])
    moreover have "2 < real m * dt" using m(1) assms(2) by (simp add: field_simps)
    ultimately show ?thesis by (simp add: stops_def Refuse max_busyloop_time_def)
  qed (simp add: stops_def)
  then have "\<exists>k. stops (w (0 + k))" by blast
  from stops_eventually [OF this] obtain j where
    j: "\<forall>k<j. \<not> stops (w (0 + k))" "stops (w (0 + j))" by blast
  with \<open>stops (w (0 + m))\<close> have "j \<le> m" using not_less by blast
  with m(2) iterate_loop_list [OF j] show ?thesis
    by (intro exI [of _ "Suc j"]) simp
qed

theorem busy_loop_returns_witness:
  "\<exists>n. real n \<le> 6 \<and> iterate_loop (\<lambda>k. Refuse SQLITE_BUSY (real k / 2) False) 0 =
     Some (fst (rtcom_el_db_iterate (map (\<lambda>k. Refuse SQLITE_BUSY (real k / 2) False) [0..<n])), n)"
  using busy_loop_returns [where w = "\<lambda>k. Refuse SQLITE_BUSY (real k / 2) False" and dt = "1 / 2"]
  by simp

section \<open>A statement that fails\<close>

text \<open>C26: When \<open>rtcom_el_db_exec\<close> returns FALSE it has set an error, and, with a journal, the durable
  tables are those of before the call, inside a transaction and outside.\<close>

theorem exec_failure_is_safe:
  assumes "rtcom_el_db_exec q d = (False, rows, e, d')" and "journal d \<noteq> JM_OFF"
  shows "e \<noteq> None \<and> durable d' = durable d \<and> journal d' = journal d"
  using exec_failed_journaled [OF assms] by simp

definition sample_db :: db where
  "sample_db = \<lparr>tb = empty_tables, txn = None, journal = JM_TRUNCATE,
     script = [Go, Refuse SQLITE_BUSY 1 False, Refuse SQLITE_FULL 2 False], last_rowid = 0, errcode = None,
     torn = (\<lambda>a b. b), jm_fixed = False\<rparr>"

theorem exec_failure_is_safe_witness:
  "\<exists>rows e d'. rtcom_el_db_exec (Stmt (delete_events_where (\<lambda>e. True)) :: unit sql) sample_db = (False, rows, e, d') \<and>
     e = Some RTCOM_EL_DATABASE_FULL \<and> durable d' = empty_tables"
proof -
  obtain rows e d' where run: "rtcom_el_db_exec (Stmt (delete_events_where (\<lambda>e. True)) :: unit sql) sample_db =
      (False, rows, e, d')" and e: "e = Some RTCOM_EL_DATABASE_FULL"
    by (simp add: rtcom_el_db_exec_def sample_db_def delete_events_where_def is_busy_def
        max_busyloop_time_def)
  have j: "journal sample_db \<noteq> JM_OFF" "durable sample_db = empty_tables"
    by (simp_all add: sample_db_def durable_def)
  from exec_failure_is_safe [OF run j(1)] run e j(2) show ?thesis by simp
qed

end
