(* ===== verification/El_Rows.thy ===== *)
theory El_Rows
  imports El_Schema
begin

text \<open>
  The rows a query of the library returns: the join of an event with its service, event
  type, remote contact and message token; the table \<open>fields\<close> (\<open>event_fields\<close>) of src/db.c, which relates the
  names of the interface to columns of that join and to types; and the hash table of values
  \<open>rtcom_el_db_schema_get_row\<close> makes of a row.
\<close>

section \<open>The joined rows a WHERE clause speaks about\<close>

record joined_row =
  jn_event :: event_row
  jn_service :: service_row
  jn_event_type :: eventtype_row
  jn_remote :: "remote_row option"
  jn_header :: "header_row option"

definition or_null :: "'a list \<Rightarrow> 'a option list" where
  "or_null xs = (if xs = [] then [None] else map Some xs)"

text \<open>
  Events JOIN Services JOIN EventTypes LEFT JOIN Remotes LEFT JOIN Headers, with the header
  named message-token.
\<close>

definition join_event :: "int \<Rightarrow> event_row \<Rightarrow> tables \<Rightarrow> joined_row list" where
  "join_event service_id e t =
     concat (map (\<lambda>s. concat (map (\<lambda>ty. concat (map (\<lambda>r. map (\<lambda>h.
          \<lparr>jn_event = e, jn_service = s, jn_event_type = ty, jn_remote = r, jn_header = h\<rparr>)
        (or_null (filter (\<lambda>h. hd_event_id h = e_id e \<and> hd_name h = ''message-token'') (Headers t))))
        (or_null (filter (remote_is (e_remote_uid e) (e_local_uid e)) (Remotes t)))))
        (filter (\<lambda>ty. et_id ty = e_event_type_id e) (EventTypes t))))
        (filter (\<lambda>s. sv_id s = service_id) (Services t)))"

definition joined :: "tables \<Rightarrow> joined_row list" where
  "joined t = concat (map (\<lambda>e. join_event (e_service_id e) e t) (Events t))"

text \<open>
  The join that starts from GroupCache: the cached event of each row, with the service of
  the cache row.
\<close>

definition joined_groups :: "tables \<Rightarrow> joined_row list" where
  "joined_groups t =
     concat (map (\<lambda>c. concat (map (\<lambda>e. join_event (gc_service_id c) e t)
        (filter (\<lambda>e. e_id e = gc_event_id c) (Events t)))) (GroupCache t))"

text \<open>
  What the text of a WHERE clause means is SQLite's business: \<open>holds w\<close> is the condition on
  a joined row, \<open>None\<close> if SQLite cannot compile the text.
\<close>

type_synonym where_meaning = "string \<Rightarrow> (joined_row \<Rightarrow> bool) option"

definition matching_ids :: "(joined_row \<Rightarrow> bool) \<Rightarrow> tables \<Rightarrow> int list" where
  "matching_ids P t = map (\<lambda>j. e_id (jn_event j)) (filter P (joined t))"

section \<open>Columns\<close>

text \<open>The values SQLite keeps in the columns of this schema.\<close>

datatype sqlval = NullVal | IntVal int | TextVal string

definition text_or_null :: "string option \<Rightarrow> sqlval" where
  "text_or_null v = (case v of None \<Rightarrow> NullVal | Some s \<Rightarrow> TextVal s)"

definition columns_of :: "(string \<times> (joined_row \<Rightarrow> sqlval)) list" where
  "columns_of =
     [(''Services.name'', \<lambda>j. TextVal (sv_name (jn_service j))),
      (''EventTypes.name'', \<lambda>j. TextVal (et_name (jn_event_type j))),
      (''Events.id'', \<lambda>j. IntVal (e_id (jn_event j))),
      (''Events.service_id'', \<lambda>j. IntVal (e_service_id (jn_event j))),
      (''Events.event_type_id'', \<lambda>j. IntVal (e_event_type_id (jn_event j))),
      (''Events.storage_time'', \<lambda>j. IntVal (e_storage_time (jn_event j))),
      (''Events.start_time'', \<lambda>j. IntVal (e_start_time (jn_event j))),
      (''Events.end_time'', \<lambda>j. IntVal (e_end_time (jn_event j))),
      (''Events.flags'', \<lambda>j. IntVal (e_flags (jn_event j))),
      (''Events.is_read'', \<lambda>j. IntVal (e_is_read (jn_event j))),
      (''Events.bytes_sent'', \<lambda>j. IntVal (e_bytes_sent (jn_event j))),
      (''Events.bytes_received'', \<lambda>j. IntVal (e_bytes_received (jn_event j))),
      (''Events.local_uid'', \<lambda>j. text_or_null (e_local_uid (jn_event j))),
      (''Events.local_name'', \<lambda>j. text_or_null (e_local_name (jn_event j))),
      (''Events.group_uid'', \<lambda>j. text_or_null (e_group_uid (jn_event j))),
      (''Remotes.abook_uid'', \<lambda>j. text_or_null (Option.bind (jn_remote j) rm_abook_uid)),
      (''Remotes.remote_uid'', \<lambda>j. text_or_null (map_option rm_remote_uid (jn_remote j))),
      (''Remotes.remote_name'', \<lambda>j. text_or_null (Option.bind (jn_remote j) rm_remote_name)),
      (''Headers.value'', \<lambda>j. text_or_null (map_option hd_value (jn_header j))),
      (''Events.channel'', \<lambda>j. text_or_null (e_channel (jn_event j))),
      (''Events.outgoing'', \<lambda>j. IntVal (e_outgoing (jn_event j))),
      (''Events.free_text'', \<lambda>j. text_or_null (e_free_text (jn_event j)))]"

definition column_value :: "string \<Rightarrow> joined_row \<Rightarrow> sqlval" where
  "column_value c j = (case map_of columns_of c of None \<Rightarrow> NullVal | Some f \<Rightarrow> f j)"

text \<open>
  UNIQUE_REMOTE: the expression names the contact by the address book's uid, or else by the
  two uids of the event. Concatenation with NULL is NULL.
\<close>

definition unique_remote :: "joined_row \<Rightarrow> sqlval" where
  "unique_remote j =
     (case Option.bind (jn_remote j) rm_abook_uid of
        Some a \<Rightarrow> TextVal (''ab:'' @ a)
      | None \<Rightarrow>
          (case (e_local_uid (jn_event j), e_remote_uid (jn_event j)) of
             (Some l, Some r) \<Rightarrow> TextVal (''lr:'' @ l @ '';'' @ r)
           | _ \<Rightarrow> NullVal))"

section \<open>The fields of an event\<close>

datatype gtype = G_TYPE_INT | G_TYPE_BOOLEAN | G_TYPE_STRING

definition event_fields :: "(string \<times> gtype \<times> string) list" where
  "event_fields =
     [(''service'', G_TYPE_STRING, ''Services.name''),
      (''event-type'', G_TYPE_STRING, ''EventTypes.name''),
      (''id'', G_TYPE_INT, ''Events.id''),
      (''service-id'', G_TYPE_INT, ''Events.service_id''),
      (''event-type-id'', G_TYPE_INT, ''Events.event_type_id''),
      (''storage-time'', G_TYPE_INT, ''Events.storage_time''),
      (''start-time'', G_TYPE_INT, ''Events.start_time''),
      (''end-time'', G_TYPE_INT, ''Events.end_time''),
      (''flags'', G_TYPE_INT, ''Events.flags''),
      (''is-read'', G_TYPE_BOOLEAN, ''Events.is_read''),
      (''bytes-sent'', G_TYPE_INT, ''Events.bytes_sent''),
      (''bytes-received'', G_TYPE_INT, ''Events.bytes_received''),
      (''local-uid'', G_TYPE_STRING, ''Events.local_uid''),
      (''local-name'', G_TYPE_STRING, ''Events.local_name''),
      (''group-uid'', G_TYPE_STRING, ''Events.group_uid''),
      (''remote-ebook-uid'', G_TYPE_STRING, ''Remotes.abook_uid''),
      (''remote-uid'', G_TYPE_STRING, ''Remotes.remote_uid''),
      (''remote-name'', G_TYPE_STRING, ''Remotes.remote_name''),
      (''message-token'', G_TYPE_STRING, ''Headers.value''),
      (''channel'', G_TYPE_STRING, ''Events.channel''),
      (''outgoing'', G_TYPE_BOOLEAN, ''Events.outgoing''),
      (''free-text'', G_TYPE_STRING, ''Events.free_text'')]"

text \<open>
  \<open>rtcom_el_db_schema_get_mappings\<close>: the two hash tables, and the list of columns a query
  selects, in the order of the fields, then UNIQUE_REMOTE.
\<close>

fun join_with :: "string \<Rightarrow> string list \<Rightarrow> string" where
  "join_with sep [] = []"
| "join_with sep [x] = x"
| "join_with sep (x # y # xs) = x @ sep @ join_with sep (y # xs)"

definition field_column :: "string \<rightharpoonup> string" where
  "field_column = map_of (map (\<lambda>(n, ty, c). (n, c)) event_fields)"

definition field_type :: "string \<rightharpoonup> gtype" where
  "field_type = map_of (map (\<lambda>(n, ty, c). (n, ty)) event_fields)"

definition unique_remote_sql :: string where
  "unique_remote_sql =
     '' CASE abook_uid IS NOT NULL WHEN 1 THEN ('' @ [CHR 0x27] @ ''ab:'' @ [CHR 0x27] @
     '' || abook_uid) ELSE ('' @ [CHR 0x27] @ ''lr:'' @ [CHR 0x27] @
     '' || Events.local_uid || '' @ [CHR 0x27] @ '';'' @ [CHR 0x27] @
     '' || Events.remote_uid) END AS unique_remote ''"

definition selection :: string where
  "selection = join_with '', '' (map (\<lambda>(n, ty, c). c) event_fields @ [unique_remote_sql])"

section \<open>The values of a row\<close>

type_synonym row = "sqlval list"

definition select_row :: "joined_row \<Rightarrow> row" where
  "select_row j = map (\<lambda>(n, ty, c). column_value c j) event_fields @ [unique_remote j]"

text \<open>
  \<open>sqlite3_column_int\<close> and \<open>sqlite3_column_text\<close>: NULL reads as 0 and as the NULL pointer; an
  integer asked for as text is printed. Text asked for as an integer would be its leading
  digits, but no field of type integer has a column of text.
\<close>

definition column_int :: "sqlval \<Rightarrow> int" where
  "column_int v = (case v of IntVal i \<Rightarrow> to_gint i | _ \<Rightarrow> 0)"

definition column_string :: "sqlval \<Rightarrow> string option" where
  "column_string v =
     (case v of NullVal \<Rightarrow> None | IntVal i \<Rightarrow> Some (show_int i) | TextVal s \<Rightarrow> Some s)"

datatype gvalue = GInt int | GBool bool | GStr "string option"

fun gvalue_of :: "gtype \<Rightarrow> sqlval \<Rightarrow> gvalue" where
  "gvalue_of G_TYPE_INT v = GInt (column_int v)"
| "gvalue_of G_TYPE_BOOLEAN v = GBool (0 \<noteq> column_int v)"
| "gvalue_of G_TYPE_STRING v = GStr (column_string v)"

text \<open>
  \<open>rtcom_el_db_schema_update_row\<close> overwrites every field of the hash table with the value of
  the column of the same index; \<open>rtcom_el_db_schema_get_row\<close> does so on a table whose values
  are not initialised yet. These are the values only; \<open>update_row_cells\<close> and \<open>get_row_cells\<close> below
  have the \<open>GValue\<close>s, and \<open>update_row_cells_values\<close> relates the two.
\<close>

definition rtcom_el_db_schema_update_row ::
    "row \<Rightarrow> (string \<rightharpoonup> gvalue) \<Rightarrow> (string \<rightharpoonup> gvalue)" where
  "rtcom_el_db_schema_update_row stmt row =
     fold (\<lambda>(v, n, ty, c) m. m(n \<mapsto> gvalue_of ty v)) (zip stmt event_fields) row"

definition rtcom_el_db_schema_get_row :: "row \<Rightarrow> (string \<rightharpoonup> gvalue)" where
  "rtcom_el_db_schema_get_row stmt = rtcom_el_db_schema_update_row stmt Map.empty"

section \<open>Lemmas\<close>

definition field_values :: "joined_row \<Rightarrow> string \<rightharpoonup> gvalue" where
  "field_values j = map_of (map (\<lambda>(n, ty, c). (n, gvalue_of ty (column_value c j))) event_fields)"

lemma fold_map_upd: "fold (\<lambda>(k, v) m. m(k \<mapsto> v)) xs m = m ++ map_of (rev xs)"
  by (induction xs arbitrary: m) (auto simp: map_add_def fun_eq_iff split: option.splits)

lemma distinct_event_fields: "distinct (map fst event_fields)"
  by (simp add: event_fields_def)

lemma map_of_rev: "distinct (map fst xs) \<Longrightarrow> map_of (rev xs) = map_of xs"
  by (simp add: map_of_inject_set rev_map [symmetric])

lemma update_row_values:
  "rtcom_el_db_schema_update_row (select_row j) row = row ++ field_values j"
proof -
  let ?vals = "map (\<lambda>(n, ty, c). (n, gvalue_of ty (column_value c j))) event_fields"
  have "fold (\<lambda>(v, n, ty, c) m. m(n \<mapsto> gvalue_of ty v))
      (zip (map (\<lambda>(n, ty, c). column_value c j) fs @ [u]) fs) row =
      fold (\<lambda>(k, v) m. m(k \<mapsto> v)) (map (\<lambda>(n, ty, c). (n, gvalue_of ty (column_value c j))) fs) row"
    for fs :: "(string \<times> gtype \<times> string) list" and u
    by (induction fs arbitrary: row) auto
  then have "rtcom_el_db_schema_update_row (select_row j) row = row ++ map_of (rev ?vals)"
    by (simp add: rtcom_el_db_schema_update_row_def select_row_def fold_map_upd)
  also have "map_of (rev ?vals) = map_of ?vals"
    by (rule map_of_rev) (simp add: event_fields_def)
  finally show ?thesis by (simp add: field_values_def)
qed

text \<open>A fresh hash table and one that held another row come out the same.\<close>

lemma get_row_values: "rtcom_el_db_schema_get_row (select_row j) = field_values j"
  by (simp add: rtcom_el_db_schema_get_row_def update_row_values)

lemma dom_field_values: "dom (field_values j) = fst ` set event_fields"
  by (simp add: field_values_def dom_map_of_conv_image_fst image_image case_prod_unfold)

lemma update_row_again: "rtcom_el_db_schema_update_row (select_row j) (field_values i) = field_values j"
proof -
  have "(field_values i ++ field_values j) x = field_values j x" for x
  proof (cases "field_values j x")
    case None
    then have "x \<notin> dom (field_values i)" unfolding dom_field_values using dom_field_values [of j] by blast
    then have "field_values i x = None" by blast
    with None show ?thesis by (simp add: map_add_def)
  qed simp
  then show ?thesis by (simp add: update_row_values fun_eq_iff)
qed

lemma field_value:
  assumes "(n, ty, c) \<in> set event_fields"
  shows "field_values j n = Some (gvalue_of ty (column_value c j))"
  unfolding field_values_def
proof (rule map_of_is_SomeI)
  show "distinct (map fst (map (\<lambda>(n, ty, c). (n, gvalue_of ty (column_value c j))) event_fields))"
    using distinct_event_fields by (simp add: comp_def case_prod_unfold)
  show "(n, gvalue_of ty (column_value c j)) \<in>
      set (map (\<lambda>(n, ty, c). (n, gvalue_of ty (column_value c j))) event_fields)"
    using imageI [OF assms, of "\<lambda>(n, ty, c). (n, gvalue_of ty (column_value c j))"] by simp
qed

section \<open>The types of the values\<close>

fun gvalue_type :: "gvalue \<Rightarrow> gtype" where
  "gvalue_type (GInt i) = G_TYPE_INT"
| "gvalue_type (GBool b) = G_TYPE_BOOLEAN"
| "gvalue_type (GStr s) = G_TYPE_STRING"

lemma gvalue_type_of [simp]: "gvalue_type (gvalue_of ty v) = ty"
  by (cases ty) simp_all

lemma update_row_alist:
  "rtcom_el_db_schema_update_row r row =
     row ++ map_of (rev (map (\<lambda>(v, n, ty, c). (n, gvalue_of ty v)) (zip r event_fields)))"
proof -
  have "fold (\<lambda>(v, n, ty, c) m. m(n \<mapsto> gvalue_of ty v)) xs row =
      fold (\<lambda>(k, v) m. m(k \<mapsto> v)) (map (\<lambda>(v, n, ty, c). (n, gvalue_of ty v)) xs) row" for xs
    by (induction xs arbitrary: row) auto
  then show ?thesis by (simp add: rtcom_el_db_schema_update_row_def fold_map_upd)
qed

section \<open>The values cell by cell\<close>

text \<open>
  The table of \<open>rtcom_el_db_schema_get_row\<close> as the code keeps it: a zeroed \<open>GValue\<close>
  (\<open>G_TYPE_INVALID\<close>) for each field, which an update unsets, initialises with the type of the field
  and sets. \<open>None\<close> is a violated precondition: \<open>g_value_init\<close> needs an invalid value,
  \<open>g_value_set_int\<close> one of type integer, and the lookup of a field has to succeed.
\<close>

type_synonym gcell = "gvalue option"

fun g_value_init :: "gcell \<Rightarrow> gtype \<Rightarrow> gcell option" where
  "g_value_init (Some v) ty = None"
| "g_value_init None G_TYPE_INT = Some (Some (GInt 0))"
| "g_value_init None G_TYPE_BOOLEAN = Some (Some (GBool False))"
| "g_value_init None G_TYPE_STRING = Some (Some (GStr None))"

definition g_value_unset :: "gcell \<Rightarrow> gcell" where
  "g_value_unset val = None"

definition g_value_set :: "gvalue \<Rightarrow> gcell \<Rightarrow> gcell option" where
  "g_value_set v val =
     (case val of None \<Rightarrow> None | Some u \<Rightarrow> if gvalue_type u = gvalue_type v then Some (Some v) else None)"

definition update_cell :: "gtype \<Rightarrow> sqlval \<Rightarrow> gcell \<Rightarrow> gcell option" where
  "update_cell ty v val =
     Option.bind (g_value_init (if val \<noteq> None then g_value_unset val else val) ty)
       (case ty of
          G_TYPE_INT \<Rightarrow> g_value_set (GInt (column_int v))
        | G_TYPE_BOOLEAN \<Rightarrow> g_value_set (GBool (0 \<noteq> column_int v))
        | G_TYPE_STRING \<Rightarrow> g_value_set (GStr (column_string v)))"

fun update_cells :: "(string \<times> gtype \<times> string) list \<Rightarrow> row \<Rightarrow> (string \<rightharpoonup> gcell) \<Rightarrow> (string \<rightharpoonup> gcell) option"
where
  "update_cells ((n, ty, c) # cols) (v # vs) cells =
     Option.bind (cells n) (\<lambda>val. Option.bind (update_cell ty v val)
       (\<lambda>val'. update_cells cols vs (cells(n \<mapsto> val'))))"
| "update_cells _ _ cells = Some cells"

definition update_row_cells :: "row \<Rightarrow> (string \<rightharpoonup> gcell) \<Rightarrow> (string \<rightharpoonup> gcell) option" where
  "update_row_cells stmt cells = update_cells event_fields stmt cells"

definition get_row_cells :: "row \<Rightarrow> (string \<rightharpoonup> gcell) option" where
  "get_row_cells stmt =
     update_row_cells stmt (fold (\<lambda>(n, ty, c) cells. cells(n \<mapsto> None)) event_fields Map.empty)"

lemma update_cell_value: "update_cell ty v val = Some (Some (gvalue_of ty v))"
  by (cases ty) (auto simp: update_cell_def g_value_unset_def g_value_set_def)

lemma update_cells_values:
  assumes "fst ` set cols \<subseteq> dom cells"
  shows "update_cells cols vs cells =
     Some (fold (\<lambda>(v, n, ty, c) m. m(n \<mapsto> Some (gvalue_of ty v))) (zip vs cols) cells)"
  using assms
proof (induction cols vs cells rule: update_cells.induct)
  case (1 n ty c cols v vs cells)
  then obtain val where val: "cells n = Some val" by auto
  have "fst ` set cols \<subseteq> dom (cells(n \<mapsto> Some (gvalue_of ty v)))" using "1.prems" by auto
  note IH = "1.IH" [OF val update_cell_value this]
  from val show ?case by (simp add: update_cell_value IH del: fun_upd_apply)
qed simp_all

lemma fold_some_values:
  "fold (\<lambda>(v, n, ty, c) m. m(n \<mapsto> Some (gvalue_of ty v))) xs (cells ++ (map_option Some \<circ> m)) =
     cells ++ (map_option Some \<circ> fold (\<lambda>(v, n, ty, c) m. m(n \<mapsto> gvalue_of ty v)) xs m)"
proof (induction xs arbitrary: m)
  case (Cons x xs)
  obtain v n ty c where x: "x = (v, n, ty, c)" by (cases x)
  have upd: "(cells ++ (map_option Some \<circ> m))(n \<mapsto> Some (gvalue_of ty v)) =
      cells ++ (map_option Some \<circ> m(n \<mapsto> gvalue_of ty v))"
    by (auto simp: fun_eq_iff map_add_def split: option.splits)
  show ?case by (simp only: x fold_simps prod.case upd Cons)
qed simp

text \<open>The updates on values that the iterators use are those on cells.\<close>

lemma update_row_cells_values:
  assumes "fst ` set event_fields \<subseteq> dom cells"
  shows "update_row_cells r cells =
     Some (cells ++ (map_option Some \<circ> rtcom_el_db_schema_get_row r))"
proof -
  have none: "map_option Some \<circ> Map.empty = (Map.empty :: string \<rightharpoonup> gcell)" by (simp add: fun_eq_iff)
  from fold_some_values [of "zip r event_fields" cells Map.empty] show ?thesis
    by (simp add: update_row_cells_def update_cells_values [OF assms] rtcom_el_db_schema_get_row_def
        rtcom_el_db_schema_update_row_def none)
qed

lemma get_row_cells_values:
  "get_row_cells (select_row j) = Some (map_option Some \<circ> rtcom_el_db_schema_get_row (select_row j))"
proof -
  let ?empty = "fold (\<lambda>(n, ty, c) cells. cells(n \<mapsto> None)) event_fields (Map.empty :: string \<rightharpoonup> gcell)"
  have dom: "dom (fold (\<lambda>(n, ty, c) cells. cells(n \<mapsto> None)) fs m) = fst ` set fs \<union> dom m"
    for fs :: "(string \<times> gtype \<times> string) list" and m :: "string \<rightharpoonup> gcell"
    by (induction fs arbitrary: m) auto
  from dom [of event_fields Map.empty] have d: "dom ?empty = fst ` set event_fields" by simp
  have "?empty ++ (map_option Some \<circ> field_values j) = map_option Some \<circ> field_values j"
  proof
    fix n
    show "(?empty ++ (map_option Some \<circ> field_values j)) n = (map_option Some \<circ> field_values j) n"
    proof (cases "field_values j n")
      case None
      then have "n \<notin> dom ?empty" using d dom_field_values [of j] by (metis domIff)
      with None show ?thesis by (auto simp: map_add_def)
    qed (simp add: map_add_def)
  qed
  with update_row_cells_values [of ?empty "select_row j"] d show ?thesis
    by (simp add: get_row_cells_def get_row_values)
qed

text \<open>
  The interface of the library, field by field: what each name stands for. The read state and the
  direction are booleans, the numbers go through a C int.
\<close>

definition field_meanings :: "joined_row \<Rightarrow> (string \<times> gvalue) list" where
  "field_meanings j =
     (let e = jn_event j in
      [(''service'', GStr (Some (sv_name (jn_service j)))),
       (''event-type'', GStr (Some (et_name (jn_event_type j)))),
       (''id'', GInt (to_gint (e_id e))),
       (''service-id'', GInt (to_gint (e_service_id e))),
       (''event-type-id'', GInt (to_gint (e_event_type_id e))),
       (''storage-time'', GInt (to_gint (e_storage_time e))),
       (''start-time'', GInt (to_gint (e_start_time e))),
       (''end-time'', GInt (to_gint (e_end_time e))),
       (''flags'', GInt (to_gint (e_flags e))),
       (''is-read'', GBool (to_gint (e_is_read e) \<noteq> 0)),
       (''bytes-sent'', GInt (to_gint (e_bytes_sent e))),
       (''bytes-received'', GInt (to_gint (e_bytes_received e))),
       (''local-uid'', GStr (e_local_uid e)),
       (''local-name'', GStr (e_local_name e)),
       (''group-uid'', GStr (e_group_uid e)),
       (''remote-ebook-uid'', GStr (Option.bind (jn_remote j) rm_abook_uid)),
       (''remote-uid'', GStr (map_option rm_remote_uid (jn_remote j))),
       (''remote-name'', GStr (Option.bind (jn_remote j) rm_remote_name)),
       (''message-token'', GStr (map_option hd_value (jn_header j))),
       (''channel'', GStr (e_channel e)),
       (''outgoing'', GBool (to_gint (e_outgoing e) \<noteq> 0)),
       (''free-text'', GStr (e_free_text e))])"

lemma columns_in_order: "map (\<lambda>(n, ty, c). column_value c j) event_fields = map (\<lambda>(c, f). f j) columns_of"
proof -
  have order: "map (\<lambda>(n, ty, c). c) event_fields = map fst columns_of"
    by (simp add: event_fields_def columns_of_def)
  have dist: "distinct (map fst columns_of)" by (simp add: columns_of_def)
  have own: "column_value c j = f j" if "(c, f) \<in> set columns_of" for c f
    using map_of_is_SomeI [OF dist that] by (simp add: column_value_def)
  have "map (\<lambda>(n, ty, c). column_value c j) event_fields =
      map (\<lambda>c. column_value c j) (map (\<lambda>(n, ty, c). c) event_fields)" by auto
  also have "\<dots> = map (\<lambda>(c, f). column_value c j) columns_of" by (auto simp: order)
  also have "\<dots> = map (\<lambda>(c, f). f j) columns_of" using own by (intro map_cong) auto
  finally show ?thesis .
qed

lemma field_values_meaning: "field_values j = map_of (field_meanings j)"
proof -
  have str: "column_string (text_or_null v) = v" for v
    by (cases v) (simp_all add: text_or_null_def column_string_def)
  have pair: "map (\<lambda>(n, ty, c). (n, gvalue_of ty (column_value c j))) fs =
      map2 (\<lambda>(n, ty, c) v. (n, gvalue_of ty v)) fs (map (\<lambda>(n, ty, c). column_value c j) fs)"
    for fs :: "(string \<times> gtype \<times> string) list"
    by (induction fs) auto
  have "map2 (\<lambda>(n, ty, c) v. (n, gvalue_of ty v)) event_fields (map (\<lambda>(c, f). f j) columns_of) =
      field_meanings j"
    by (simp add: event_fields_def columns_of_def field_meanings_def Let_def str column_int_def)
      (simp add: column_string_def)
  then show ?thesis by (simp only: field_values_def pair columns_in_order)
qed

text \<open>C36: \<open>rtcom_el_db_schema_update_row\<close>, on any table that has a value for each field, whatever
  the value was (invalid, or left by another row, of any type), violates no precondition of the
  \<open>g_value\<close> functions and leaves in each field exactly what its name stands for in the joined row:
  the column of the right table, with the right type; other keys of the table stay.\<close>

theorem update_row_exact:
  assumes "fst ` set event_fields \<subseteq> dom cells"
  shows "update_row_cells (select_row j) cells =
     Some (cells ++ (map_option Some \<circ> map_of (field_meanings j)))"
  by (simp add: update_row_cells_values [OF assms] get_row_values field_values_meaning)

definition sample_joined :: joined_row where
  "sample_joined =
     \<lparr>jn_event = \<lparr>e_id = 7, e_service_id = 1, e_event_type_id = 2, e_storage_time = 40, e_start_time = 30,
        e_end_time = 35, e_is_read = 1, e_outgoing = 0, e_flags = 0, e_bytes_sent = 5, e_bytes_received = 6,
        e_local_uid = Some ''me'', e_local_name = None, e_remote_uid = Some ''you'', e_channel = None,
        e_free_text = Some ''hello'', e_group_uid = Some ''g''\<rparr>,
      jn_service = \<lparr>sv_id = 1, sv_name = ''sms'', sv_plugin_id = 1, sv_desc = None\<rparr>,
      jn_event_type = \<lparr>et_id = 2, et_name = ''text'', et_plugin_id = 1, et_desc = None\<rparr>,
      jn_remote = None, jn_header = None\<rparr>"

theorem update_row_exact_witness:
  "\<exists>cells'. update_row_cells (select_row sample_joined) (\<lambda>n. Some (Some (GInt 3))) = Some cells' \<and>
     cells' ''free-text'' = Some (Some (GStr (Some ''hello''))) \<and>
     cells' ''is-read'' = Some (Some (GBool True))"
  using update_row_exact [where cells = "\<lambda>n. Some (Some (GInt 3))" and j = sample_joined]
  by (simp add: sample_joined_def field_meanings_def Let_def map_add_def dom_def to_gint_def)

end
