(* ===== verification/El_Logger.thy ===== *)
theory El_Logger
  imports El_Db El_Event El_Rows
begin

text \<open>
  The event logger object of src/eventlogger.c: its private structure, the lookup of ids
  in the cached tables, and \<open>_emit_dbus\<close>, which tells every process on the session bus what
  happened. The state extends the connection \<open>db\<close>, so that the database layer works on it.
\<close>

section \<open>What plugins provide\<close>

record RTComElService =
  svc_name :: string
  svc_desc :: "string option"

record RTComElEventType =
  evt_name :: string
  evt_desc :: "string option"

record RTComElFlag =
  flg_name :: string
  flg_value :: int
  flg_desc :: "string option"

text \<open>
  A plugin's functions by what they return; \<open>pg_init\<close> is what the optional init routine of
  the plugin does to the database. \<open>pg_flags\<close> and \<open>pg_init\<close> are \<open>None\<close> where the symbol is
  absent; the name, description and service may be NULL. \<open>pg_get_value\<close> is given the raw fields
  of the current event, its headers and the name of the value it is asked for.
\<close>

type_synonym get_value_func = "(string \<rightharpoonup> gvalue) \<Rightarrow> (string \<rightharpoonup> string) \<Rightarrow> string \<Rightarrow> gvalue option"

record RTComElPlugin =
  pg_id :: int
  pg_init :: "(tables \<Rightarrow> tables) option"
  pg_name :: "string option"
  pg_desc :: "string option"
  pg_service :: "RTComElService option"
  pg_event_types :: "RTComElEventType list"
  pg_flags :: "RTComElFlag list option"
  pg_get_value :: "get_value_func option"

text \<open>
  A file of a plugin directory: whether it is a regular file, and the module it opens as
  (\<open>None\<close>: \<open>g_module_open\<close> fails), each mandatory symbol being \<open>None\<close> where it is missing.
\<close>

record plugin_module =
  sym_name :: "string option option"
  sym_desc :: "string option option"
  sym_service :: "RTComElService option option"
  sym_eventtypes :: "RTComElEventType list option"
  sym_init :: "(tables \<Rightarrow> tables) option"
  sym_flags :: "RTComElFlag list option"
  sym_get_value :: "get_value_func option"

record plugin_file =
  pf_name :: string
  pf_regular :: bool
  pf_module :: "plugin_module option"

section \<open>The object\<close>

text \<open>
  One attempt to open the database, as \<open>_ensure_db\<close> sees it: whether the configuration
  directory is there or could be made, what \<open>rtcom_el_db_convert_from_db0\<close> returned, and
  the tables of the connection \<open>rtcom_el_db_open\<close> returned, with those to return to if it left a
  transaction open.
\<close>

record open_attempt =
  op_dir :: bool
  op_converted :: bool
  op_opened :: "(tables \<times> tables option) option"

record dbus_message =
  dm_member :: string
  dm_event_id :: int
  dm_local_uid :: string
  dm_remote_uid :: string
  dm_remote_ebook_uid :: string
  dm_group_uid :: string
  dm_service :: string

text \<open>The signals of the GObject, as the callbacks of the clients see them.\<close>

datatype el_signal =
    NEW_EVENT int string string string string string
  | EVENT_UPDATED int string string string string string
  | EVENT_DELETED int string string string string string
  | ALL_DELETED string
  | REFRESH_HINT

text \<open>What a path of the file system names.\<close>

datatype fs_node = Dir | File string

text \<open>
  \<open>is_open\<close> is \<open>priv->db != NULL\<close>. \<open>now\<close> is \<open>time(NULL)\<close>, \<open>bus_up\<close> whether the session bus can
  be reached, \<open>sent\<close> the messages put on it and \<open>emitted\<close> the signals emitted, oldest
  first; \<open>attempts\<close> what the next attempts to open the database meet (none left: they
  fail). A hash table is \<open>None\<close> when its pointer is NULL. \<open>home\<close> is \<open>el_get_home_dir\<close>, \<open>fs\<close> the
  files, \<open>io\<close> the answers of the C library to the calls to come (\<open>Some k\<close>: the call fails,
  after \<open>k\<close> bytes for a read or a write; \<open>None\<close> or no answer left: it works), \<open>basename\<close> is
  \<open>g_path_get_basename\<close>. \<open>scan_order\<close> is the order in which SQLite returns the rows of a SELECT
  DISTINCT; \<open>freed_readable\<close> tells whether the nodes of a list can still be read, and freed
  once more, after \<open>g_slist_free\<close> freed them (which is undefined).
\<close>

record el = db +
  is_open :: bool
  plugins :: "int \<rightharpoonup> RTComElPlugin"
  services :: "(string \<rightharpoonup> int) option"
  event_types :: "(string \<rightharpoonup> int) option"
  flags :: "(string \<rightharpoonup> int) option"
  last_group_uid :: "string option"
  now :: int
  bus_up :: bool
  sent :: "dbus_message list"
  emitted :: "el_signal list"
  attempts :: "open_attempt list"
  env_plugins :: "plugin_file list option"
  system_plugins :: "plugin_file list option"
  user_plugins :: "plugin_file list option"
  env_path_exists :: bool
  home :: string
  fs :: "string \<rightharpoonup> fs_node"
  io :: "nat option list"
  basename :: "string \<Rightarrow> string"
  scan_order :: "string option list \<Rightarrow> string option list"
  freed_readable :: bool

text \<open>What the database layer leaves alone.\<close>

lemma el_more_eq:
  fixes d d' :: el
  assumes "db.more d' = db.more d"
  shows "is_open d' = is_open d" and "plugins d' = plugins d" and "services d' = services d"
    and "event_types d' = event_types d" and "flags d' = flags d"
    and "last_group_uid d' = last_group_uid d" and "now d' = now d" and "bus_up d' = bus_up d"
    and "sent d' = sent d" and "emitted d' = emitted d" and "attempts d' = attempts d"
  using assms by (cases d; cases d'; simp)+

lemmas exec_el = el_more_eq [OF exec_more]
lemmas transaction_el = el_more_eq [OF transaction_more]

section \<open>Looking up ids\<close>

text \<open>
  \<open>g_hash_table_lookup\<close> on a NULL table yields NULL; a NULL key is dereferenced by
  \<open>g_str_hash\<close>, which is the crash \<open>None\<close>. An id 0 cannot be told from an absent key.
\<close>

definition lookup_id :: "(string \<rightharpoonup> int) option \<Rightarrow> string option \<Rightarrow> int option" where
  "lookup_id table key =
     (case table of
        None \<Rightarrow> Some (- 1)
      | Some m \<Rightarrow>
          (case key of
             None \<Rightarrow> None
           | Some k \<Rightarrow> Some (case m k of None \<Rightarrow> - 1 | Some i \<Rightarrow> if i = 0 then - 1 else i)))"

definition rtcom_el_get_service_id :: "string option \<Rightarrow> el \<Rightarrow> int option" where
  "rtcom_el_get_service_id service el = lookup_id (services el) service"

definition rtcom_el_get_eventtype_id :: "string option \<Rightarrow> el \<Rightarrow> int option" where
  "rtcom_el_get_eventtype_id eventtype el = lookup_id (event_types el) eventtype"

definition rtcom_el_get_flag_id :: "string option \<Rightarrow> el \<Rightarrow> int option" where
  "rtcom_el_get_flag_id flag el = lookup_id (flags el) flag"

definition build_db_representation :: "el \<Rightarrow> el" where
  "build_db_representation el =
     (case rtcom_el_db_cache_lookup_table
             (\<lambda>t. map (\<lambda>r. (sv_id r, sv_name r)) (Services t)) el of
        (s, el1) \<Rightarrow>
     (case rtcom_el_db_cache_lookup_table
             (\<lambda>t. map (\<lambda>r. (et_id r, et_name r)) (EventTypes t)) el1 of
        (ty, el2) \<Rightarrow>
     (case rtcom_el_db_cache_lookup_table
             (\<lambda>t. map (\<lambda>r. (fl_id r, fl_name r)) (Flags t)) el2 of
        (fl, el3) \<Rightarrow> el3\<lparr>services := s, event_types := ty, flags := fl\<rparr>)))"

section \<open>Telling the other processes\<close>

text \<open>
  The query of \<open>_get_events_dbus_data\<close>: Events left-joined with Remotes. It is prepared and
  stepped once, without the busy loop; an error leaves the four strings NULL.
\<close>

definition dbus_data_rows ::
    "int \<Rightarrow> tables \<Rightarrow> (string option \<times> string option \<times> string option \<times> string option) list" where
  "dbus_data_rows i t =
     concat (map (\<lambda>e.
       (case filter (remote_is (e_remote_uid e) (e_local_uid e)) (Remotes t) of
          [] \<Rightarrow> [(None, e_remote_uid e, None, e_group_uid e)]
        | rs \<Rightarrow> map (\<lambda>r. (Some (rm_local_uid r), e_remote_uid e, rm_abook_uid r, e_group_uid e)) rs))
       (filter (\<lambda>e. e_id e = i) (Events t)))"

definition get_events_dbus_data ::
    "int \<Rightarrow> el \<Rightarrow> (string option \<times> string option \<times> string option \<times> string option) \<times> el" where
  "get_events_dbus_data i el =
     (case script el of
        Refuse c t rb # as \<Rightarrow> ((None, None, None, None), el\<lparr>script := as, errcode := Some c\<rparr>)
      | _ \<Rightarrow>
          (case tl (script el) of
             Refuse c t rb # as \<Rightarrow>
               ((None, None, None, None), (refused c rb el (tb el))\<lparr>script := as\<rparr>)
           | _ \<Rightarrow>
               ((case dbus_data_rows i (tb el) of [] \<Rightarrow> (None, None, None, None) | row # _ \<Rightarrow> row),
                el\<lparr>script := tl (tl (script el)), errcode := None\<rparr>)))"

definition or_empty :: "string option \<Rightarrow> string" where
  "or_empty s = (case s of None \<Rightarrow> '''' | Some x \<Rightarrow> x)"

definition emit_dbus :: "string \<Rightarrow> int \<Rightarrow> string option \<Rightarrow> el \<Rightarrow> el" where
  "emit_dbus sig i service el =
     (case (if 0 < i \<and> sig \<noteq> ''EventDeleted'' then get_events_dbus_data i el
            else ((None, None, None, None), el)) of
        ((local_uid, remote_uid, remote_ebook_uid, group_uid), el1) \<Rightarrow>
          if \<not> bus_up el1 then el1
          else el1\<lparr>sent := sent el1 @
                 [\<lparr>dm_member = sig, dm_event_id = i, dm_local_uid = or_empty local_uid,
                   dm_remote_uid = or_empty remote_uid,
                   dm_remote_ebook_uid = or_empty remote_ebook_uid,
                   dm_group_uid = or_empty group_uid, dm_service = or_empty service\<rparr>]\<rparr>)"

section \<open>Lemmas\<close>

text \<open>
  Reading never changes the durable tables; outside a transaction it changes no table.
  \<open>quiet el el'\<close>: what a step that only reads, or talks to the bus, leaves alone.
\<close>

definition quiet :: "el \<Rightarrow> el \<Rightarrow> bool" where
  "quiet el el' \<longleftrightarrow>
     is_open el' = is_open el \<and> plugins el' = plugins el \<and> services el' = services el \<and>
     event_types el' = event_types el \<and> flags el' = flags el \<and>
     last_group_uid el' = last_group_uid el \<and> now el' = now el \<and> bus_up el' = bus_up el \<and>
     emitted el' = emitted el \<and> attempts el' = attempts el \<and>
     (journal el \<noteq> JM_OFF \<longrightarrow>
        durable el' = durable el \<and> journal el' = journal el \<and> txn el' \<in> {txn el, None} \<and>
        tb el' \<in> {tb el, durable el})"

lemma quiet_refl [simp]: "quiet el el"
  by (simp add: quiet_def)

lemma quiet_trans: "quiet a b \<Longrightarrow> quiet b c \<Longrightarrow> quiet a c"
  unfolding quiet_def by (auto simp: durable_def split: option.splits)

lemma quiet_durable: "quiet el el' \<Longrightarrow> journal el \<noteq> JM_OFF \<Longrightarrow> durable el' = durable el"
  and quiet_journal: "quiet el el' \<Longrightarrow> journal el \<noteq> JM_OFF \<Longrightarrow> journal el' = journal el"
  and quiet_auto: "quiet el el' \<Longrightarrow> journal el \<noteq> JM_OFF \<Longrightarrow> txn el = None \<Longrightarrow>
     txn el' = None \<and> tb el' = tb el"
  by (auto simp: quiet_def durable_def)

text \<open>The fields of the object that the database layer never touches.\<close>

definition same_object :: "el \<Rightarrow> el \<Rightarrow> bool" where
  "same_object el el' \<longleftrightarrow>
     is_open el' = is_open el \<and> plugins el' = plugins el \<and> services el' = services el \<and>
     event_types el' = event_types el \<and> flags el' = flags el \<and>
     last_group_uid el' = last_group_uid el \<and> now el' = now el \<and> bus_up el' = bus_up el \<and>
     emitted el' = emitted el \<and> attempts el' = attempts el"

lemma same_object_more:
  assumes "db.more el' = db.more el"
  shows "same_object el el'"
  using el_more_eq [OF assms] by (simp add: same_object_def)

lemma quietI:
  assumes "same_object el el'"
    and "journal el \<noteq> JM_OFF \<Longrightarrow> durable el' = durable el \<and> journal el' = journal el \<and>
        txn el' \<in> {txn el, None} \<and> tb el' \<in> {tb el, durable el}"
  shows "quiet el el'"
  using assms unfolding quiet_def same_object_def by blast

lemma exec_select_quiet:
  fixes d :: el
  assumes "rtcom_el_db_exec (Stmt (select_rows q)) d = (ok, rows, e, d')"
  shows "quiet d d'"
proof (rule quietI [OF same_object_more [OF exec_more [OF assms]]])
  assume j: "journal d \<noteq> JM_OFF"
  show "durable d' = durable d \<and> journal d' = journal d \<and> txn d' \<in> {txn d, None} \<and>
      tb d' \<in> {tb d, durable d}"
  proof (cases ok)
    case True
    with exec_stmt_ok [of "select_rows q" d rows e d'] assms
    have "tb d' = tb d" "txn d' = txn d" "journal d' = journal d" by (auto simp: select_rows_def)
    moreover from this have "durable d' = durable d" by (intro durable_same)
    ultimately show ?thesis by simp
  next
    case False
    with exec_failed_journaled [of "Stmt (select_rows q)" d rows e d'] assms j show ?thesis by auto
  qed
qed

lemma exec_select_rows:
  assumes "rtcom_el_db_exec (Stmt (select_rows q)) d = (True, rows, e, d')"
  shows "rows = q (tb d)"
  using exec_stmt_ok [OF assms] by (auto simp: select_rows_def)

lemma exec_select_calm:
  "script d = [] \<Longrightarrow>
   rtcom_el_db_exec (Stmt (select_rows q)) d = (True, q (tb d), None, d\<lparr>errcode := None\<rparr>)"
  by (simp add: exec_calm select_rows_def)

lemma get_events_dbus_data_quiet:
  assumes "get_events_dbus_data i el = (r, el')"
  shows "quiet el el' \<and> sent el' = sent el"
proof -
  have *: "quiet el ((refused c rb el (tb el))\<lparr>script := as\<rparr>)" for c rb as
    by (intro quietI same_object_more)
      (use refused_cases [of el c rb "tb el"] in \<open>auto simp: more_refused journal_refused\<close>)
  have **: "sent (refused c rb el (tb el)) = sent el" for c rb
    by (rule el_more_eq) (simp add: more_refused)
  have ***: "quiet el (el\<lparr>script := as, errcode := c\<rparr>)" for as c
    by (simp add: quiet_def)
  show ?thesis
    using assms * ** ***
    by (auto simp: get_events_dbus_data_def split: list.splits answer.splits)
qed

lemma emit_dbus_quiet: "quiet el (emit_dbus sig i service el)"
proof -
  have snt: "quiet el (el1\<lparr>sent := ms\<rparr>)" if "quiet el el1" for el1 ms
    using that by (simp add: quiet_def durable_def cong: option.case_cong)
  obtain r el1 where g: "get_events_dbus_data i el = (r, el1)" by (metis surj_pair)
  from get_events_dbus_data_quiet [OF this] have "quiet el el1" ..
  with g show ?thesis
    by (cases r) (auto simp: emit_dbus_def intro: snt)
qed

text \<open>If the bus is there, exactly one message goes out, with the given member and id.\<close>

lemma emit_dbus_sent:
  assumes "bus_up el"
  shows "\<exists>m. sent (emit_dbus sig i service el) = sent el @ [m] \<and> dm_member m = sig \<and>
     dm_event_id m = i \<and> dm_service m = or_empty service"
proof -
  obtain r el1 where g: "get_events_dbus_data i el = (r, el1)" by (metis surj_pair)
  from get_events_dbus_data_quiet [OF this] assms have "bus_up el1" "sent el1 = sent el"
    by (auto simp: quiet_def)
  with g assms show ?thesis by (cases r) (auto simp: emit_dbus_def)
qed

lemma emit_dbus_down:
  assumes "\<not> bus_up el"
  shows "sent (emit_dbus sig i service el) = sent el"
proof -
  obtain r el1 where g: "get_events_dbus_data i el = (r, el1)" by (metis surj_pair)
  from get_events_dbus_data_quiet [OF this] assms have "\<not> bus_up el1" "sent el1 = sent el"
    by (auto simp: quiet_def)
  with g assms show ?thesis by (cases r) (auto simp: emit_dbus_def)
qed

lemma lookup_table_quiet:
  fixes d :: el
  assumes "rtcom_el_db_cache_lookup_table sel d = (r, d')"
  shows "quiet d d'"
  using assms
  by (auto simp: rtcom_el_db_cache_lookup_table_def split: prod.splits intro: exec_select_quiet)

end
