(* ===== verification/El_Plugin.thy ===== *)
theory El_Plugin
  imports El_Logger
begin

text \<open>
  Plugins: \<open>_init_plugin\<close>, which registers a plugin's service, event types and flags in the
  database the first time it is seen, \<open>_load_plugin\<close> with its mandatory symbols, the scan of
  the plugin directories, and \<open>_ensure_db\<close>, which opens the database and loads them.
\<close>

section \<open>Constructors of src/eventlogger-plugin.c\<close>

definition rtcom_el_service_new :: "string option \<Rightarrow> string option \<Rightarrow> RTComElService option" where
  "rtcom_el_service_new name desc =
     (case (name, desc) of
        (Some n, Some d) \<Rightarrow> Some \<lparr>svc_name = n, svc_desc = Some d\<rparr>
      | _ \<Rightarrow> None)"

definition rtcom_el_eventtype_new :: "string option \<Rightarrow> string option \<Rightarrow> RTComElEventType option"
where
  "rtcom_el_eventtype_new name desc =
     (case (name, desc) of
        (Some n, Some d) \<Rightarrow> Some \<lparr>evt_name = n, evt_desc = Some d\<rparr>
      | _ \<Rightarrow> None)"

definition rtcom_el_flag_new :: "string option \<Rightarrow> int \<Rightarrow> string option \<Rightarrow> RTComElFlag option" where
  "rtcom_el_flag_new name val desc =
     (case (name, desc) of
        (Some n, Some d) \<Rightarrow> Some \<lparr>flg_name = n, flg_value = val, flg_desc = Some d\<rparr>
      | _ \<Rightarrow> None)"

section \<open>Registering a plugin\<close>

definition in_table :: "(string \<rightharpoonup> int) option \<Rightarrow> string \<Rightarrow> bool" where
  "in_table table k \<longleftrightarrow>
     (case table of
        None \<Rightarrow> False
      | Some m \<Rightarrow> (case m k of None \<Rightarrow> False | Some i \<Rightarrow> i \<noteq> 0))"

definition table_insert :: "string \<Rightarrow> int \<Rightarrow> (string \<rightharpoonup> int) option \<Rightarrow> (string \<rightharpoonup> int) option" where
  "table_insert k v table = map_option (\<lambda>m. m(k \<mapsto> v)) table"

text \<open>The loop over the event types of a plugin; \<open>False\<close> is the jump to \<open>db_error\<close>.\<close>

fun init_event_types :: "int \<Rightarrow> RTComElEventType list \<Rightarrow> el \<Rightarrow> bool \<times> el" where
  "init_event_types plugin [] el = (True, el)"
| "init_event_types plugin (et # ets) el =
     (if in_table (event_types el) (evt_name et) then (False, el)
      else case rtcom_el_db_exec
                  (Stmt (insert_eventtype (evt_name et) plugin (evt_desc et)) :: unit sql) el of
             (ok, _, _, el1) \<Rightarrow>
               if \<not> ok then (False, el1)
               else init_event_types plugin ets
                      (el1\<lparr>event_types :=
                         table_insert (evt_name et) (to_gint (last_rowid el1)) (event_types el1)\<rparr>))"

fun init_flags :: "int \<Rightarrow> RTComElFlag list \<Rightarrow> el \<Rightarrow> bool \<times> el" where
  "init_flags service [] el = (True, el)"
| "init_flags service (fl # fls) el =
     (if in_table (flags el) (flg_name fl) then (False, el)
      else case rtcom_el_db_exec
                  (Stmt (insert_flag service (flg_name fl) (to_gint (flg_value fl)) (flg_desc fl))
                    :: unit sql) el of
             (ok, _, _, el1) \<Rightarrow>
               if \<not> ok then (False, el1)
               else init_flags service fls
                      (el1\<lparr>flags :=
                         table_insert (flg_name fl) (to_gint (last_rowid el1)) (flags el1)\<rparr>))"

text \<open>The label \<open>db_error\<close>.\<close>

definition init_plugin_error :: "RTComElPlugin \<Rightarrow> el \<Rightarrow> int \<times> RTComElPlugin \<times> el" where
  "init_plugin_error plugin el = (- 1, plugin, snd (snd (rtcom_el_db_rollback el)))"

text \<open>A plugin that is not in the table yet.\<close>

definition init_new_plugin ::
    "string \<Rightarrow> string \<Rightarrow> RTComElService \<Rightarrow> RTComElPlugin \<Rightarrow> el \<Rightarrow> int \<times> RTComElPlugin \<times> el" where
  "init_new_plugin name desc service plugin el =
     (case rtcom_el_db_exec (Stmt (insert_plugin name desc) :: unit sql) el of
        (ok, _, _, el1) \<Rightarrow>
      if \<not> ok then init_plugin_error plugin el1
      else
        let pid = to_gint (last_rowid el1);
            plugin1 = plugin\<lparr>pg_id := pid\<rparr>
        in if in_table (services el1) (svc_name service) then init_plugin_error plugin1 el1
           else
             (case rtcom_el_db_exec
                     (Stmt (insert_service (svc_name service) pid (svc_desc service)) :: unit sql) el1 of
                (ok2, _, _, el2) \<Rightarrow>
              if \<not> ok2 then init_plugin_error plugin1 el2
              else
                let sid = to_gint (last_rowid el2);
                    el3 = el2\<lparr>services := table_insert (svc_name service) sid (services el2)\<rparr>
                in case init_event_types pid (pg_event_types plugin1) el3 of
                     (ok4, el4) \<Rightarrow>
                       if \<not> ok4 then init_plugin_error plugin1 el4
                       else case pg_flags plugin1 of
                              None \<Rightarrow> (sid, plugin1, el4)
                            | Some fls \<Rightarrow>
                                (case init_flags sid fls el4 of
                                   (ok5, el5) \<Rightarrow>
                                     if \<not> ok5 then init_plugin_error plugin1 el5
                                     else (sid, plugin1, el5))))"

text \<open>
  The result is the service id, or \<open>-1\<close>. The ids of new rows are assigned to 32-bit
  variables.
\<close>

definition init_plugin :: "RTComElPlugin \<Rightarrow> el \<Rightarrow> int \<times> RTComElPlugin \<times> el" where
  "init_plugin plugin el0 =
     (let el = (case pg_init plugin of None \<Rightarrow> el0 | Some f \<Rightarrow> el0\<lparr>tb := f (tb el0)\<rparr>)
      in case pg_name plugin of None \<Rightarrow> (- 1, plugin, el) | Some name \<Rightarrow>
         case pg_desc plugin of None \<Rightarrow> (- 1, plugin, el) | Some desc \<Rightarrow>
         case pg_service plugin of None \<Rightarrow> (- 1, plugin, el) | Some service \<Rightarrow>
         case rtcom_el_db_exec (Stmt (select_rows (\<lambda>t.
                map (\<lambda>r. Some (pl_id r)) (filter (\<lambda>r. pl_name r = name) (Plugins t))))) el of
           (ok, rows, _, el1) \<Rightarrow>
             let pid = rtcom_el_db_single_int rows 0;
                 plugin1 = plugin\<lparr>pg_id := pid\<rparr>
             in if \<not> ok then (- 1, plugin1, el1)
                else if pid \<noteq> 0
                then (case rtcom_el_db_exec (Stmt (select_rows (\<lambda>t.
                             map (\<lambda>r. Some (sv_id r))
                               (filter (\<lambda>r. sv_plugin_id r = pid) (Services t))))) el1 of
                        (ok2, rows2, _, el2) \<Rightarrow>
                          if \<not> ok2 then (- 1, plugin1, el2)
                          else (rtcom_el_db_single_int rows2 0, plugin1, el2))
                else init_new_plugin name desc service plugin1 el1)"

section \<open>Loading\<close>

definition load_plugin :: "plugin_file \<Rightarrow> el \<Rightarrow> bool \<times> el" where
  "load_plugin file el =
     (case pf_module file of None \<Rightarrow> (False, el) | Some m \<Rightarrow>
      case sym_name m of None \<Rightarrow> (False, el) | Some nm \<Rightarrow>
      case sym_desc m of None \<Rightarrow> (False, el) | Some de \<Rightarrow>
      case sym_service m of None \<Rightarrow> (False, el) | Some sv \<Rightarrow>
      case sym_eventtypes m of None \<Rightarrow> (False, el) | Some ets \<Rightarrow>
      (case init_plugin
              \<lparr>pg_id = 0, pg_init = sym_init m, pg_name = nm, pg_desc = de, pg_service = sv,
               pg_event_types = ets, pg_flags = sym_flags m, pg_get_value = sym_get_value m\<rparr> el of
         (service_id, plugin, el1) \<Rightarrow>
           if service_id = - 1 then (False, el1)
           else (True, el1\<lparr>plugins := (plugins el1)(service_id \<mapsto> plugin)\<rparr>)))"

text \<open>\<open>strrchr(filename, '.')\<close> and the comparison of what follows with "so".\<close>

definition has_module_suffix :: "string \<Rightarrow> bool" where
  "has_module_suffix s \<longleftrightarrow>
     CHR ''.'' \<in> set s \<and> rev (takeWhile (\<lambda>c. c \<noteq> CHR ''.'') (rev s)) = ''so''"

fun scan_plugin_files :: "plugin_file list \<Rightarrow> bool \<Rightarrow> el \<Rightarrow> bool \<times> el" where
  "scan_plugin_files [] ret el = (ret, el)"
| "scan_plugin_files (file # files) ret el =
     (if pf_regular file \<and> has_module_suffix (pf_name file)
      then case load_plugin file el of (ok, el1) \<Rightarrow> scan_plugin_files files (ret \<and> ok) el1
      else scan_plugin_files files ret el)"

definition scan_plugins_dir :: "plugin_file list option \<Rightarrow> el \<Rightarrow> bool \<times> el" where
  "scan_plugins_dir dir el =
     (case dir of None \<Rightarrow> (False, el) | Some files \<Rightarrow> scan_plugin_files files True el)"

definition load_plugins :: "el \<Rightarrow> el" where
  "load_plugins el =
     (if env_path_exists el then snd (scan_plugins_dir (env_plugins el) el)
      else let el1 = snd (scan_plugins_dir (system_plugins el) el)
           in snd (scan_plugins_dir (user_plugins el1) el1))"

section \<open>Opening the database when it is needed\<close>

text \<open>
  A new connection, with the journal mode \<open>_internal_open\<close> sets last. \<open>reopen\<close> tells the other processes.
\<close>

definition connect :: "tables \<times> tables option \<Rightarrow> el \<Rightarrow> el" where
  "connect opened el =
     el\<lparr>tb := fst opened, txn := snd opened, journal := JM_TRUNCATE, is_open := True\<rparr>"

definition ensure_db :: "bool \<Rightarrow> el \<Rightarrow> bool \<times> el" where
  "ensure_db reopen el =
     (if is_open el then (True, el)
      else case attempts el of
             [] \<Rightarrow> (False, el)
           | a # rest \<Rightarrow>
               let el1 = el\<lparr>attempts := rest\<rparr>
               in if \<not> op_dir a then (False, el1)
                  else if \<not> op_converted a then (False, el1)
                  else case op_opened a of
                         None \<Rightarrow> (False, el1)
                       | Some opened \<Rightarrow>
                           let el2 = load_plugins (build_db_representation (connect opened el1))
                           in (True, if reopen then emit_dbus ''DbReopen'' (- 1) None el2 else el2))"

lemma ensure_db_open [simp]: "is_open el \<Longrightarrow> ensure_db reopen el = (True, el)"
  by (simp add: ensure_db_def)

end
