(* ===== verification/El_Cache.thy ===== *)
theory El_Cache
  imports El_Schema
begin

text \<open>
  The group cache: what the triggers and the rebuilding statements of src/db.c and
  \<open>update_group_cache\<close> keep true between the tables Events and GroupCache. \<open>cache_ok\<close> is
  the invariant of the library; \<open>cache_but S\<close> is the weaker one that holds between a
  DELETE and the rebuilding of the groups \<open>S\<close> it touched.
\<close>

section \<open>The invariant\<close>

text \<open>
  A cache row counts the events of its group and the read ones, names the newest of them,
  and they all belong to its service.
\<close>

definition cache_row_ok :: "tables \<Rightarrow> cache_row \<Rightarrow> bool" where
  "cache_row_ok t c \<longleftrightarrow>
     gc_event_id c \<in> e_id ` set (group_events t (gc_group_uid c)) \<and>
     gc_total_events c = int (length (group_events t (gc_group_uid c))) \<and>
     gc_read_events c = sum_list (map e_is_read (group_events t (gc_group_uid c))) \<and>
     (\<forall>e\<in>set (group_events t (gc_group_uid c)).
        e_id e \<le> gc_event_id c \<and> e_service_id e = gc_service_id c)"

text \<open>A row that may be out of date, but still cannot be taken for another group's.\<close>

definition cache_row_stale :: "tables \<Rightarrow> cache_row \<Rightarrow> bool" where
  "cache_row_stale t c \<longleftrightarrow>
     (\<forall>e\<in>set (Events t). e_id e = gc_event_id c \<longrightarrow> e_group_uid e = Some (gc_group_uid c)) \<and>
     (\<forall>e\<in>set (group_events t (gc_group_uid c)). e_service_id e = gc_service_id c)"

definition cached_group :: "tables \<Rightarrow> string \<Rightarrow> bool" where
  "cached_group t g \<longleftrightarrow> g \<in> gc_group_uid ` set (GroupCache t)"

definition events_wf :: "tables \<Rightarrow> bool" where
  "events_wf t \<longleftrightarrow> distinct (map e_id (Events t)) \<and> (\<forall>e\<in>set (Events t). 1 \<le> e_id e)"

definition groups_cached :: "tables \<Rightarrow> bool" where
  "groups_cached t \<longleftrightarrow>
     (\<forall>e\<in>set (Events t). case e_group_uid e of None \<Rightarrow> True | Some g \<Rightarrow> cached_group t g)"

lemma groups_cached_iff:
  "groups_cached t \<longleftrightarrow>
     (\<forall>e\<in>set (Events t). \<forall>g. e_group_uid e = Some g \<longrightarrow> cached_group t g)"
  by (auto simp: groups_cached_def split: option.splits)

definition cache_but :: "string set \<Rightarrow> tables \<Rightarrow> bool" where
  "cache_but S t \<longleftrightarrow>
     events_wf t \<and> distinct (map gc_group_uid (GroupCache t)) \<and> groups_cached t \<and>
     (\<forall>c\<in>set (GroupCache t).
        if gc_group_uid c \<in> S then cache_row_stale t c else cache_row_ok t c)"

definition cache_ok :: "tables \<Rightarrow> bool" where
  "cache_ok t \<longleftrightarrow> cache_but {} t"

lemma cache_ok_alt:
  "cache_ok t \<longleftrightarrow>
     events_wf t \<and> distinct (map gc_group_uid (GroupCache t)) \<and> groups_cached t \<and>
     (\<forall>c\<in>set (GroupCache t). cache_row_ok t c)"
  by (simp add: cache_ok_def cache_but_def)

lemma cache_ok_empty: "cache_ok empty_tables"
  by (simp add: cache_ok_alt empty_tables_def events_wf_def groups_cached_def)

lemma cache_okI:
  assumes "events_wf t" and "distinct (map gc_group_uid (GroupCache t))"
    and "\<And>e g. e \<in> set (Events t) \<Longrightarrow> e_group_uid e = Some g \<Longrightarrow>
           g \<in> gc_group_uid ` set (GroupCache t)"
    and "\<And>c. c \<in> set (GroupCache t) \<Longrightarrow> cache_row_ok t c"
  shows "cache_ok t"
  using assms by (simp add: cache_ok_alt groups_cached_iff cached_group_def)

lemma cache_butI:
  assumes "events_wf t" and "distinct (map gc_group_uid (GroupCache t))"
    and "\<And>e g. e \<in> set (Events t) \<Longrightarrow> e_group_uid e = Some g \<Longrightarrow>
           g \<in> gc_group_uid ` set (GroupCache t)"
    and "\<And>c. c \<in> set (GroupCache t) \<Longrightarrow> gc_group_uid c \<in> S \<Longrightarrow> cache_row_stale t c"
    and "\<And>c. c \<in> set (GroupCache t) \<Longrightarrow> gc_group_uid c \<notin> S \<Longrightarrow> cache_row_ok t c"
  shows "cache_but S t"
  using assms by (simp add: cache_but_def groups_cached_iff cached_group_def)

lemma cache_but_wf: "cache_but S t \<Longrightarrow> events_wf t"
  and cache_but_distinct: "cache_but S t \<Longrightarrow> distinct (map gc_group_uid (GroupCache t))"
  and cache_but_cached: "cache_but S t \<Longrightarrow> e \<in> set (Events t) \<Longrightarrow> e_group_uid e = Some g \<Longrightarrow>
        g \<in> gc_group_uid ` set (GroupCache t)"
  and cache_but_ok: "cache_but S t \<Longrightarrow> c \<in> set (GroupCache t) \<Longrightarrow> gc_group_uid c \<notin> S \<Longrightarrow>
        cache_row_ok t c"
  by (auto simp: cache_but_def groups_cached_iff cached_group_def split: if_splits)

lemma cache_okD:
  assumes "cache_ok t"
  shows "events_wf t" and "distinct (map gc_group_uid (GroupCache t))"
    and "\<And>c. c \<in> set (GroupCache t) \<Longrightarrow> cache_row_ok t c"
    and "\<And>e g. e \<in> set (Events t) \<Longrightarrow> e_group_uid e = Some g \<Longrightarrow>
           \<exists>c\<in>set (GroupCache t). gc_group_uid c = g"
  using assms by (fastforce simp: cache_ok_alt groups_cached_iff cached_group_def)+

lemma set_group_events [simp]:
  "e \<in> set (group_events t g) \<longleftrightarrow> e \<in> set (Events t) \<and> e_group_uid e = Some g"
  by (auto simp: group_events_def)

lemma events_wf_inj:
  "events_wf t \<Longrightarrow> e \<in> set (Events t) \<Longrightarrow> e' \<in> set (Events t) \<Longrightarrow> e_id e = e_id e' \<Longrightarrow> e = e'"
  unfolding events_wf_def by (meson distinct_map_inj_on_set)

lemma cache_row_ok_stale:
  assumes "events_wf t" and "cache_row_ok t c"
  shows "cache_row_stale t c"
proof -
  from assms(2) obtain e where e: "e \<in> set (Events t)" "e_group_uid e = Some (gc_group_uid c)"
      "e_id e = gc_event_id c"
    by (auto simp: cache_row_ok_def)
  have "e' = e" if "e' \<in> set (Events t)" "e_id e' = gc_event_id c" for e'
    by (rule events_wf_inj [OF assms(1) that(1) e(1)]) (simp add: that e)
  with e(2) have "\<forall>e'\<in>set (Events t). e_id e' = gc_event_id c \<longrightarrow>
      e_group_uid e' = Some (gc_group_uid c)" by metis
  with assms(2) show ?thesis by (simp add: cache_row_stale_def cache_row_ok_def)
qed

lemma cache_ok_but: "cache_ok t \<Longrightarrow> cache_but S t"
  by (auto simp: cache_ok_alt cache_but_def intro: cache_row_ok_stale)

text \<open>Every row of a sound cache names an event; different rows name different events.\<close>

lemma cache_row_event:
  assumes "cache_ok t" and "c \<in> set (GroupCache t)"
  obtains e where "e \<in> set (Events t)" and "e_group_uid e = Some (gc_group_uid c)"
    and "e_id e = gc_event_id c"
  using cache_okD(3) [OF assms] by (auto simp: cache_row_ok_def)

lemma cache_event_ids_distinct:
  assumes ok: "cache_ok t"
  shows "distinct (map gc_event_id (GroupCache t))"
proof -
  have "c = d" if cd: "c \<in> set (GroupCache t)" "d \<in> set (GroupCache t)"
    and eq: "gc_event_id c = gc_event_id d" for c d
  proof -
    obtain e where e: "e \<in> set (Events t)" "e_group_uid e = Some (gc_group_uid c)"
      "e_id e = gc_event_id c" by (rule cache_row_event [OF ok cd(1)])
    obtain f where f: "f \<in> set (Events t)" "e_group_uid f = Some (gc_group_uid d)"
      "e_id f = gc_event_id d" by (rule cache_row_event [OF ok cd(2)])
    have "e = f"
      by (rule events_wf_inj [OF cache_okD(1) [OF ok] e(1) f(1)]) (simp add: e f eq)
    with e f have "gc_group_uid c = gc_group_uid d" by simp
    then show ?thesis by (rule distinct_map_inj_on_set [OF cache_okD(2) [OF ok] cd])
  qed
  then have "inj_on gc_event_id (set (GroupCache t))" by (auto simp: inj_on_def)
  with cache_okD(2) [OF ok] show ?thesis by (simp add: distinct_map)
qed

lemma cache_event_id_pos:
  assumes ok: "cache_ok t" and c: "c \<in> set (GroupCache t)"
  shows "1 \<le> gc_event_id c"
proof -
  obtain e where "e \<in> set (Events t)" "e_id e = gc_event_id c"
    by (rule cache_row_event [OF ok c])
  with cache_okD(1) [OF ok] show ?thesis by (auto simp: events_wf_def)
qed

section \<open>Row ids\<close>

lemma next_rowid_greater: "x \<in> set xs \<Longrightarrow> x < next_rowid xs"
  by (induction xs) (auto simp: less_max_iff_disj)

lemma next_rowid_pos: "\<forall>x\<in>set xs. 1 \<le> x \<Longrightarrow> 1 \<le> next_rowid xs"
  by (induction xs) (auto simp: le_max_iff_disj)

lemma next_rowid_fresh: "next_rowid xs \<notin> set xs"
  using next_rowid_greater by blast

section \<open>Inserting an event\<close>

text \<open>The row as stored, with the id the table gives it.\<close>

definition stored_row :: "event_row \<Rightarrow> tables \<Rightarrow> event_row" where
  "stored_row row t = row\<lparr>e_id := next_rowid (map e_id (Events t))\<rparr>"

lemma stored_row_sel [simp]:
  "e_group_uid (stored_row row t) = e_group_uid row"
  "e_service_id (stored_row row t) = e_service_id row"
  "e_is_read (stored_row row t) = e_is_read row"
  "e_flags (stored_row row t) = e_flags row"
  "e_id (stored_row row t) = next_rowid (map e_id (Events t))"
  by (simp_all add: stored_row_def)

lemma group_events_cache [simp]:
  "group_events (t\<lparr>GroupCache := gcs\<rparr>) g = group_events t g"
  by (simp add: group_events_def)

lemma events_wf_cache [simp]: "events_wf (t\<lparr>GroupCache := gcs\<rparr>) = events_wf t"
  by (simp add: events_wf_def)

lemma group_events_snoc [simp]:
  "group_events (t\<lparr>Events := Events t @ [e]\<rparr>) g =
     group_events t g @ (if e_group_uid e = Some g then [e] else [])"
  by (simp add: group_events_def)

lemma events_wf_snoc:
  "events_wf t \<Longrightarrow> events_wf (t\<lparr>Events := Events t @ [stored_row row t]\<rparr>)"
  using next_rowid_fresh [of "map e_id (Events t)"] next_rowid_pos [of "map e_id (Events t)"]
  by (simp add: events_wf_def)

lemma old_id_less: "e \<in> set (Events t) \<Longrightarrow> e_id e < next_rowid (map e_id (Events t))"
  by (simp add: next_rowid_greater)

lemma cached_id_less:
  assumes ok: "cache_ok t" and c: "c \<in> set (GroupCache t)"
  shows "gc_event_id c < next_rowid (map e_id (Events t))"
proof -
  obtain e where "e \<in> set (Events t)" "e_id e = gc_event_id c"
    by (rule cache_row_event [OF ok c])
  with old_id_less show ?thesis by metis
qed

text \<open>
  The four cases of the triggers: no group; a group the cache knows under the same
  service; a group it does not know; a group it knows under another service.
\<close>

lemma insert_event_no_group:
  "e_group_uid row = None \<Longrightarrow>
   insert_event row t = Inr ([], Some (next_rowid (map e_id (Events t))),
     t\<lparr>Events := Events t @ [stored_row row t]\<rparr>)"
  by (simp add: insert_event_def gc_update_ev_add1_def gc_update_ev_add4_def Let_def
      stored_row_def)

lemma count_event_ids_distinct:
  assumes ok: "cache_ok t"
  shows "distinct (map gc_event_id (map (gc_count_event (stored_row row t) g) (GroupCache t)))"
proof -
  let ?n = "next_rowid (map e_id (Events t))"
  have old: "gc_event_id c \<noteq> ?n" if "c \<in> set (GroupCache t)" for c
    using cached_id_less [OF ok that] by simp
  have "inj_on (gc_event_id \<circ> gc_count_event (stored_row row t) g) (set (GroupCache t))"
  proof (rule inj_onI)
    fix c d assume cd: "c \<in> set (GroupCache t)" "d \<in> set (GroupCache t)"
      and eq: "(gc_event_id \<circ> gc_count_event (stored_row row t) g) c =
               (gc_event_id \<circ> gc_count_event (stored_row row t) g) d"
    show "c = d"
    proof (cases "gc_group_uid c = g \<or> gc_group_uid d = g")
      case True
      with eq old [OF cd(1)] old [OF cd(2)] have "gc_group_uid c = gc_group_uid d"
        by (auto simp: gc_count_event_def split: if_splits)
      with cd show ?thesis using distinct_map_inj_on_set [OF cache_okD(2) [OF ok]] by blast
    next
      case False
      with eq have "gc_event_id c = gc_event_id d" by (simp add: gc_count_event_def)
      with cd show ?thesis
        using distinct_map_inj_on_set [OF cache_event_ids_distinct [OF ok]] by blast
    qed
  qed
  with cache_okD(2) [OF ok] show ?thesis by (simp add: distinct_map)
qed

lemma insert_event_known_group:
  assumes ok: "cache_ok t" and g: "e_group_uid row = Some g"
    and c: "c \<in> set (GroupCache t)" "gc_group_uid c = g" "gc_service_id c = e_service_id row"
  shows "insert_event row t = Inr ([], Some (next_rowid (map e_id (Events t))),
     t\<lparr>Events := Events t @ [stored_row row t],
       GroupCache := map (gc_count_event (stored_row row t) g) (GroupCache t)\<rparr>)"
proof -
  from c have "gc_update_ev_add1 (stored_row row t) t = t"
    using g by (auto simp: gc_update_ev_add1_def)
  with g count_event_ids_distinct [OF ok, of row g] show ?thesis
    by (simp add: insert_event_def gc_update_ev_add4_def Let_def
        flip: stored_row_def)
qed

definition fresh_cache_row :: "event_row \<Rightarrow> string \<Rightarrow> cache_row" where
  "fresh_cache_row new g =
     \<lparr>gc_event_id = e_id new, gc_service_id = e_service_id new, gc_group_uid = g,
      gc_total_events = 1, gc_read_events = e_is_read new, gc_flags = e_flags new\<rparr>"

lemma no_zero_cache_id: "cache_ok t \<Longrightarrow> \<not> (\<exists>c\<in>set (GroupCache t). gc_event_id c = 0)"
  using cache_event_id_pos by fastforce

lemma insert_event_new_group:
  assumes ok: "cache_ok t" and g: "e_group_uid row = Some g" and "\<not> cached_group t g"
  shows "insert_event row t = Inr ([], Some (next_rowid (map e_id (Events t))),
     t\<lparr>Events := Events t @ [stored_row row t],
       GroupCache := GroupCache t @ [fresh_cache_row (stored_row row t) g]\<rparr>)"
proof -
  let ?z = "\<lparr>gc_event_id = 0, gc_service_id = e_service_id row, gc_group_uid = g,
              gc_total_events = 0, gc_read_events = 0, gc_flags = 0\<rparr>"
  have ng: "\<forall>c\<in>set (GroupCache t). gc_group_uid c \<noteq> g"
    using assms(3) by (auto simp: cached_group_def)
  with no_zero_cache_id [OF ok] g
  have add1: "gc_update_ev_add1 (stored_row row t) t = t\<lparr>GroupCache := GroupCache t @ [?z]\<rparr>"
    by (auto simp: gc_update_ev_add1_def)
  have mp: "map (gc_count_event (stored_row row t) g) (GroupCache t @ [?z]) =
      GroupCache t @ [fresh_cache_row (stored_row row t) g]"
    using ng by (simp add: gc_count_event_def fresh_cache_row_def map_idI)
  have "distinct (map gc_event_id (GroupCache t @ [fresh_cache_row (stored_row row t) g]))"
    using cache_event_ids_distinct [OF ok] cached_id_less [OF ok]
    by (fastforce simp: fresh_cache_row_def)
  with g add1 mp show ?thesis
    by (simp add: insert_event_def gc_update_ev_add4_def Let_def flip: stored_row_def)
qed

lemma insert_event_foreign_group:
  assumes ok: "cache_ok t" and g: "e_group_uid row = Some g"
    and c: "c \<in> set (GroupCache t)" "gc_group_uid c = g" "gc_service_id c \<noteq> e_service_id row"
  shows "insert_event row t = Inl SQLITE_CONSTRAINT"
proof -
  let ?z = "\<lparr>gc_event_id = 0, gc_service_id = e_service_id row, gc_group_uid = g,
              gc_total_events = 0, gc_read_events = 0, gc_flags = 0\<rparr>"
  have "d = c" if "d \<in> set (GroupCache t)" "gc_group_uid d = g" for d
    by (rule distinct_map_inj_on_set [OF cache_okD(2) [OF ok] that(1) c(1)]) (simp add: that c)
  with c(3) no_zero_cache_id [OF ok]
  have "\<not> (\<exists>d\<in>set (GroupCache t). gc_event_id d = 0 \<or>
      gc_service_id d = e_service_id row \<and> gc_group_uid d = g)" by metis
  with g have add1: "gc_update_ev_add1 (stored_row row t) t =
      t\<lparr>GroupCache := GroupCache t @ [?z]\<rparr>"
    by (simp add: gc_update_ev_add1_def)
  have "gc_event_id (gc_count_event (stored_row row t) g c) =
        gc_event_id (gc_count_event (stored_row row t) g ?z)"
    using c(2) by (simp add: gc_count_event_def)
  then have "\<not> distinct (map (gc_event_id \<circ> gc_count_event (stored_row row t) g)
       (GroupCache t @ [?z]))"
    by (intro not_distinct_map_snoc [OF c(1)]) simp
  then have "\<not> distinct (map gc_event_id (map (gc_count_event (stored_row row t) g)
       (GroupCache t @ [?z])))"
    by (simp only: map_map not_False_eq_True)
  with g add1 show ?thesis
    by (simp add: insert_event_def gc_update_ev_add4_def Let_def flip: stored_row_def)
qed

text \<open>An insertion that succeeds appends the stored row and keeps the cache sound.\<close>

lemma cache_row_ok_cong:
  "group_events t (gc_group_uid c) = group_events u (gc_group_uid c) \<Longrightarrow>
   cache_row_ok t c \<longleftrightarrow> cache_row_ok u c"
  by (simp add: cache_row_ok_def)

lemma add1_tables [simp]:
  "Events (gc_update_ev_add1 row t) = Events t" "Headers (gc_update_ev_add1 row t) = Headers t"
  "Attachments (gc_update_ev_add1 row t) = Attachments t"
  "Remotes (gc_update_ev_add1 row t) = Remotes t"
  "Services (gc_update_ev_add1 row t) = Services t"
  "EventTypes (gc_update_ev_add1 row t) = EventTypes t"
  "Flags (gc_update_ev_add1 row t) = Flags t" "Plugins (gc_update_ev_add1 row t) = Plugins t"
  by (simp_all add: gc_update_ev_add1_def split: option.split)

lemma insert_event_result:
  assumes "insert_event row t = Inr (rs, i, t')"
  shows "rs = [] \<and> i = Some (next_rowid (map e_id (Events t))) \<and>
    Events t' = Events t @ [stored_row row t] \<and> Headers t' = Headers t \<and>
    Attachments t' = Attachments t \<and> Remotes t' = Remotes t \<and> Services t' = Services t \<and>
    EventTypes t' = EventTypes t \<and> Flags t' = Flags t \<and> Plugins t' = Plugins t"
  using assms
  by (auto simp: insert_event_def Let_def gc_update_ev_add4_def stored_row_def
      split: option.splits if_splits)

lemma cache_ok_snoc_no_group:
  assumes ok: "cache_ok t" and g: "e_group_uid row = None"
  shows "cache_ok (t\<lparr>Events := Events t @ [stored_row row t]\<rparr>)"
  using ok g events_wf_snoc [of t row]
  by (auto simp: cache_ok_alt cache_row_ok_def groups_cached_iff cached_group_def)

lemma cache_ok_snoc_known:
  assumes ok: "cache_ok t" and g: "e_group_uid row = Some g"
    and c: "c \<in> set (GroupCache t)" "gc_group_uid c = g" "gc_service_id c = e_service_id row"
  shows "cache_ok (t\<lparr>Events := Events t @ [stored_row row t],
       GroupCache := map (gc_count_event (stored_row row t) g) (GroupCache t)\<rparr>)" (is "cache_ok ?t")
  unfolding cache_ok_alt
proof (intro conjI)
  show "events_wf ?t" using events_wf_snoc [OF cache_okD(1) [OF ok]] by simp
  have same: "gc_group_uid (gc_count_event n g d) = gc_group_uid d" for n d
    by (simp add: gc_count_event_def)
  show "distinct (map gc_group_uid (GroupCache ?t))"
    using cache_okD(2) [OF ok] by (simp add: same comp_def)
  show "groups_cached ?t"
    using ok g c
    by (auto simp: cache_ok_alt groups_cached_iff cached_group_def same image_image)
  show "\<forall>d\<in>set (GroupCache ?t). cache_row_ok ?t d"
  proof
    fix d assume "d \<in> set (GroupCache ?t)"
    then obtain b where b: "b \<in> set (GroupCache t)" and d: "d = gc_count_event (stored_row row t) g b"
      by auto
    show "cache_row_ok ?t d"
    proof (cases "gc_group_uid b = g")
      case True
      have "b = c"
        by (rule distinct_map_inj_on_set [OF cache_okD(2) [OF ok] b c(1)]) (simp add: True c)
      with cache_okD(3) [OF ok c(1)] c g d True show ?thesis
        using old_id_less [of _ t]
        by (fastforce simp: cache_row_ok_def gc_count_event_def)
    next
      case False
      with cache_okD(3) [OF ok b] g d show ?thesis
        by (auto simp: cache_row_ok_def gc_count_event_def)
    qed
  qed
qed

lemma cache_ok_snoc_new:
  assumes ok: "cache_ok t" and g: "e_group_uid row = Some g" and ng: "\<not> cached_group t g"
  shows "cache_ok (t\<lparr>Events := Events t @ [stored_row row t],
       GroupCache := GroupCache t @ [fresh_cache_row (stored_row row t) g]\<rparr>)" (is "cache_ok ?t")
  unfolding cache_ok_alt
proof (intro conjI)
  have none: "group_events t g = []"
    using cache_okD(4) [OF ok] ng by (fastforce simp: group_events_def filter_empty_conv cached_group_def)
  have fr: "gc_group_uid (fresh_cache_row n g) = g" for n by (simp add: fresh_cache_row_def)
  show "events_wf ?t" using events_wf_snoc [OF cache_okD(1) [OF ok]] by simp
  show "distinct (map gc_group_uid (GroupCache ?t))"
    using cache_okD(2) [OF ok] ng by (auto simp: fr cached_group_def)
  show "groups_cached ?t"
    using ok g by (auto simp: cache_ok_alt groups_cached_iff cached_group_def fr)
  have "cache_row_ok ?t (fresh_cache_row (stored_row row t) g)"
    using g none by (simp add: cache_row_ok_def fr) (simp add: fresh_cache_row_def)
  moreover have "cache_row_ok ?t c" if "c \<in> set (GroupCache t)" for c
  proof -
    from that ng have "gc_group_uid c \<noteq> g" by (auto simp: cached_group_def)
    with g have "group_events ?t (gc_group_uid c) = group_events t (gc_group_uid c)"
      by simp
    with cache_okD(3) [OF ok that] show ?thesis using cache_row_ok_cong by blast
  qed
  ultimately show "\<forall>c\<in>set (GroupCache ?t). cache_row_ok ?t c" by simp
qed

lemma insert_event_cache_ok:
  assumes ok: "cache_ok t" and ins: "insert_event row t = Inr (rs, i, t')"
  shows "cache_ok t'"
proof (cases "e_group_uid row")
  case None
  with ins have "t' = t\<lparr>Events := Events t @ [stored_row row t]\<rparr>"
    by (simp add: insert_event_no_group)
  with cache_ok_snoc_no_group [OF ok None] show ?thesis by simp
next
  case (Some g)
  show ?thesis
  proof (cases "cached_group t g")
    case True
    then obtain c where c: "c \<in> set (GroupCache t)" "gc_group_uid c = g"
      by (auto simp: cached_group_def)
    have sv: "gc_service_id c = e_service_id row"
      using ins insert_event_foreign_group [OF ok Some c, where 'a = 'a] by fastforce
    from ins cache_ok_snoc_known [OF ok Some c sv] show ?thesis
      by (simp add: insert_event_known_group [OF ok Some c sv])
  next
    case False
    from ins cache_ok_snoc_new [OF ok Some False] show ?thesis
      by (simp add: insert_event_new_group [OF ok Some False])
  qed
qed

section \<open>Updating an event\<close>

text \<open>The columns an UPDATE of the library leaves alone.\<close>

definition keeps_keys :: "(event_row \<Rightarrow> event_row) \<Rightarrow> bool" where
  "keeps_keys f \<longleftrightarrow>
     (\<forall>e. e_id (f e) = e_id e \<and> e_group_uid (f e) = e_group_uid e \<and>
          e_service_id (f e) = e_service_id e)"

definition update_at :: "int \<Rightarrow> (event_row \<Rightarrow> event_row) \<Rightarrow> event_row \<Rightarrow> event_row" where
  "update_at i f e = (if e_id e = i then f e else e)"

lemma update_at_keys:
  "keeps_keys f \<Longrightarrow> e_id (update_at i f e) = e_id e \<and>
     e_group_uid (update_at i f e) = e_group_uid e \<and> e_service_id (update_at i f e) = e_service_id e"
  by (simp add: update_at_def keeps_keys_def)

lemma update_event_alt:
  "update_event i f t = Inr ([], None,
     fold (\<lambda>old. gc_update_ev_update old (f old)) (filter (\<lambda>e. e_id e = i) (Events t))
       (t\<lparr>Events := map (update_at i f) (Events t)\<rparr>))"
  by (simp add: update_event_def update_at_def [abs_def])

lemma update_event_absent:
  assumes "\<forall>e\<in>set (Events t). e_id e \<noteq> i"
  shows "update_event i f t = Inr ([], None, t)"
proof -
  from assms have "map (update_at i f) (Events t) = Events t"
    by (simp add: update_at_def map_idI)
  moreover from assms have "filter (\<lambda>e. e_id e = i) (Events t) = []"
    by (simp add: filter_empty_conv)
  ultimately show ?thesis by (simp add: update_event_alt)
qed

lemma update_event_present:
  assumes "events_wf t" and "e \<in> set (Events t)"
  shows "update_event (e_id e) f t = Inr ([], None,
     gc_update_ev_update e (f e) (t\<lparr>Events := map (update_at (e_id e) f) (Events t)\<rparr>))"
  using assms filter_key_unique [of e_id "Events t" e]
  by (simp add: update_event_alt events_wf_def)

lemma update_event_Events:
  "update_event i f t = Inr (rs, k, t') \<Longrightarrow> Events t' = map (update_at i f) (Events t)"
proof -
  have "Events (fold (\<lambda>old. gc_update_ev_update old (f old)) es u) = Events u" for es u
    by (induction es arbitrary: u) (auto simp: gc_update_ev_update_def split: option.split)
  then show "update_event i f t = Inr (rs, k, t') \<Longrightarrow> ?thesis"
    by (auto simp: update_event_alt)
qed

lemma group_events_update:
  assumes "keeps_keys f"
  shows "group_events (t\<lparr>Events := map (update_at i f) (Events t)\<rparr>) g =
     map (update_at i f) (group_events t g)"
  by (simp add: group_events_def filter_map_swap update_at_keys [OF assms])

lemma reads_update:
  assumes wf: "events_wf t" and e: "e \<in> set (Events t)"
  shows "sum_list (map e_is_read (map (update_at (e_id e) f) (group_events t g))) =
     sum_list (map e_is_read (group_events t g)) +
     (if e_group_uid e = Some g then e_is_read (f e) - e_is_read e else 0)"
proof (cases "e_group_uid e = Some g")
  case True
  have "sum_list (map (e_is_read \<circ> update_at (e_id e) f) (group_events t g)) =
      sum_list (map e_is_read (group_events t g)) - e_is_read e
        + (e_is_read \<circ> update_at (e_id e) f) e"
  proof (rule sum_list_update_one [where key = e_id])
    from wf show "distinct (map e_id (group_events t g))"
      by (simp add: group_events_def events_wf_def distinct_map_filterI)
    from e True show "e \<in> set (group_events t g)" by simp
  qed (simp add: update_at_def)
  with True show ?thesis by (simp add: update_at_def)
next
  case False
  have "map (update_at (e_id e) f) (group_events t g) = group_events t g"
  proof (rule map_idI)
    fix x assume "x \<in> set (group_events t g)"
    with False events_wf_inj [OF wf _ e] show "update_at (e_id e) f x = x"
      by (auto simp: update_at_def)
  qed
  with False show ?thesis by simp
qed

text \<open>The cache of a table whose row \<open>e\<close> was replaced by \<open>f e\<close>, as the trigger leaves it.\<close>

definition cache_adjust :: "event_row \<Rightarrow> event_row \<Rightarrow> cache_row \<Rightarrow> cache_row" where
  "cache_adjust old new c =
     (if e_group_uid new = Some (gc_group_uid c)
      then c\<lparr>gc_read_events := gc_read_events c - e_is_read old + e_is_read new,
             gc_flags := (gc_flags c AND NOT (e_flags old)) OR e_flags new\<rparr>
      else c)"

lemma gc_update_ev_update_alt:
  "gc_update_ev_update old new t = t\<lparr>GroupCache := map (cache_adjust old new) (GroupCache t)\<rparr>"
  by (cases "e_group_uid new")
    (auto simp: gc_update_ev_update_def cache_adjust_def map_idI intro!: tables.equality)

lemma cache_adjust_sel [simp]:
  "gc_group_uid (cache_adjust old new c) = gc_group_uid c"
  "gc_event_id (cache_adjust old new c) = gc_event_id c"
  "gc_service_id (cache_adjust old new c) = gc_service_id c"
  "gc_total_events (cache_adjust old new c) = gc_total_events c"
  by (simp_all add: cache_adjust_def)

lemma update_event_cache_ok:
  assumes ok: "cache_ok t" and f: "keeps_keys f" and up: "update_event i f t = Inr (rs, k, t')"
  shows "cache_ok t'"
proof (cases "\<exists>e\<in>set (Events t). e_id e = i")
  case False
  with up ok show ?thesis by (simp add: update_event_absent)
next
  case True
  then obtain e where e: "e \<in> set (Events t)" "i = e_id e" by blast
  let ?u = "t\<lparr>Events := map (update_at (e_id e) f) (Events t)\<rparr>"
  note wf = cache_okD(1) [OF ok]
  from up e have t': "t' = ?u\<lparr>GroupCache := map (cache_adjust e (f e)) (GroupCache t)\<rparr>"
    by (simp add: update_event_present [OF wf] gc_update_ev_update_alt)
  have keys: "e_id (update_at i f x) = e_id x" "e_group_uid (update_at i f x) = e_group_uid x"
    "e_service_id (update_at i f x) = e_service_id x" for i x
    using update_at_keys [OF f] by auto
  have fe: "e_group_uid (f e) = e_group_uid e" using f by (simp add: keeps_keys_def)
  have "cache_row_ok t' (cache_adjust e (f e) c)" if "c \<in> set (GroupCache t)" for c
    using cache_okD(3) [OF ok that] reads_update [OF wf e(1), of f "gc_group_uid c"]
    by (auto simp: t' cache_row_ok_def group_events_update [OF f] keys image_image fe
        simp del: set_group_events map_map) (simp_all add: cache_adjust_def fe)
  moreover have "events_wf t'"
    using wf by (simp add: t' events_wf_def keys comp_def)
  ultimately show ?thesis
    using ok by (simp add: cache_ok_alt groups_cached_iff cached_group_def t' keys image_image comp_def)
qed

section \<open>Deleting events and rebuilding the cache\<close>

lemma fold_fkd [simp]:
  "Events (fold fkd_headers_atts_event_id es t) = Events t"
  "GroupCache (fold fkd_headers_atts_event_id es t) = GroupCache t"
  by (induction es arbitrary: t) (simp_all add: fkd_headers_atts_event_id_def)

lemma delete_events_result:
  "delete_events_where P t = Inr (rs, i, t') \<Longrightarrow>
   rs = [] \<and> Events t' = filter (\<lambda>e. \<not> P e) (Events t) \<and> GroupCache t' = GroupCache t"
  by (auto simp: delete_events_where_def)

lemma events_wf_filter: "events_wf t \<Longrightarrow> Events t' = filter P (Events t) \<Longrightarrow> events_wf t'"
  by (simp add: events_wf_def distinct_map_filterI)

lemma delete_events_but:
  assumes ok: "cache_ok t" and del: "delete_events_where P t = Inr (rs, i, t')"
    and S: "\<And>e g. e \<in> set (Events t) \<Longrightarrow> P e \<Longrightarrow> e_group_uid e = Some g \<Longrightarrow> g \<in> S"
  shows "cache_but S t'"
proof -
  from del have ev: "Events t' = filter (\<lambda>e. \<not> P e) (Events t)" and gc: "GroupCache t' = GroupCache t"
    using delete_events_result by blast+
  have "cache_row_stale t' c" if "c \<in> set (GroupCache t)" for c
    using cache_row_ok_stale [OF cache_okD(1,3) [OF ok], OF that] by (simp add: cache_row_stale_def ev)
  moreover have "cache_row_ok t' c" if c: "c \<in> set (GroupCache t)" and "gc_group_uid c \<notin> S" for c
  proof -
    from S that have "group_events t' (gc_group_uid c) = group_events t (gc_group_uid c)"
      by (auto simp: group_events_def ev intro!: filter_cong)
    with cache_okD(3) [OF ok c] show ?thesis using cache_row_ok_cong by blast
  qed
  ultimately show ?thesis
    using ok events_wf_filter [OF cache_okD(1) [OF ok] ev]
    by (auto simp: cache_but_def cache_ok_alt groups_cached_iff cached_group_def ev gc)
qed

text \<open>The newest event of a non-empty list.\<close>

lemma newest_props:
  "newest m es \<in> insert m (set es) \<and> e_id m \<le> e_id (newest m es) \<and>
   (\<forall>e\<in>set es. e_id e \<le> e_id (newest m es))"
proof (induction es arbitrary: m)
  case Nil
  show ?case by simp
next
  case (Cons a es)
  show ?case
    using Cons.IH [of "if e_id m < e_id a then a else m"] by (auto split: if_splits)
qed

lemma summary_row_sel [simp]:
  "gc_group_uid (summary_row g es) = g"
  "gc_total_events (summary_row g es) = int (length es)"
  "gc_read_events (summary_row g es) = sum_list (map e_is_read es)"
  "gc_flags (summary_row g es) = sum_list (map e_flags es)"
  by (simp_all add: summary_row_def Let_def)

lemma summary_row_newest:
  assumes "es \<noteq> []"
  obtains m where "m \<in> set es" and "gc_event_id (summary_row g es) = e_id m"
    and "gc_service_id (summary_row g es) = e_service_id m" and "\<forall>e\<in>set es. e_id e \<le> e_id m"
proof -
  from assms obtain a as where es: "es = a # as" by (cases es) auto
  show ?thesis
    using newest_props [of a as]
    by (intro that [of "newest a as"]) (auto simp: es summary_row_def Let_def)
qed

text \<open>
  In a cache that is at most stale, replacing a group's row removes exactly the old row of
  that group: no other row can conflict.
\<close>

lemma cache_butD:
  assumes "cache_but S t" and "c \<in> set (GroupCache t)"
  shows "cache_row_stale t c"
  using assms cache_row_ok_stale [of t c] by (auto simp: cache_but_def split: if_splits)

lemma group_services:
  assumes but: "cache_but S t" and e: "e \<in> set (group_events t g)"
    and c: "c \<in> set (GroupCache t)" "gc_group_uid c = g"
  shows "e_service_id e = gc_service_id c"
  using cache_butD [OF but c(1)] e c(2) by (simp add: cache_row_stale_def)

lemma replace_cache_row_update:
  assumes but: "cache_but S t" and ne: "group_events t g \<noteq> []"
  shows "replace_cache_row (summary_row g (group_events t g)) (GroupCache t) =
     filter (\<lambda>c. gc_group_uid c \<noteq> g) (GroupCache t) @ [summary_row g (group_events t g)]"
proof -
  obtain m where m: "m \<in> set (group_events t g)"
    "gc_event_id (summary_row g (group_events t g)) = e_id m"
    "gc_service_id (summary_row g (group_events t g)) = e_service_id m"
    by (rule summary_row_newest [OF ne])
  have eq: "(gc_event_id c \<noteq> e_id m \<and> \<not> (gc_service_id c = e_service_id m \<and> gc_group_uid c = g))
      \<longleftrightarrow> gc_group_uid c \<noteq> g" if c: "c \<in> set (GroupCache t)" for c
  proof (cases "gc_group_uid c = g")
    case True
    with group_services [OF but m(1) c] show ?thesis by simp
  next
    case False
    have "e_id m = gc_event_id c \<longrightarrow> e_group_uid m = Some (gc_group_uid c)"
      using cache_butD [OF but c] m(1) by (auto simp: cache_row_stale_def)
    with m(1) False show ?thesis by auto
  qed
  show ?thesis
    unfolding replace_cache_row_def m(2,3) summary_row_sel
    by (simp only: filter_cong [OF refl eq])
qed

lemma refresh_one_group:
  assumes but: "cache_but S t" and ne: "group_events t g \<noteq> []"
  shows "cache_but (S - {g})
     (t\<lparr>GroupCache := replace_cache_row (summary_row g (group_events t g)) (GroupCache t)\<rparr>)"
proof -
  obtain m where m: "m \<in> set (group_events t g)"
    "gc_event_id (summary_row g (group_events t g)) = e_id m"
    "gc_service_id (summary_row g (group_events t g)) = e_service_id m"
    "\<forall>e\<in>set (group_events t g). e_id e \<le> e_id m"
    by (rule summary_row_newest [OF ne])
  have "g \<in> gc_group_uid ` set (GroupCache t)"
    using but m(1) by (auto simp: cache_but_def groups_cached_iff cached_group_def)
  then obtain c where c: "c \<in> set (GroupCache t)" "gc_group_uid c = g" by auto
  have "\<forall>e\<in>set (group_events t g). e_service_id e = gc_service_id c"
    using group_services [OF but _ c] by blast
  moreover have "gc_service_id (summary_row g (group_events t g)) = gc_service_id c"
    using m(3) group_services [OF but m(1) c] by (rule trans)
  ultimately have row: "cache_row_ok t (summary_row g (group_events t g))"
    using m(1,2,4) by (simp add: cache_row_ok_def del: set_group_events)
  let ?n = "summary_row g (group_events t g)"
  have same: "cache_row_ok (t\<lparr>GroupCache := gcs\<rparr>) d = cache_row_ok t d"
    "cache_row_stale (t\<lparr>GroupCache := gcs\<rparr>) d = cache_row_stale t d" for gcs d
    by (simp_all add: cache_row_ok_def cache_row_stale_def)
  show ?thesis
    unfolding replace_cache_row_update [OF assms]
  proof (rule cache_butI; (unfold same)?)
    show "distinct (map gc_group_uid (GroupCache
        (t\<lparr>GroupCache := filter (\<lambda>c. gc_group_uid c \<noteq> g) (GroupCache t) @ [?n]\<rparr>)))"
      using cache_but_distinct [OF but] by (auto simp: distinct_map_filterI)
  next
    fix e h assume "e \<in> set (Events (t\<lparr>GroupCache :=
        filter (\<lambda>c. gc_group_uid c \<noteq> g) (GroupCache t) @ [?n]\<rparr>))" "e_group_uid e = Some h"
    then have "h \<in> gc_group_uid ` set (GroupCache t)" using cache_but_cached [OF but] by simp
    then show "h \<in> gc_group_uid ` set (GroupCache (t\<lparr>GroupCache :=
        filter (\<lambda>c. gc_group_uid c \<noteq> g) (GroupCache t) @ [?n]\<rparr>))" by auto
  qed (use cache_but_wf [OF but] cache_butD [OF but] cache_but_ok [OF but] row in auto)
qed

lemma refresh_groups_fold:
  assumes "cache_but S t" and "\<forall>g\<in>set gs. group_events t g \<noteq> []"
  shows "cache_but (S - set gs)
     (t\<lparr>GroupCache := fold (\<lambda>g. replace_cache_row (summary_row g (group_events t g))) gs
          (GroupCache t)\<rparr>)"
  using assms
proof (induction gs arbitrary: S t)
  case Nil
  then show ?case by simp
next
  case (Cons g gs)
  let ?t = "t\<lparr>GroupCache := replace_cache_row (summary_row g (group_events t g)) (GroupCache t)\<rparr>"
  have "cache_but (S - {g}) ?t"
    using Cons.prems by (intro refresh_one_group) auto
  from Cons.IH [OF this] Cons.prems(2) show ?case
    by (simp add: Diff_insert2 [symmetric])
qed

lemma refresh_groups_but:
  assumes but: "cache_but S t" and re: "refresh_groups gs t = Inr (rs, i, t')"
  shows "cache_but {g \<in> S. g \<in> set gs \<longrightarrow> group_events t g = []} t' \<and> Events t' = Events t"
proof -
  let ?gs = "filter (\<lambda>g. group_events t g \<noteq> []) (remdups gs)"
  from re have t': "t' = t\<lparr>GroupCache :=
      fold (\<lambda>g. replace_cache_row (summary_row g (group_events t g))) ?gs (GroupCache t)\<rparr>"
    by (simp add: refresh_groups_def)
  have "cache_but (S - set ?gs) t'"
    unfolding t' by (rule refresh_groups_fold [OF but]) simp
  moreover have "S - set ?gs = {g \<in> S. g \<in> set gs \<longrightarrow> group_events t g = []}" by auto
  ultimately show ?thesis by (simp add: t')
qed

lemma drop_empty_groups_ok:
  assumes but: "cache_but S t" and S: "\<forall>g\<in>S. group_events t g = []"
    and dr: "drop_empty_groups t = Inr (rs, i, t')"
  shows "cache_ok t'"
proof -
  from dr have t': "t' = t\<lparr>GroupCache :=
      filter (\<lambda>c. group_events t (gc_group_uid c) \<noteq> []) (GroupCache t)\<rparr>"
    by (simp add: drop_empty_groups_def)
  have "cache_row_ok t c" if "c \<in> set (GroupCache t)" "group_events t (gc_group_uid c) \<noteq> []" for c
    using but S that by (auto simp: cache_but_def split: if_splits)
  moreover have "g \<in> gc_group_uid ` set (GroupCache t')"
    if "e \<in> set (Events t)" "e_group_uid e = Some g" for e g
  proof -
    from cache_but_cached [OF but that] obtain c where c: "c \<in> set (GroupCache t)" "gc_group_uid c = g"
      by auto
    with that have "group_events t (gc_group_uid c) \<noteq> []"
      by (auto simp: group_events_def filter_empty_conv)
    with c show ?thesis by (auto simp: t')
  qed
  ultimately show ?thesis
    using cache_but_wf [OF but] cache_but_distinct [OF but]
    by (intro cache_okI) (simp_all add: t' distinct_map_filterI cache_row_ok_def)
qed

text \<open>
  What deleting events and rebuilding all groups they belonged to comes to: the cache is
  sound again.
\<close>

lemma delete_refresh_drop_ok:
  assumes ok: "cache_ok t" and del: "delete_events_where P t = Inr (r1, i1, t1)"
    and gs: "\<And>e g. e \<in> set (Events t) \<Longrightarrow> P e \<Longrightarrow> e_group_uid e = Some g \<Longrightarrow> g \<in> set gs"
    and re: "refresh_groups gs t1 = Inr (r2, i2, t2)"
    and dr: "drop_empty_groups t2 = Inr (r3, i3, t3)"
  shows "cache_ok t3"
proof -
  have "cache_but (set gs) t1" by (rule delete_events_but [OF ok del gs])
  from refresh_groups_but [OF this re]
  have but: "cache_but {g \<in> set gs. group_events t1 g = []} t2" and ev: "Events t2 = Events t1"
    by (auto cong: conj_cong)
  from ev have "group_events t2 = group_events t1" by (simp add: group_events_def fun_eq_iff)
  with but show ?thesis by (intro drop_empty_groups_ok [OF but _ dr]) simp
qed

text \<open>Deleting whole groups, in both tables.\<close>

lemma delete_whole_groups_ok:
  assumes ok: "cache_ok t" and del: "delete_events_where P t = Inr (r1, i1, t1)"
    and gc: "delete_cache_where Q t1 = Inr (r2, i2, t2)"
    and PQ: "\<And>e c. e \<in> set (Events t) \<Longrightarrow> c \<in> set (GroupCache t) \<Longrightarrow>
       e_group_uid e = Some (gc_group_uid c) \<Longrightarrow> P e \<longleftrightarrow> Q c"
  shows "cache_ok t2"
proof -
  from del gc have ev: "Events t2 = filter (\<lambda>e. \<not> P e) (Events t)"
    and ca: "GroupCache t2 = filter (\<lambda>c. \<not> Q c) (GroupCache t)"
    using delete_events_result [OF del] by (auto simp: delete_cache_where_def)
  have "cache_row_ok t2 c" if c: "c \<in> set (GroupCache t)" and "\<not> Q c" for c
  proof -
    from PQ [OF _ c] \<open>\<not> Q c\<close> have "group_events t2 (gc_group_uid c) = group_events t (gc_group_uid c)"
      by (auto simp: group_events_def ev intro!: filter_cong)
    with cache_okD(3) [OF ok c] show ?thesis using cache_row_ok_cong by blast
  qed
  moreover have "g \<in> gc_group_uid ` set (GroupCache t2)"
    if e: "e \<in> set (Events t2)" "e_group_uid e = Some g" for e g
  proof -
    from e(1) have e': "e \<in> set (Events t)" "\<not> P e" by (auto simp: ev)
    from cache_okD(4) [OF ok e'(1) e(2)] obtain c
      where c: "c \<in> set (GroupCache t)" "gc_group_uid c = g" by auto
    with PQ [OF e'(1) c(1)] e(2) e'(2) have "\<not> Q c" by simp
    with c show ?thesis by (auto simp: ca)
  qed
  ultimately show ?thesis
    using cache_okD(2) [OF ok] events_wf_filter [OF cache_okD(1) [OF ok] ev]
    by (intro cache_okI) (simp_all add: ca distinct_map_filterI)
qed

end
