(* ===== verification/El_Files.thy ===== *)
theory El_Files
  imports El_Logger
begin

text \<open>
  The files of src/eventlogger.c: the directory name \<open>_build_unique_dirname\<close> finds for an
  attachment, and the copy loop of \<open>rtcom_el_add_attachment\<close>.
\<close>

section \<open>Names\<close>

text \<open>\<open>g_build_filename\<close>: one separator between the two parts.\<close>

definition build_filename :: "string \<Rightarrow> string \<Rightarrow> string" where
  "build_filename a b =
     rev (dropWhile (\<lambda>c. c = CHR ''/'') (rev a)) @ ''/'' @ dropWhile (\<lambda>c. c = CHR ''/'') b"

text \<open>
  \<open>gmtime\<close> and \<open>strftime\<close> with the format \<open>%Y%m%d%H%M\<close>, in the proleptic Gregorian calendar;
  the code's buffer has room for a year of four digits.
\<close>

definition pad2 :: "nat \<Rightarrow> string" where
  "pad2 n = [digit (n div 10 mod 10), digit (n mod 10)]"

definition pad4 :: "nat \<Rightarrow> string" where
  "pad4 n = pad2 (n div 100) @ pad2 n"

text \<open>
  Day 0 is 1970-01-01; the computation counts from 0000-03-01, in cycles of 400 years
  of 146097 days.
\<close>

definition civil_from_days :: "int \<Rightarrow> int \<times> int \<times> int" where
  "civil_from_days d =
     (let z = d + 719468;
          era = z div 146097;
          doe = z mod 146097;
          yoe = (doe - doe div 1460 + doe div 36524 - doe div 146096) div 365;
          doy = doe - (365 * yoe + yoe div 4 - yoe div 100);
          mp = (5 * doy + 2) div 153;
          day = doy - (153 * mp + 2) div 5 + 1;
          m = (if mp < 10 then mp + 3 else mp - 9)
      in (yoe + era * 400 + (if m \<le> 2 then 1 else 0), m, day))"

definition time_buf :: "int \<Rightarrow> string" where
  "time_buf t =
     (case civil_from_days (t div 86400) of
        (y, m, d) \<Rightarrow>
          pad4 (nat y) @ pad2 (nat m) @ pad2 (nat d) @
          pad2 (nat (t mod 86400 div 3600)) @ pad2 (nat (t mod 3600 div 60)))"

text \<open>
  The \<open>do ... while\<close> loop: \<open>i\<close> is a \<open>guint\<close>, printed by \<open>%d\<close>. The clock is read once for
  the call. \<open>None\<close>: the loop does not end.
\<close>

definition candidate :: "string \<Rightarrow> string \<Rightarrow> nat \<Rightarrow> string" where
  "candidate parent stamp i =
     build_filename parent stamp @ (if i \<noteq> 0 then ''-'' @ show_int (to_gint (int i)) else [])"

partial_function (option) unique_dirname_loop ::
    "string \<Rightarrow> string \<Rightarrow> (string \<rightharpoonup> fs_node) \<Rightarrow> nat \<Rightarrow> string option" where
  "unique_dirname_loop parent stamp files i =
     (if files (candidate parent stamp i) \<noteq> None
      then unique_dirname_loop parent stamp files ((i + 1) mod 2 ^ 32)
      else Some (candidate parent stamp i))"

declare unique_dirname_loop.simps [code]

definition build_unique_dirname :: "string \<Rightarrow> el \<Rightarrow> string option" where
  "build_unique_dirname parent el = unique_dirname_loop parent (time_buf (now el)) (fs el) 0"

section \<open>Calls of the C library\<close>

definition next_io :: "el \<Rightarrow> nat option \<times> el" where
  "next_io el = (case io el of [] \<Rightarrow> (None, el) | a # as \<Rightarrow> (a, el\<lparr>io := as\<rparr>))"

definition g_mkdir :: "string \<Rightarrow> el \<Rightarrow> bool \<times> el" where
  "g_mkdir path el =
     (case next_io el of
        (Some k, el1) \<Rightarrow> (False, el1)
      | (None, el1) \<Rightarrow>
          if fs el1 path \<noteq> None then (False, el1)
          else (True, el1\<lparr>fs := (fs el1)(path \<mapsto> Dir)\<rparr>))"

definition fopen_read :: "string \<Rightarrow> el \<Rightarrow> string option \<times> el" where
  "fopen_read path el =
     (case next_io el of
        (Some k, el1) \<Rightarrow> (None, el1)
      | (None, el1) \<Rightarrow> (case fs el1 path of Some (File s) \<Rightarrow> (Some s, el1) | _ \<Rightarrow> (None, el1)))"

definition fopen_write :: "string \<Rightarrow> el \<Rightarrow> bool \<times> el" where
  "fopen_write path el =
     (case next_io el of
        (Some k, el1) \<Rightarrow> (False, el1)
      | (None, el1) \<Rightarrow>
          if fs el1 path = Some Dir then (False, el1)
          else (True, el1\<lparr>fs := (fs el1)(path \<mapsto> File [])\<rparr>))"

definition fclose :: "el \<Rightarrow> bool \<times> el" where
  "fclose el = (case next_io el of (a, el1) \<Rightarrow> (a = None, el1))"

section \<open>The copy loop\<close>

text \<open>
  \<open>src\<close> is what is left to read, \<open>dst\<close> what was written. A read that fails after \<open>k\<close> bytes
  returns those, so that a failure before the first byte looks like the end of the file.
  The result tells whether the loop ended without a failed write.
\<close>

definition buffer_size :: nat where
  "buffer_size = 1024"

definition transferred :: "nat option \<Rightarrow> nat \<Rightarrow> nat" where
  "transferred a n = (case a of None \<Rightarrow> n | Some k \<Rightarrow> min k n)"

function copy_loop :: "string \<Rightarrow> string \<Rightarrow> nat option list \<Rightarrow> bool \<times> string \<times> nat option list"
where
  "copy_loop src dst ans =
     (let nread = transferred (case ans of [] \<Rightarrow> None | a # _ \<Rightarrow> a) (min buffer_size (length src));
          ans1 = tl ans
      in if nread = 0 then (True, dst, ans1)
         else let nwritten = transferred (case ans1 of [] \<Rightarrow> None | a # _ \<Rightarrow> a) nread;
                  dst1 = dst @ take nwritten src;
                  ans2 = tl ans1
              in if nwritten \<noteq> nread then (False, dst1, ans2)
                 else copy_loop (drop nread src) dst1 ans2)"
  by pat_completeness auto
termination
  by (relation "measure (\<lambda>(src, _, _). length src)")
    (auto simp: transferred_def buffer_size_def split: option.splits list.splits)

declare copy_loop.simps [simp del]

section \<open>Lemmas\<close>

lemma copy_loop_calm: "copy_loop src dst [] = (True, dst @ src, [])"
proof (induction src dst "[] :: nat option list" rule: copy_loop.induct)
  case (1 src dst)
  show ?case
  proof (cases "src = []")
    case True
    then show ?thesis by (subst copy_loop.simps) (simp add: transferred_def)
  next
    case False
    then have "copy_loop (drop (min buffer_size (length src)) src)
        (dst @ take (min buffer_size (length src)) src) [] = (True, dst @ src, [])"
      using 1 by (simp add: transferred_def buffer_size_def)
    with False show ?thesis
      by (subst copy_loop.simps) (simp add: transferred_def buffer_size_def Let_def)
  qed
qed

text \<open>Whatever fails, the destination holds a prefix of the source.\<close>

lemma copy_loop_prefix:
  "copy_loop src dst ans = (ok, out, ans') \<Longrightarrow> \<exists>k. out = dst @ take k src"
proof (induction src dst ans arbitrary: ok out ans' rule: copy_loop.induct)
  case (1 src dst ans)
  define nread where
    "nread = transferred (case ans of [] \<Rightarrow> None | a # _ \<Rightarrow> a) (min buffer_size (length src))"
  define nwritten where
    "nwritten = transferred (case tl ans of [] \<Rightarrow> None | a # _ \<Rightarrow> a) nread"
  consider "nread = 0" | "nread \<noteq> 0" "nwritten \<noteq> nread" | "nread \<noteq> 0" "nwritten = nread" by blast
  then show ?case
  proof cases
    case 1
    with "1.prems" have "out = dst"
      by (subst (asm) copy_loop.simps) (simp add: nread_def Let_def)
    then show ?thesis by (metis append_Nil2 take_0)
  next
    case 2
    with "1.prems" have "out = dst @ take nwritten src"
      by (subst (asm) copy_loop.simps) (simp add: nread_def nwritten_def Let_def)
    then show ?thesis by blast
  next
    case 3
    with "1.prems" have "copy_loop (drop nread src) (dst @ take nread src) (tl (tl ans)) =
        (ok, out, ans')"
      by (subst (asm) copy_loop.simps) (simp add: nread_def nwritten_def Let_def)
    with "1.IH" 3 obtain k where "out = (dst @ take nread src) @ take k (drop nread src)"
      unfolding nread_def nwritten_def by metis
    then show ?thesis by (metis append.assoc take_add)
  qed
qed

text \<open>The names the loop tries are different, as long as the counter is positive as an int.\<close>

lemma candidate_inj:
  assumes "candidate parent stamp i = candidate parent stamp j" and "i < 2 ^ 31" and "j < 2 ^ 31"
  shows "i = j"
proof -
  have *: "to_gint (int n) = int n" if "n < 2 ^ 31" for n
  proof (rule to_gint_id)
    show "int n < 2 ^ 31" using that by (metis of_nat_less_iff of_nat_numeral of_nat_power)
  qed simp
  with assms show ?thesis
    by (auto simp: candidate_def show_int_def split: if_splits dest: show_nat_inj)
qed

lemma unique_dirname_loop_finds:
  assumes "\<forall>k<m. files (candidate parent stamp (i + k)) \<noteq> None"
    and "files (candidate parent stamp (i + m)) = None" and "i + m < 2 ^ 32"
  shows "unique_dirname_loop parent stamp files i = Some (candidate parent stamp (i + m))"
  using assms
proof (induction m arbitrary: i)
  case 0
  then show ?case by (subst unique_dirname_loop.simps) simp
next
  case (Suc m)
  have "files (candidate parent stamp i) \<noteq> None" using Suc.prems(1) by fastforce
  moreover have "\<forall>k<m. files (candidate parent stamp (Suc i + k)) \<noteq> None"
    using Suc.prems(1) by fastforce
  ultimately show ?case
    using Suc.IH [of "Suc i"] Suc.prems(2,3) by (subst unique_dirname_loop.simps) simp
qed

lemma unique_dirname_new:
  "unique_dirname_loop parent stamp files i = Some u \<Longrightarrow>
     (\<exists>n. u = candidate parent stamp n) \<and> files u = None"
  by (erule unique_dirname_loop.raw_induct
      [where P = "\<lambda>parent stamp files i u. (\<exists>n. u = candidate parent stamp n) \<and> files u = None", rotated])
    (auto split: if_splits)

lemma unique_dirname_exists:
  assumes fin: "finite (dom files)" and card: "card (dom files) < 2 ^ 31"
  shows "\<exists>i. unique_dirname_loop parent stamp files 0 = Some (candidate parent stamp i) \<and>
     files (candidate parent stamp i) = None \<and> i < 2 ^ 31 \<and>
     (\<forall>k<i. files (candidate parent stamp k) \<noteq> None)"
proof -
  have inj: "inj_on (candidate parent stamp) {..<2 ^ 31}"
    using candidate_inj by (intro inj_onI) auto
  have "\<not> candidate parent stamp ` {..<2 ^ 31} \<subseteq> dom files"
  proof
    assume "candidate parent stamp ` {..<2 ^ 31} \<subseteq> dom files"
    from card_mono [OF fin this] have "card {..<(2::nat) ^ 31} \<le> card (dom files)"
      by (simp only: card_image [OF inj])
    with card show False by simp
  qed
  then have "\<exists>i. i < 2 ^ 31 \<and> files (candidate parent stamp i) = None" by auto
  then obtain i where i: "i < 2 ^ 31" "files (candidate parent stamp i) = None"
    and min: "\<forall>k<i. \<not> (k < 2 ^ 31 \<and> files (candidate parent stamp k) = None)"
    using exists_least_iff [of "\<lambda>i. i < 2 ^ 31 \<and> files (candidate parent stamp i) = None"] by auto
  from i(1) min have "\<forall>k<i. files (candidate parent stamp k) \<noteq> None" by fastforce
  with i show ?thesis
    using unique_dirname_loop_finds [of i files parent stamp 0] by auto
qed

end
