(* ===== verification/El_Add.thy ===== *)
theory El_Add
  imports El_Plugin El_Files El_Cache
begin

text \<open>
  Adding events: \<open>_add_event_precheck\<close>, \<open>_add_event_core\<close>, \<open>rtcom_el_add_event\<close>,
  \<open>rtcom_el_add_event_full\<close>, \<open>rtcom_el_add_header\<close> and \<open>rtcom_el_add_attachment\<close> of
  src/eventlogger.c. An operation yields its return value, the error it sets and the new
  state; \<open>None\<close> where the program crashes on a NULL string or loops forever.
\<close>

section \<open>Checks\<close>

text \<open>The renaming of the deprecated event types.\<close>

definition set_event_type :: "string \<Rightarrow> RTComElEvent \<Rightarrow> RTComElEvent" where
  "set_event_type ty = event_set_field F_event_type (\<lambda>e. e\<lparr>fld_event_type := Some ty\<rparr>)"

definition set_outgoing :: "RTComElEvent \<Rightarrow> RTComElEvent" where
  "set_outgoing = event_set_field F_outgoing (\<lambda>e. e\<lparr>fld_outgoing := 1\<rparr>)"

definition rename_event_type :: "RTComElEvent \<Rightarrow> RTComElEvent" where
  "rename_event_type ev =
     (if fld_event_type ev = Some ''RTCOM_EL_EVENTTYPE_CHAT_INBOUND''
      then set_event_type ''RTCOM_EL_EVENTTYPE_CHAT_MESSAGE'' ev
      else if fld_event_type ev = Some ''RTCOM_EL_EVENTTYPE_CHAT_OUTBOUND''
      then set_outgoing (set_event_type ''RTCOM_EL_EVENTTYPE_CHAT_MESSAGE'' ev)
      else if fld_event_type ev = Some ''RTCOM_EL_EVENTTYPE_SMS_INBOUND''
      then set_event_type ''RTCOM_EL_EVENTTYPE_SMS_MESSAGE'' ev
      else if fld_event_type ev = Some ''RTCOM_EL_EVENTTYPE_SMS_OUTBOUND''
      then set_outgoing (set_event_type ''RTCOM_EL_EVENTTYPE_SMS_MESSAGE'' ev)
      else ev)"

text \<open>\<open>Accepted\<close> carries the event as it was changed and the two ids.\<close>

datatype precheck = Crashed | Rejected RTComElError | Accepted RTComElEvent int int

definition add_event_precheck :: "RTComElEvent option \<Rightarrow> el \<Rightarrow> precheck \<times> el" where
  "add_event_precheck evp el0 =
     (case ensure_db True el0 of (opened, el) \<Rightarrow>
      if \<not> opened then (Rejected RTCOM_EL_INTERNAL_ERROR, el)
      else case evp of None \<Rightarrow> (Rejected RTCOM_EL_INVALID_ARGUMENT_ERROR, el) | Some ev \<Rightarrow>
        if \<not> event_is_set ev F_service then (Rejected RTCOM_EL_INVALID_ARGUMENT_ERROR, el)
        else if \<not> event_is_set ev F_event_type then (Rejected RTCOM_EL_INVALID_ARGUMENT_ERROR, el)
        else if \<not> event_is_set ev F_local_uid then (Rejected RTCOM_EL_INVALID_ARGUMENT_ERROR, el)
        else case rtcom_el_get_service_id (fld_service ev) el of
            None \<Rightarrow> (Crashed, el)
          | Some service_id \<Rightarrow>
              if service_id = - 1 then (Rejected RTCOM_EL_INVALID_ARGUMENT_ERROR, el)
              else let ev1 = rename_event_type ev
                in case rtcom_el_get_eventtype_id (fld_event_type ev1) el of
                     None \<Rightarrow> (Crashed, el)
                   | Some eventtype_id \<Rightarrow>
                       if eventtype_id = - 1 then (Rejected RTCOM_EL_INVALID_ARGUMENT_ERROR, el)
                       else if \<not> is_open el then (Rejected RTCOM_EL_INTERNAL_ERROR, el)
                       else (Accepted ev1 service_id eventtype_id, el))"

section \<open>The event and its remote contact\<close>

text \<open>
  \<open>RTCOM_EL_EVENT_IS_SET(ev, f) ? RTCOM_EL_EVENT_GET_FIELD(ev, f) : other\<close>. All the numbers
  of the VALUES list are printed by \<open>%d\<close>, which reads an \<open>int\<close>.
\<close>

definition field_or :: "ev_field \<Rightarrow> RTComElEvent \<Rightarrow> 'a \<Rightarrow> 'a \<Rightarrow> 'a" where
  "field_or f ev v other = (if event_is_set ev f then v else other)"

definition event_values :: "RTComElEvent \<Rightarrow> int \<Rightarrow> int \<Rightarrow> string option \<Rightarrow> int \<Rightarrow> event_row" where
  "event_values ev service_id eventtype_id group_uid t =
     \<lparr>e_id = 0, e_service_id = service_id, e_event_type_id = eventtype_id,
      e_storage_time = to_gint t,
      e_start_time = to_gint (field_or F_start_time ev (fld_start_time ev) 0),
      e_end_time = to_gint (field_or F_end_time ev (fld_end_time ev) 0),
      e_is_read = to_gint (field_or F_is_read ev (fld_is_read ev) 0),
      e_outgoing = to_gint (field_or F_outgoing ev (fld_outgoing ev) 0),
      e_flags = to_gint (field_or F_flags ev (fld_flags ev) 0),
      e_bytes_sent = to_gint (field_or F_bytes_sent ev (fld_bytes_sent ev) 0),
      e_bytes_received = to_gint (field_or F_bytes_received ev (fld_bytes_received ev) 0),
      e_local_uid = field_or F_local_uid ev (fld_local_uid ev) None,
      e_local_name = field_or F_local_name ev (fld_local_name ev) None,
      e_remote_uid = field_or F_remote_uid ev (fld_remote_uid ev) None,
      e_channel = field_or F_channel ev (fld_channel ev) None,
      e_free_text = field_or F_free_text ev (fld_free_text ev) None,
      e_group_uid = group_uid\<rparr>"

record remotes_ctx =
  ctx_exists :: bool
  ctx_abook_uid :: "string option"
  ctx_remote_name :: "string option"

text \<open>
  The callback \<open>_fetch_remote_data\<close> reads columns 1 and 2 of a row of the two columns 0 and
  1, abook_uid and remote_name: it gets the name, and NULL for a column there is not.
\<close>

definition column_text :: "string option list \<Rightarrow> nat \<Rightarrow> string option" where
  "column_text row n = (if n < length row then row ! n else None)"

definition fetch_remote_data :: "string option \<times> string option \<Rightarrow> remotes_ctx \<Rightarrow> remotes_ctx" where
  "fetch_remote_data row ctx =
     (case row of (abook_uid, remote_name) \<Rightarrow>
        \<lparr>ctx_exists = True,
         ctx_abook_uid = column_text [abook_uid, remote_name] 1,
         ctx_remote_name = column_text [abook_uid, remote_name] 2\<rparr>)"

definition update_remote_abook ::
    "string option \<Rightarrow> string option \<Rightarrow> string option \<Rightarrow> unit stmt" where
  "update_remote_abook ruid luid abook =
     update_remotes (remote_is ruid luid) (\<lambda>r. r\<lparr>rm_abook_uid := abook\<rparr>)"

definition update_remote_name ::
    "string option \<Rightarrow> string option \<Rightarrow> string option \<Rightarrow> unit stmt" where
  "update_remote_name ruid luid name =
     update_remotes (remote_is ruid luid) (\<lambda>r. r\<lparr>rm_remote_name := name\<rparr>)"

text \<open>What happens to Remotes after the event was inserted; \<open>False\<close> is \<open>db_error\<close>.\<close>

definition store_remote :: "RTComElEvent \<Rightarrow> remotes_ctx \<Rightarrow> el \<Rightarrow> bool \<times> el" where
  "store_remote ev ctx el =
     (let ruid = fld_remote_uid ev;
          luid = fld_local_uid ev;
          new_abook_uid = field_or F_remote_ebook_uid ev (fld_remote_ebook_uid ev) None;
          new_remote_name = field_or F_remote_name ev (fld_remote_name ev) None
      in if \<not> event_is_set ev F_remote_uid then (True, el)
         else if \<not> ctx_exists ctx
         then (case rtcom_el_db_exec
                      (Stmt (insert_remote luid ruid new_remote_name new_abook_uid) :: unit sql) el of
                 (ok, _, _, el1) \<Rightarrow> (ok, el1))
         else
           (case (if g_strcmp0_differs new_abook_uid (ctx_abook_uid ctx)
                  then rtcom_el_db_exec (Stmt (update_remote_abook ruid luid new_abook_uid)) el
                  else (True, [], None, el)) of
              (ok1, _, _, el1) \<Rightarrow>
            if \<not> ok1 then (False, el1)
            else
              (case (if g_strcmp0_differs new_remote_name (ctx_remote_name ctx)
                     then rtcom_el_db_exec (Stmt (update_remote_name ruid luid new_remote_name)) el1
                     else (True, [], None, el1)) of
                 (ok2, _, _, el2) \<Rightarrow> (ok2, el2))))"

definition core_error :: "el \<Rightarrow> RTComElError" where
  "core_error el =
     (if errcode el = Some SQLITE_FULL \<or> errcode el = Some SQLITE_IOERR then RTCOM_EL_DATABASE_FULL
      else if errcode el = Some SQLITE_BUSY then RTCOM_EL_TEMPORARY_ERROR
      else RTCOM_EL_INTERNAL_ERROR)"

definition remember_group :: "RTComElEvent \<Rightarrow> el \<Rightarrow> el" where
  "remember_group ev el =
     (if event_is_set ev F_group_uid then el\<lparr>last_group_uid := fld_group_uid ev\<rparr> else el)"

definition look_up_remote :: "RTComElEvent \<Rightarrow> el \<Rightarrow> bool \<times> remotes_ctx \<times> el" where
  "look_up_remote ev el =
     (let none = \<lparr>ctx_exists = False, ctx_abook_uid = None, ctx_remote_name = None\<rparr>
      in if \<not> event_is_set ev F_remote_uid then (True, none, el)
         else case rtcom_el_db_exec (Stmt (select_remote (fld_remote_uid ev) (fld_local_uid ev))) el of
                (ok, rows, _, el1) \<Rightarrow> (ok, fold fetch_remote_data rows none, el1))"

definition add_event_core ::
    "RTComElEvent \<Rightarrow> int \<Rightarrow> int \<Rightarrow> el \<Rightarrow> int \<times> RTComElError option \<times> el" where
  "add_event_core ev service_id eventtype_id el0 =
     (let el = remember_group ev el0
      in case look_up_remote ev el of (ok1, ctx, el1) \<Rightarrow>
         if \<not> ok1 then (- 1, Some (core_error el1), el1)
         else case rtcom_el_db_exec (Stmt (insert_event
                  (event_values ev service_id eventtype_id
                     (field_or F_group_uid ev (fld_group_uid ev) (last_group_uid el1))
                     (now el1))) :: unit sql) el1 of
                (ok2, _, _, el2) \<Rightarrow>
                  if \<not> ok2 then (- 1, Some (core_error el2), el2)
                  else let event_id = to_gint (last_rowid el2)
                    in case store_remote ev ctx el2 of
                         (ok3, el3) \<Rightarrow>
                           if \<not> ok3 then (- 1, Some (core_error el3), el3)
                           else (event_id, None, el3))"

section \<open>Adding an event\<close>

definition add_event_body ::
    "RTComElEvent \<Rightarrow> int \<Rightarrow> int \<Rightarrow> el \<Rightarrow> (int option \<times> RTComElError option \<times> el) option" where
  "add_event_body ev service_id eventtype_id el =
     (case add_event_core ev service_id eventtype_id el of
        (event_id, e, el1) \<Rightarrow> Some (if event_id = - 1 then None else Some event_id, e, el1))"

text \<open>The end of both operations: the result, and the signal for a positive id.\<close>

definition announce_event ::
    "RTComElEvent \<Rightarrow> int option \<times> RTComElError option \<times> el \<Rightarrow> int \<times> RTComElError option \<times> el"
where
  "announce_event ev r =
     (case r of
        (None, e, el) \<Rightarrow> (- 1, e, el)
      | (Some event_id, _, el) \<Rightarrow>
          (event_id, None,
           if 0 < event_id then emit_dbus ''NewEvent'' event_id (fld_service ev) el else el))"

definition rtcom_el_add_event ::
    "RTComElEvent option \<Rightarrow> el \<Rightarrow> (int \<times> RTComElError option \<times> el) option" where
  "rtcom_el_add_event evp el0 =
     (case add_event_precheck evp el0 of
        (Crashed, _) \<Rightarrow> None
      | (Rejected e, el) \<Rightarrow> Some (- 1, Some e, el)
      | (Accepted ev service_id eventtype_id, el) \<Rightarrow>
          map_option (announce_event ev)
            (in_transaction True (add_event_body ev service_id eventtype_id) el))"

section \<open>Headers and attachments\<close>

definition rtcom_el_add_header ::
    "int \<Rightarrow> string option \<Rightarrow> string option \<Rightarrow> el \<Rightarrow> int \<times> RTComElError option \<times> el" where
  "rtcom_el_add_header event_id header val el0 =
     (if event_id < 1 then (- 1, Some RTCOM_EL_INVALID_ARGUMENT_ERROR, el0)
      else if header = None then (- 1, Some RTCOM_EL_INVALID_ARGUMENT_ERROR, el0)
      else if val = None then (- 1, Some RTCOM_EL_INVALID_ARGUMENT_ERROR, el0)
      else case ensure_db True el0 of (opened, el) \<Rightarrow>
        if \<not> opened then (- 1, Some RTCOM_EL_INTERNAL_ERROR, el)
        else case rtcom_el_db_exec (Stmt (insert_header event_id header val) :: unit sql) el of
               (ok, _, e, el1) \<Rightarrow>
                 if \<not> ok then (- 1, e, el1) else (to_gint (last_rowid el1), None, el1))"

definition attachments_dir :: "el \<Rightarrow> string" where
  "attachments_dir el =
     build_filename (build_filename (home el) ''.rtcom-eventlogger'') ''attachments''"

text \<open>\<open>copy_file src dest_path\<close>: from \<open>fopen\<close> to the second \<open>fclose\<close>.\<close>

definition copy_file :: "string \<Rightarrow> string \<Rightarrow> el \<Rightarrow> bool \<times> el" where
  "copy_file path dest_path el =
     (case fopen_read path el of
        (None, el1) \<Rightarrow> (False, el1)
      | (Some content, el1) \<Rightarrow>
          (case fopen_write dest_path el1 of
             (False, el2) \<Rightarrow> (False, snd (fclose el2))
           | (True, el2) \<Rightarrow>
               (case copy_loop content [] (io el2) of
                  (copied, out, ans) \<Rightarrow>
                    let el3 = el2\<lparr>fs := (fs el2)(dest_path \<mapsto> File out), io := ans\<rparr>
                    in if \<not> copied then (False, snd (fclose (snd (fclose el3))))
                       else case fclose el3 of
                              (False, el4) \<Rightarrow> (False, snd (fclose el4))
                            | (True, el4) \<Rightarrow> fclose el4)))"

definition rtcom_el_add_attachment ::
    "int \<Rightarrow> string option \<Rightarrow> string option \<Rightarrow> el \<Rightarrow> (int \<times> RTComElError option \<times> el) option" where
  "rtcom_el_add_attachment event_id path desc el0 =
     (case ensure_db True el0 of (opened, el) \<Rightarrow>
      if \<not> opened then Some (- 1, Some RTCOM_EL_INTERNAL_ERROR, el)
      else if event_id < 0 then Some (- 1, Some RTCOM_EL_INVALID_ARGUMENT_ERROR, el)
      else case path of
          None \<Rightarrow> Some (- 1, Some RTCOM_EL_INVALID_ARGUMENT_ERROR, el)
        | Some p \<Rightarrow>
            let dir = attachments_dir el
            in case (if fs el dir = None then g_mkdir dir el else (True, el)) of (ok1, el1) \<Rightarrow>
               if \<not> ok1 then Some (- 1, Some RTCOM_EL_INTERNAL_ERROR, el1)
               else case build_unique_dirname dir el1 of
                   None \<Rightarrow> None
                 | Some unique_dir \<Rightarrow>
                     (case g_mkdir unique_dir el1 of (ok2, el2) \<Rightarrow>
                      if \<not> ok2 then Some (- 1, Some RTCOM_EL_INTERNAL_ERROR, el2)
                      else let dest_path = build_filename unique_dir (basename el2 p)
                        in case copy_file p dest_path el2 of (ok3, el3) \<Rightarrow>
                           if \<not> ok3 then Some (- 1, Some RTCOM_EL_INTERNAL_ERROR, el3)
                           else case rtcom_el_db_exec
                                       (Stmt (insert_attachment event_id dest_path desc) :: unit sql) el3 of
                                  (ok4, _, e, el4) \<Rightarrow>
                                    Some (if \<not> ok4 then (- 1, e, el4)
                                          else (to_gint (last_rowid el4), None, el4))))"

section \<open>Adding an event with its headers and attachments\<close>

fun add_attachments ::
    "int \<Rightarrow> (string option \<times> string option) list \<Rightarrow> el \<Rightarrow> (bool \<times> RTComElError option \<times> el) option"
where
  "add_attachments event_id [] el = Some (True, None, el)"
| "add_attachments event_id ((path, desc) # atts) el =
     (case rtcom_el_add_attachment event_id path desc el of
        None \<Rightarrow> None
      | Some (r, e, el1) \<Rightarrow>
          if r = - 1 then Some (False, e, el1) else add_attachments event_id atts el1)"

fun add_headers ::
    "int \<Rightarrow> (string option \<times> string option) list \<Rightarrow> el \<Rightarrow> bool \<times> RTComElError option \<times> el" where
  "add_headers event_id [] el = (True, None, el)"
| "add_headers event_id ((hk, hv) # hs) el =
     (case rtcom_el_add_header event_id hk hv el of
        (r, e, el1) \<Rightarrow> if r = - 1 then (False, e, el1) else add_headers event_id hs el1)"

definition add_event_full_body ::
    "RTComElEvent \<Rightarrow> (string option \<times> string option) list \<Rightarrow> (string option \<times> string option) list
      \<Rightarrow> int \<Rightarrow> int \<Rightarrow> el \<Rightarrow> (int option \<times> RTComElError option \<times> el) option" where
  "add_event_full_body ev headers attachments service_id eventtype_id el =
     (case add_event_core ev service_id eventtype_id el of
        (event_id, e, el1) \<Rightarrow>
          if event_id = - 1 then Some (None, e, el1)
          else case add_attachments event_id attachments el1 of
                 None \<Rightarrow> None
               | Some (ok, e2, el2) \<Rightarrow>
                   if \<not> ok then Some (None, e2, el2)
                   else case add_headers event_id headers el2 of
                          (ok3, e3, el3) \<Rightarrow>
                            Some (if ok3 then Some event_id else None, e3, el3))"

text \<open>
  \<open>headers\<close> lists the entries of the hash table in the order of the iteration,
  \<open>attachments\<close> the (path, desc) pairs.
\<close>

definition rtcom_el_add_event_full ::
    "RTComElEvent option \<Rightarrow> (string option \<times> string option) list \<Rightarrow> (string option \<times> string option) list
      \<Rightarrow> el \<Rightarrow> (int \<times> RTComElError option \<times> el) option" where
  "rtcom_el_add_event_full evp headers attachments el0 =
     (case add_event_precheck evp el0 of
        (Crashed, _) \<Rightarrow> None
      | (Rejected e, el) \<Rightarrow> Some (- 1, Some e, el)
      | (Accepted ev service_id eventtype_id, el) \<Rightarrow>
          map_option (announce_event ev)
            (in_transaction True
               (add_event_full_body ev headers attachments service_id eventtype_id) el))"

section \<open>Lemmas: the steps of the core\<close>

definition only_remotes :: "tables \<Rightarrow> tables \<Rightarrow> bool" where
  "only_remotes t t' \<longleftrightarrow> (\<exists>rs. t' = t\<lparr>Remotes := rs\<rparr>)"

lemma only_remotes_refl [simp]: "only_remotes t t"
  unfolding only_remotes_def by (rule exI [of _ "Remotes t"]) simp

lemma only_remotes_trans: "only_remotes t u \<Longrightarrow> only_remotes u v \<Longrightarrow> only_remotes t v"
  unfolding only_remotes_def by auto

lemma only_remotes_same:
  "only_remotes t t' \<Longrightarrow> Events t' = Events t \<and> GroupCache t' = GroupCache t \<and>
     Headers t' = Headers t \<and> Attachments t' = Attachments t"
  by (auto simp: only_remotes_def)

lemma remember_group_db [simp]:
  "tb (remember_group ev el) = tb el" "txn (remember_group ev el) = txn el"
  "journal (remember_group ev el) = journal el" "now (remember_group ev el) = now el"
  "script (remember_group ev el) = script el" "is_open (remember_group ev el) = is_open el"
  "bus_up (remember_group ev el) = bus_up el" "sent (remember_group ev el) = sent el"
  by (simp_all add: remember_group_def)

lemma remember_group_keeps: "keeps_txn ok (remember_group ev el) el' \<Longrightarrow> keeps_txn ok el el'"
  by (simp add: keeps_txn_def)

lemma look_up_remote_keeps:
  assumes "look_up_remote ev el = (ok, ctx, el')"
  shows "keeps_txn ok el el' \<and> quiet el el' \<and> (ok \<longrightarrow> tb el' = tb el \<and> txn el' = txn el)"
proof (cases "event_is_set ev F_remote_uid")
  case False
  with assms show ?thesis by (auto simp: look_up_remote_def Let_def keeps_txn_refl)
next
  case True
  with assms obtain rows e where ex: "rtcom_el_db_exec
      (Stmt (select_remote (fld_remote_uid ev) (fld_local_uid ev))) el = (ok, rows, e, el')"
    by (auto simp: look_up_remote_def Let_def split: prod.splits)
  have sel: "select_remote (fld_remote_uid ev) (fld_local_uid ev) = select_rows (\<lambda>t.
      map (\<lambda>r. (rm_abook_uid r, rm_remote_name r))
        (filter (remote_is (fld_remote_uid ev) (fld_local_uid ev)) (Remotes t)))"
    by (simp add: fun_eq_iff select_remote_def select_rows_def)
  have "ok \<longrightarrow> tb el' = tb el \<and> txn el' = txn el"
    using exec_stmt_ok [of "select_remote (fld_remote_uid ev) (fld_local_uid ev)" el rows e el'] ex
    by (auto simp: select_remote_def)
  with keeps_txn_exec [OF ex] exec_select_quiet [OF ex [unfolded sel]] show ?thesis by simp
qed

lemma exec_remotes:
  fixes f :: "unit stmt"
  assumes "rtcom_el_db_exec (Stmt f) d = (True, rows, e, d')"
    and "\<And>t rs i t'. f t = Inr (rs, i, t') \<Longrightarrow> only_remotes t t'"
  shows "only_remotes (tb d) (tb d')"
  using exec_stmt_ok [OF assms(1)] assms(2) by blast

lemma insert_remote_only:
  "insert_remote l r n a t = Inr (rs, i, t') \<Longrightarrow> only_remotes t t'"
  by (auto simp: insert_remote_def only_remotes_def split: option.splits if_splits)

lemma update_remotes_only: "update_remotes P f t = Inr (rs, i, t') \<Longrightarrow> only_remotes t t'"
  by (auto simp: update_remotes_def only_remotes_def)

lemma exec_update_remote:
  "rtcom_el_db_exec (Stmt (update_remote_abook r l a)) d = (True, rows, e, d') \<Longrightarrow>
     only_remotes (tb d) (tb d')"
  "rtcom_el_db_exec (Stmt (update_remote_name r l n)) d = (True, rows, e, d') \<Longrightarrow>
     only_remotes (tb d) (tb d')"
  by (erule exec_remotes,
      auto simp: update_remote_abook_def update_remote_name_def intro: update_remotes_only)+

lemma store_remote_keeps:
  assumes "store_remote ev ctx el = (ok, el')"
  shows "keeps_txn ok el el' \<and> db.more el' = db.more el \<and> (ok \<longrightarrow> only_remotes (tb el) (tb el'))"
proof -
  let ?ruid = "fld_remote_uid ev" and ?luid = "fld_local_uid ev"
  let ?abook = "field_or F_remote_ebook_uid ev (fld_remote_ebook_uid ev) None"
  let ?name = "field_or F_remote_name ev (fld_remote_name ev) None"
  consider "\<not> event_is_set ev F_remote_uid" | "event_is_set ev F_remote_uid" "\<not> ctx_exists ctx"
    | "event_is_set ev F_remote_uid" "ctx_exists ctx" by blast
  then show ?thesis
  proof cases
    case 1
    with assms show ?thesis by (auto simp: store_remote_def Let_def keeps_txn_refl)
  next
    case 2
    with assms obtain rows e where ex: "rtcom_el_db_exec
        (Stmt (insert_remote ?luid ?ruid ?name ?abook) :: unit sql) el = (ok, rows, e, el')"
      by (auto simp: store_remote_def Let_def split: prod.splits)
    have "only_remotes (tb el) (tb el')" if ok
    proof (rule exec_remotes)
      show "rtcom_el_db_exec (Stmt (insert_remote ?luid ?ruid ?name ?abook) :: unit sql) el =
          (True, rows, e, el')" using ex that by simp
    qed (rule insert_remote_only)
    with keeps_txn_exec [OF ex] exec_more [OF ex] show ?thesis by simp
  next
    case 3
    define q1 where "q1 = (if g_strcmp0_differs ?abook (ctx_abook_uid ctx)
       then rtcom_el_db_exec (Stmt (update_remote_abook ?ruid ?luid ?abook)) el
       else (True, [], None, el))"
    obtain ok1 r1 e1 el1 where q1: "q1 = (ok1, r1, e1, el1)" by (metis prod_cases4)
    define q2 where "q2 = (if g_strcmp0_differs ?name (ctx_remote_name ctx)
       then rtcom_el_db_exec (Stmt (update_remote_name ?ruid ?luid ?name)) el1
       else (True, [], None, el1))"
    obtain ok2 r2 e2 el2 where q2: "q2 = (ok2, r2, e2, el2)" by (metis prod_cases4)
    have res: "(ok, el') = (if \<not> ok1 then (False, el1) else (ok2, el2))"
      using assms 3 q1 q2 unfolding q1_def q2_def
      by (cases ok1) (auto simp: store_remote_def Let_def split: prod.splits if_splits)
    have k1: "keeps_txn ok1 el el1 \<and> db.more el1 = db.more el \<and> (ok1 \<longrightarrow> only_remotes (tb el) (tb el1))"
      using q1 keeps_txn_exec [of "update_remote_abook ?ruid ?luid ?abook" el ok1 r1 e1 el1]
        exec_more [of "Stmt (update_remote_abook ?ruid ?luid ?abook)" el ok1 r1 e1 el1]
        exec_update_remote(1) [of ?ruid ?luid ?abook el r1 e1 el1]
      by (auto simp: q1_def keeps_txn_refl split: if_splits)
    have k2: "keeps_txn ok2 el1 el2 \<and> db.more el2 = db.more el1 \<and>
        (ok2 \<longrightarrow> only_remotes (tb el1) (tb el2))"
      using q2 keeps_txn_exec [of "update_remote_name ?ruid ?luid ?name" el1 ok2 r2 e2 el2]
        exec_more [of "Stmt (update_remote_name ?ruid ?luid ?name)" el1 ok2 r2 e2 el2]
        exec_update_remote(2) [of ?ruid ?luid ?name el1 r2 e2 el2]
      by (auto simp: q2_def keeps_txn_refl split: if_splits)
    show ?thesis
    proof (cases ok1)
      case False
      with res k1 show ?thesis by simp
    next
      case True
      with res k1 k2 show ?thesis by (auto intro: keeps_txn_trans only_remotes_trans)
    qed
  qed
qed

text \<open>
  The row the event becomes: its group is the event's, or the last one the object saw.
\<close>

definition event_group :: "RTComElEvent \<Rightarrow> el \<Rightarrow> string option" where
  "event_group ev el = (if event_is_set ev F_group_uid then fld_group_uid ev else last_group_uid el)"

definition new_event_row :: "RTComElEvent \<Rightarrow> int \<Rightarrow> int \<Rightarrow> el \<Rightarrow> event_row" where
  "new_event_row ev service_id eventtype_id el =
     event_values ev service_id eventtype_id (event_group ev el) (now el)"

lemma add_event_core_keeps:
  assumes core: "add_event_core ev s t el = (i, e, el')"
  shows "keeps_txn (e = None) el el' \<and> is_open el' = is_open el \<and> (e \<noteq> None \<longrightarrow> i = - 1) \<and>
     bus_up el' = bus_up el \<and>
     (e = None \<longrightarrow> (\<exists>rs k tt.
        (insert_event :: event_row \<Rightarrow> unit stmt) (new_event_row ev s t el) (tb el) = Inr (rs, Some k, tt) \<and>
        i = to_gint k \<and> only_remotes tt (tb el')))"
proof -
  let ?el = "remember_group ev el"
  obtain ok1 ctx el1 where l: "look_up_remote ev ?el = (ok1, ctx, el1)" by (metis prod_cases3)
  from look_up_remote_keeps [OF this]
  have k1: "keeps_txn ok1 el el1" and q1: "quiet ?el el1"
    and t1: "ok1 \<Longrightarrow> tb el1 = tb el \<and> txn el1 = txn el"
    using remember_group_keeps by auto
  from q1 have row: "event_values ev s t (field_or F_group_uid ev (fld_group_uid ev)
      (last_group_uid el1)) (now el1) = new_event_row ev s t el"
    by (auto simp: quiet_def new_event_row_def event_group_def field_or_def remember_group_def)
  have obj1: "is_open el1 = is_open el" "bus_up el1 = bus_up el" using q1 by (auto simp: quiet_def)
  let ?ins = "Stmt (insert_event (new_event_row ev s t el)) :: unit sql"
  obtain ok2 r2 e2 el2 where x: "rtcom_el_db_exec ?ins el1 = (ok2, r2, e2, el2)" by (metis prod_cases4)
  obtain ok3 el3 where st: "store_remote ev ctx el2 = (ok3, el3)" by (metis surj_pair)
  note k2 = keeps_txn_exec [OF x] and k3 = store_remote_keeps [OF st]
  have obj2: "is_open el2 = is_open el" "bus_up el2 = bus_up el" using obj1 exec_el [OF x] by auto
  have obj3: "is_open el3 = is_open el" "bus_up el3 = bus_up el"
    using obj2 el_more_eq [of el3 el2] k3 by auto
  have res: "(i, e, el') =
      (if \<not> ok1 then (- 1, Some (core_error el1), el1)
       else if \<not> ok2 then (- 1, Some (core_error el2), el2)
       else if \<not> ok3 then (- 1, Some (core_error el3), el3)
       else (to_gint (last_rowid el2), None, el3))"
    using core l x st by (cases ok1; cases ok2) (auto simp: add_event_core_def Let_def row)
  show ?thesis
  proof (cases "ok1 \<and> ok2")
    case False
    with res k1 k2 obj1 obj2 show ?thesis by (auto split: if_splits intro: keeps_txn_trans)
  next
    case True
    then have oks: "ok1 = True" "ok2 = True" by simp_all
    from exec_stmt_ok [OF x [unfolded oks]] t1 True obtain k where
      k: "insert_event (new_event_row ev s t el) (tb el) = Inr (r2, k, tb el2)"
      "last_rowid el2 = (case k of None \<Rightarrow> last_rowid el1 | Some k \<Rightarrow> k)" by auto
    moreover from insert_event_result [OF k(1)] obtain j where "k = Some j" by blast
    moreover have "keeps_txn ok3 el el3"
      using k1 k2 k3 True by (auto intro: keeps_txn_trans)
    ultimately show ?thesis using res True k3 obj3 by (auto split: if_splits)
  qed
qed

section \<open>Lemmas: the operations\<close>

lemma precheck_accepted:
  assumes "add_event_precheck evp el0 = (Accepted ev s t, el)"
  shows "\<exists>ev0. evp = Some ev0 \<and> ev = rename_event_type ev0 \<and> is_open el \<and> s \<noteq> - 1 \<and> t \<noteq> - 1 \<and>
     ensure_db True el0 = (True, el) \<and> lookup_id (services el) (fld_service ev0) = Some s \<and>
     lookup_id (event_types el) (fld_event_type ev) = Some t \<and>
     event_is_set ev0 F_service \<and> event_is_set ev0 F_event_type \<and> event_is_set ev0 F_local_uid"
  using assms
  by (auto simp: add_event_precheck_def Let_def rtcom_el_get_service_id_def
      rtcom_el_get_eventtype_id_def split: prod.splits option.splits if_splits)

lemma precheck_open [simp]:
  assumes "is_open el"
  shows "snd (add_event_precheck evp el) = el"
  using assms
  by (auto simp: add_event_precheck_def Let_def split: option.splits)

lemma rename_event_type_cases:
  obtains "rename_event_type ev = ev"
  | ty where "rename_event_type ev = set_event_type ty ev"
  | ty where "rename_event_type ev = set_outgoing (set_event_type ty ev)"
  unfolding rename_event_type_def by metis

lemma rename_is_set:
  assumes "f \<noteq> F_event_type" and "f \<noteq> F_outgoing"
  shows "event_is_set (rename_event_type ev) f \<longleftrightarrow> event_is_set ev f"
  by (cases rule: rename_event_type_cases [of ev])
    (use assms in \<open>simp_all add: set_outgoing_def set_event_type_def event_is_set_set_field\<close>)

lemma rename_same [simp]:
  "fld_start_time (rename_event_type ev) = fld_start_time ev"
  "fld_end_time (rename_event_type ev) = fld_end_time ev"
  "fld_flags (rename_event_type ev) = fld_flags ev"
  "fld_bytes_sent (rename_event_type ev) = fld_bytes_sent ev"
  "fld_bytes_received (rename_event_type ev) = fld_bytes_received ev"
  "fld_local_uid (rename_event_type ev) = fld_local_uid ev"
  "fld_local_name (rename_event_type ev) = fld_local_name ev"
  "fld_remote_uid (rename_event_type ev) = fld_remote_uid ev"
  "fld_remote_name (rename_event_type ev) = fld_remote_name ev"
  "fld_remote_ebook_uid (rename_event_type ev) = fld_remote_ebook_uid ev"
  "fld_channel (rename_event_type ev) = fld_channel ev"
  "fld_free_text (rename_event_type ev) = fld_free_text ev"
  "fld_group_uid (rename_event_type ev) = fld_group_uid ev"
  "fld_is_read (rename_event_type ev) = fld_is_read ev"
  "fld_service (rename_event_type ev) = fld_service ev"
  by (cases rule: rename_event_type_cases [of ev];
      simp add: set_outgoing_def set_event_type_def event_set_field_def)+

text \<open>Nothing is put on the bus before the transaction is over.\<close>

lemma exec_sent:
  fixes el :: el
  shows "rtcom_el_db_exec q el = (ok, rows, e, el') \<Longrightarrow> sent el' = sent el"
  by (rule exec_el(9))

lemma rollback_sent: "sent (snd (snd (rtcom_el_db_rollback (el :: el)))) = sent el"
proof -
  obtain ok e el' where r: "rtcom_el_db_rollback el = (ok, e, el')" by (metis prod_cases3)
  from el_more_eq(9) [OF rollback_more [OF r]] r show ?thesis by simp
qed

lemma transaction_sent:
  fixes el :: el
  shows "rtcom_el_db_transaction excl el = (ok, e, el') \<Longrightarrow> sent el' = sent el"
  by (rule transaction_el(9))

lemma commit_sent:
  fixes el :: el
  shows "rtcom_el_db_commit el = (ok, e, el') \<Longrightarrow> sent el' = sent el"
  using el_more_eq(9) commit_more by blast

lemma in_transaction_sent:
  fixes el :: el
  assumes run: "in_transaction excl body el = Some (r, e, el')"
    and body: "\<And>d r e d'. body d = Some (r, e, d') \<Longrightarrow> sent d' = sent d"
  shows "sent el' = sent el"
proof -
  obtain ok1 e1 d1 where t: "rtcom_el_db_transaction excl el = (ok1, e1, d1)" by (metis prod_cases3)
  from run t transaction_sent [OF t] show ?thesis
    by (auto simp: in_transaction_def rollback_sent dest!: body commit_sent
        split: bool.splits option.splits prod.splits)
qed

lemma add_event_core_sent:
  assumes "add_event_core ev s t el = (i, e, el')"
  shows "sent el' = sent el"
proof -
  have look: "sent d' = sent d" if "look_up_remote ev d = (ok, ctx, d')" for d ok ctx d'
    using that by (auto simp: look_up_remote_def Let_def split: if_splits prod.splits dest: exec_sent)
  have store: "sent d' = sent d" if "store_remote ev ctx d = (ok, d')" for d ctx ok d'
    using el_more_eq(9) [of d' d] store_remote_keeps [OF that] by simp
  have rem: "sent (remember_group ev el) = sent el" by (simp add: remember_group_def)
  from assms show ?thesis
    by (auto simp: add_event_core_def Let_def rem split: if_splits prod.splits
        dest!: look exec_sent store)
qed

lemma add_body_sent: "add_event_body ev s t d = Some (r, e, d') \<Longrightarrow> sent d' = sent d"
  by (auto simp: add_event_body_def split: prod.splits dest: add_event_core_sent)

interpretation add_body: transactional_body "add_event_body ev s t" "\<lambda>_. True" for ev s t
proof
  fix d r e d'
  assume "add_event_body ev s t d = Some (r, e, d')"
  then obtain i where "add_event_core ev s t d = (i, e, d')" "r = (if i = - 1 then None else Some i)"
    by (auto simp: add_event_body_def split: prod.splits)
  with add_event_core_keeps [of ev s t d i e d'] show "keeps_txn (r \<noteq> None) d d'"
    by (auto simp: keeps_txn_def split: if_splits)
qed

lemma add_header_keeps:
  assumes "rtcom_el_add_header i hk hv el = (r, e, el')" and "is_open el"
  shows "keeps_txn (r \<noteq> - 1) el el' \<and> is_open el'"
proof -
  obtain ok rows x el1 where ex: "rtcom_el_db_exec (Stmt (insert_header i hk hv) :: unit sql) el =
      (ok, rows, x, el1)" by (metis prod_cases4)
  from keeps_txn_exec [OF ex] exec_el(1) [OF ex] show ?thesis
    using assms ex by (auto simp: rtcom_el_add_header_def keeps_txn_def durable_def split: if_splits)
qed

text \<open>Work on files leaves the connection alone.\<close>

definition same_db :: "el \<Rightarrow> el \<Rightarrow> bool" where
  "same_db el el' \<longleftrightarrow>
     tb el' = tb el \<and> txn el' = txn el \<and> journal el' = journal el \<and> script el' = script el \<and>
     is_open el' = is_open el \<and> last_rowid el' = last_rowid el \<and> basename el' = basename el \<and>
     home el' = home el \<and> now el' = now el"

lemma same_db_refl [simp]: "same_db el el"
  by (simp add: same_db_def)

lemma same_db_trans: "same_db a b \<Longrightarrow> same_db b c \<Longrightarrow> same_db a c"
  by (simp add: same_db_def)

lemma same_db_keeps: "same_db el el1 \<Longrightarrow> keeps_txn ok el1 el' \<Longrightarrow> keeps_txn ok el el'"
  by (simp add: same_db_def keeps_txn_def)

lemma same_db_keeps_refl: "same_db el el' \<Longrightarrow> keeps_txn ok el el'"
  by (simp add: same_db_def keeps_txn_def durable_def)

text \<open>Nor does work on the database touch what the files' names are made of.\<close>

definition same_names :: "el \<Rightarrow> el \<Rightarrow> bool" where
  "same_names el el' \<longleftrightarrow> basename el' = basename el \<and> home el' = home el \<and> now el' = now el"

lemma same_names_refl [simp]: "same_names el el"
  by (simp add: same_names_def)

lemma same_names_trans: "same_names a b \<Longrightarrow> same_names b c \<Longrightarrow> same_names a c"
  by (simp add: same_names_def)

lemma same_db_names: "same_db a b \<Longrightarrow> same_names a b"
  by (simp add: same_db_def same_names_def)

lemma more_names: "db.more el' = db.more el \<Longrightarrow> same_names el el'" for el el' :: el
  by (cases el; cases el') (simp add: same_names_def)

lemma exec_names: "rtcom_el_db_exec q el = (ok, rows, e, el') \<Longrightarrow> same_names el el'" for el :: el
  by (rule more_names) (rule exec_more)

lemma add_event_core_names:
  assumes "add_event_core ev s t el = (i, e, el')"
  shows "same_names el el'"
proof -
  have rem: "same_names el (remember_group ev el)" by (simp add: remember_group_def same_names_def)
  have look: "same_names d d'" if "look_up_remote ev d = (ok, ctx, d')" for d ok ctx d'
    using that exec_names by (auto simp: look_up_remote_def Let_def split: if_splits prod.splits)
  have store: "same_names d d'" if "store_remote ev ctx d = (ok, d')" for d ctx ok d'
    using more_names store_remote_keeps [OF that] by blast
  obtain ok1 ctx el1 where l: "look_up_remote ev (remember_group ev el) = (ok1, ctx, el1)"
    by (metis prod_cases3)
  define row where "row = event_values ev s t (field_or F_group_uid ev (fld_group_uid ev)
      (last_group_uid el1)) (now el1)"
  obtain ok2 r2 e2 el2 where x: "rtcom_el_db_exec (Stmt (insert_event row) :: unit sql) el1 =
      (ok2, r2, e2, el2)" by (metis prod_cases4)
  obtain ok3 el3 where st: "store_remote ev ctx el2 = (ok3, el3)" by (metis surj_pair)
  from rem look [OF l] have 1: "same_names el el1" by (rule same_names_trans)
  from this exec_names [OF x] have 2: "same_names el el2" by (rule same_names_trans)
  from this store [OF st] have 3: "same_names el el3" by (rule same_names_trans)
  from assms l x st have "el' \<in> {el1, el2, el3}"
    by (cases ok1; cases ok2) (auto simp: add_event_core_def Let_def row_def split: if_splits)
  with 1 2 3 show ?thesis by blast
qed

lemma next_io_same: "same_db el (snd (next_io el))"
  by (simp add: next_io_def same_db_def split: list.split)

lemma g_mkdir_same: "same_db el (snd (g_mkdir p el))"
  using next_io_same [of el]
  by (auto simp: g_mkdir_def same_db_def split: prod.splits option.splits)

lemma fopen_read_same: "same_db el (snd (fopen_read p el))"
  using next_io_same [of el]
  by (auto simp: fopen_read_def split: prod.splits option.splits fs_node.splits)

lemma fopen_write_same: "same_db el (snd (fopen_write p el))"
  using next_io_same [of el]
  by (auto simp: fopen_write_def same_db_def split: prod.splits option.splits)

lemma fclose_same: "same_db el (snd (fclose el))"
  using next_io_same [of el] by (auto simp: fclose_def split: prod.splits)

lemma copy_file_same: "same_db el (snd (copy_file p d el))"
proof -
  obtain c el1 where r: "fopen_read p el = (c, el1)" by (metis surj_pair)
  with fopen_read_same [of el p] have 1: "same_db el el1" by simp
  obtain b el2 where w: "fopen_write d el1 = (b, el2)" by (metis surj_pair)
  with fopen_write_same [of el1 d] 1 have 2: "same_db el el2" by (auto intro: same_db_trans)
  have 3: "same_db el (el2\<lparr>fs := f, io := a\<rparr>)" for f a
    using 2 by (simp add: same_db_def)
  have cl: "same_db el (snd (fclose x))" if "same_db el x" for x
    by (rule same_db_trans [OF that fclose_same])
  have cl': "same_db el y" if "same_db el x" "fclose x = (b', y)" for x y b'
    using cl [OF that(1)] that(2) by simp
  show ?thesis
    using 1 2 3 r w
    by (auto simp: copy_file_def Let_def split: option.splits bool.splits prod.splits
        intro!: cl intro: cl')
qed

lemma add_attachment_keeps:
  assumes "rtcom_el_add_attachment i path desc el = Some (r, e, el')" and op: "is_open el"
  shows "keeps_txn (r \<noteq> - 1) el el' \<and> is_open el'"
proof (cases "i < 0 \<or> path = None")
  case True
  with assms show ?thesis
    by (auto simp: rtcom_el_add_attachment_def keeps_txn_refl split: if_splits)
next
  case False
  then obtain p where p: "path = Some p" "\<not> i < 0" by auto
  let ?dir = "attachments_dir el"
  obtain ok1 el1 where m1: "(if fs el ?dir = None then g_mkdir ?dir el else (True, el)) = (ok1, el1)"
    by (metis surj_pair)
  have s1: "same_db el el1"
    using m1 g_mkdir_same [of el ?dir] by (auto split: if_splits)
  show ?thesis
  proof (cases ok1)
    case False
    with assms p m1 s1 show ?thesis
      by (auto simp: rtcom_el_add_attachment_def same_db_keeps_refl same_db_def [of el])
  next
    case ok1: True
    with assms p m1 obtain u where u: "build_unique_dirname ?dir el1 = Some u"
      by (auto simp: rtcom_el_add_attachment_def Let_def split: option.splits)
    obtain ok2 el2 where m2: "g_mkdir u el1 = (ok2, el2)" by (metis surj_pair)
    with s1 g_mkdir_same [of el1 u] have s2: "same_db el el2" by (auto intro: same_db_trans)
    let ?dest = "build_filename u (basename el2 p)"
    obtain ok3 el3 where c: "copy_file p ?dest el2 = (ok3, el3)" by (metis surj_pair)
    with s2 copy_file_same [of el2 p ?dest] have s3: "same_db el el3" by (auto intro: same_db_trans)
    obtain ok4 rows x el4 where ex:
      "rtcom_el_db_exec (Stmt (insert_attachment i ?dest desc) :: unit sql) el3 = (ok4, rows, x, el4)"
      by (metis prod_cases4)
    have k4: "keeps_txn ok4 el el4" by (rule same_db_keeps [OF s3 keeps_txn_exec [OF ex]])
    have "is_open el4" using exec_el(1) [OF ex] s3 op by (simp add: same_db_def)
    moreover have "(r, e, el') =
        (if \<not> ok2 then (- 1, Some RTCOM_EL_INTERNAL_ERROR, el2)
         else if \<not> ok3 then (- 1, Some RTCOM_EL_INTERNAL_ERROR, el3)
         else if \<not> ok4 then (- 1, x, el4) else (to_gint (last_rowid el4), None, el4))"
      using assms p m1 ok1 u m2 c ex by (auto simp: rtcom_el_add_attachment_def Let_def)
    moreover have "keeps_txn ok el el2" "keeps_txn ok el el3" "is_open el2" "is_open el3" for ok
      using s2 s3 op same_db_keeps_refl by (auto simp: same_db_def [of el])
    moreover have "keeps_txn (r \<noteq> - 1) el el4" if "ok4" using k4 that by (simp add: keeps_txn_def)
    ultimately show ?thesis using k4 by (auto split: if_splits)
  qed
qed

lemma add_attachments_keeps:
  "add_attachments i atts el = Some (ok, e, el') \<Longrightarrow> is_open el \<Longrightarrow>
   keeps_txn ok el el' \<and> is_open el'"
proof (induction i atts el arbitrary: ok e el' rule: add_attachments.induct)
  case (1 i el)
  then show ?case by (simp add: keeps_txn_refl)
next
  case (2 i path desc atts el)
  from "2.prems"(1) obtain r x el1 where a: "rtcom_el_add_attachment i path desc el = Some (r, x, el1)"
    by (auto split: option.splits)
  from add_attachment_keeps [OF a "2.prems"(2)]
  have k: "keeps_txn (r \<noteq> - 1) el el1" "is_open el1" by auto
  show ?case
  proof (cases "r = - 1")
    case True
    with a k "2.prems" show ?thesis by auto
  next
    case False
    with a "2.prems"(1) have "add_attachments i atts el1 = Some (ok, e, el')" by simp
    from "2.IH" [OF a refl refl False this k(2)] k(1) False show ?thesis
      by (auto intro: keeps_txn_trans)
  qed
qed

lemma add_headers_keeps:
  "add_headers i hs el = (ok, e, el') \<Longrightarrow> is_open el \<Longrightarrow> keeps_txn ok el el' \<and> is_open el'"
proof (induction i hs el arbitrary: ok e el' rule: add_headers.induct)
  case (1 i el)
  then show ?case by (simp add: keeps_txn_refl)
next
  case (2 i hk hv hs el)
  obtain r x el1 where a: "rtcom_el_add_header i hk hv el = (r, x, el1)" by (metis prod_cases3)
  from add_header_keeps [OF a "2.prems"(2)]
  have k: "keeps_txn (r \<noteq> - 1) el el1" "is_open el1" by auto
  show ?case
  proof (cases "r = - 1")
    case True
    with a k "2.prems" show ?thesis by auto
  next
    case False
    with a "2.prems"(1) have "add_headers i hs el1 = (ok, e, el')" by simp
    from "2.IH" [OF a [symmetric] refl False this k(2)] k(1) False show ?thesis
      by (auto intro: keeps_txn_trans)
  qed
qed

interpretation add_full_body: transactional_body "add_event_full_body ev hs atts s t" is_open
  for ev hs atts s t
proof
  fix d r e d'
  assume op: "is_open d" and run: "add_event_full_body ev hs atts s t d = Some (r, e, d')"
  obtain i e1 d1 where c: "add_event_core ev s t d = (i, e1, d1)" by (metis prod_cases3)
  from add_event_core_keeps [OF this] op
  have k1: "keeps_txn (e1 = None) d d1" "is_open d1" "e1 \<noteq> None \<longrightarrow> i = - 1" by auto
  show "keeps_txn (r \<noteq> None) d d'"
  proof (cases "i = - 1")
    case True
    with run c k1 show ?thesis by (auto simp: add_event_full_body_def keeps_txn_def)
  next
    case False
    with k1 have k1: "keeps_txn True d d1" "is_open d1" by auto
    from run c False obtain ok2 e2 d2 where a: "add_attachments i atts d1 = Some (ok2, e2, d2)"
      by (auto simp: add_event_full_body_def split: option.splits)
    from add_attachments_keeps [OF a k1(2)] have k2: "keeps_txn ok2 d1 d2" "is_open d2" by auto
    obtain ok3 e3 d3 where h: "add_headers i hs d2 = (ok3, e3, d3)" by (metis prod_cases3)
    from add_headers_keeps [OF h k2(2)] have k3: "keeps_txn ok3 d2 d3" by auto
    have res: "(r, d') = (if ok2 then (if ok3 then Some i else None, d3) else (None, d2))"
      using run c False a h by (auto simp: add_event_full_body_def)
    show ?thesis
    proof (cases ok2)
      case True
      with k1(1) k2(1) have "keeps_txn True d d2" by (auto intro: keeps_txn_trans)
      with res True k3 show ?thesis by (auto intro: keeps_txn_trans split: if_splits)
    next
      case False
      with res k1 k2 show ?thesis by (auto intro: keeps_txn_trans)
    qed
  qed
qed (metis el_more_eq(1))

section \<open>A small database\<close>

text \<open>
  Two services with one event type, and three events of two groups; used by the concrete
  instances of the properties.
\<close>

definition sample_row :: "int \<Rightarrow> string \<Rightarrow> event_row" where
  "sample_row i g =
     \<lparr>e_id = i, e_service_id = 1, e_event_type_id = 1, e_storage_time = 100, e_start_time = 90,
      e_end_time = 95, e_is_read = 0, e_outgoing = 0, e_flags = 1, e_bytes_sent = 0,
      e_bytes_received = 0, e_local_uid = Some ''me'', e_local_name = None,
      e_remote_uid = Some ''bob'', e_channel = None, e_free_text = Some ''hi'',
      e_group_uid = Some g\<rparr>"

definition sample_tables :: tables where
  "sample_tables =
     \<lparr>Services = [\<lparr>sv_id = 1, sv_name = ''CALL'', sv_plugin_id = 1, sv_desc = None\<rparr>,
                  \<lparr>sv_id = 2, sv_name = ''SMS'', sv_plugin_id = 2, sv_desc = None\<rparr>],
      EventTypes = [\<lparr>et_id = 1, et_name = ''T'', et_plugin_id = 1, et_desc = None\<rparr>],
      Flags = [\<lparr>fl_id = 1, fl_service_id = 1, fl_name = ''F'', fl_value = 4, fl_desc = None\<rparr>],
      Plugins = [\<lparr>pl_id = 1, pl_name = ''call'', pl_desc = ''calls''\<rparr>],
      Attachments = [], Headers = [\<lparr>hd_id = 1, hd_event_id = 1, hd_name = ''k'', hd_value = ''v''\<rparr>],
      Remotes = [\<lparr>rm_local_uid = ''me'', rm_remote_uid = ''bob'', rm_remote_name = Some ''Bob'',
                   rm_abook_uid = Some ''7''\<rparr>],
      Events = [sample_row 1 ''g'', sample_row 2 ''g'', sample_row 3 ''h''],
      GroupCache =
        [\<lparr>gc_event_id = 2, gc_service_id = 1, gc_group_uid = ''g'', gc_total_events = 2,
          gc_read_events = 0, gc_flags = 1\<rparr>,
         \<lparr>gc_event_id = 3, gc_service_id = 1, gc_group_uid = ''h'', gc_total_events = 1,
          gc_read_events = 0, gc_flags = 1\<rparr>]\<rparr>"

definition sample_el :: el where
  "sample_el =
     \<lparr>tb = sample_tables, txn = None, journal = JM_TRUNCATE, script = [], last_rowid = 0,
      errcode = None, torn = (\<lambda>a b. b), jm_fixed = False, is_open = True, plugins = Map.empty,
      services = Some [''CALL'' \<mapsto> 1, ''SMS'' \<mapsto> 2], event_types = Some [''T'' \<mapsto> 1],
      flags = Some [''F'' \<mapsto> 1],
      last_group_uid = None, now = 1000, bus_up = True, sent = [], emitted = [], attempts = [],
      env_plugins = None, system_plugins = None, user_plugins = None, env_path_exists = False,
      home = ''/home/u'', fs = [''/tmp/a'' \<mapsto> File ''data''], io = [],
      basename = (\<lambda>p. ''a''), scan_order = (\<lambda>xs. xs), freed_readable = True\<rparr>"

definition sample_event :: "string \<Rightarrow> RTComElEvent" where
  "sample_event service =
     event_set_field F_service (\<lambda>e. e\<lparr>fld_service := Some service\<rparr>)
     (event_set_field F_event_type (\<lambda>e. e\<lparr>fld_event_type := Some ''T''\<rparr>)
     (event_set_field F_local_uid (\<lambda>e. e\<lparr>fld_local_uid := Some ''me''\<rparr>)
     (event_set_field F_remote_uid (\<lambda>e. e\<lparr>fld_remote_uid := Some ''bob''\<rparr>)
     (event_set_field F_group_uid (\<lambda>e. e\<lparr>fld_group_uid := Some ''g''\<rparr>)
        rtcom_el_event_new))))"

lemma sample_cache_ok: "cache_ok sample_tables"
  by code_simp

lemma sample_add: "map_option fst (rtcom_el_add_event (Some (sample_event ''CALL'')) sample_el) = Some 4"
  by code_simp

end
