(* ===== verification/El_Plugin_Props.thy ===== *)
theory El_Plugin_Props
  imports El_Plugin El_Cache El_Add
begin

text \<open>
  The registration of plugins: the rows of a new plugin, what happens when it is loaded again, and the
  plugin whose registration failed half way.
\<close>

section \<open>Rows that are inserted\<close>

lemma inserted:
  fixes el :: el
  assumes "rtcom_el_db_exec (Stmt f) el = (True, rows, e, el')"
  shows "\<exists>i. f (tb el) = Inr (rows, i, tb el') \<and>
     last_rowid el' = (case i of None \<Rightarrow> last_rowid el | Some k \<Rightarrow> k)"
  using exec_stmt_ok [OF assms] by blast

lemma init_event_types_rows:
  assumes "init_event_types pid ets el = (True, el')"
  shows "\<exists>rows. tb el' = (tb el)\<lparr>EventTypes := EventTypes (tb el) @ rows\<rparr> \<and>
     map et_name rows = map evt_name ets \<and> list_all (\<lambda>r. et_plugin_id r = pid) rows"
  using assms
proof (induction pid ets el rule: init_event_types.induct)
  case (1 pid el)
  then show ?case by (intro exI [of _ "[]"]) simp
next
  case (2 pid et ets el)
  obtain ok rows e el1 where x: "rtcom_el_db_exec
      (Stmt (insert_eventtype (evt_name et) pid (evt_desc et)) :: unit sql) el = (ok, rows, e, el1)"
    by (rule prod_cases4)
  with "2.prems" have new: "\<not> in_table (event_types el) (evt_name et)" and ok: "ok"
    and rest: "init_event_types pid ets (el1\<lparr>event_types :=
      table_insert (evt_name et) (to_gint (last_rowid el1)) (event_types el1)\<rparr>) = (True, el')"
    by (auto split: if_splits)
  from "2.IH" [OF new x [symmetric] refl refl] ok rest obtain rs where
    rs: "tb el' = (tb el1)\<lparr>EventTypes := EventTypes (tb el1) @ rs\<rparr>"
      "map et_name rs = map evt_name ets" "list_all (\<lambda>r. et_plugin_id r = pid) rs" by auto
  from x ok inserted [of _ el rows e el1] obtain i where
    "insert_eventtype (evt_name et) pid (evt_desc et) (tb el) = Inr (rows, i, tb el1)" by auto
  then have "tb el1 = (tb el)\<lparr>EventTypes := EventTypes (tb el) @ [\<lparr>et_id = next_rowid
      (map et_id (EventTypes (tb el))), et_name = evt_name et, et_plugin_id = pid, et_desc = evt_desc et\<rparr>]\<rparr>"
    by (auto simp: insert_eventtype_def Let_def split: if_splits)
  with rs show ?case
    by (intro exI [of _ "\<lparr>et_id = next_rowid (map et_id (EventTypes (tb el))), et_name = evt_name et,
        et_plugin_id = pid, et_desc = evt_desc et\<rparr> # rs"]) simp
qed

lemma init_flags_rows:
  assumes "init_flags sid fls el = (True, el')"
  shows "\<exists>rows. tb el' = (tb el)\<lparr>Flags := Flags (tb el) @ rows\<rparr> \<and>
     map (\<lambda>r. (fl_name r, fl_value r)) rows = map (\<lambda>f. (flg_name f, to_gint (flg_value f))) fls \<and>
     list_all (\<lambda>r. fl_service_id r = sid) rows"
  using assms
proof (induction sid fls el rule: init_flags.induct)
  case (1 sid el)
  then show ?case by (intro exI [of _ "[]"]) simp
next
  case (2 sid fl fls el)
  obtain ok rows e el1 where x: "rtcom_el_db_exec
      (Stmt (insert_flag sid (flg_name fl) (to_gint (flg_value fl)) (flg_desc fl)) :: unit sql) el =
      (ok, rows, e, el1)" by (rule prod_cases4)
  with "2.prems" have new: "\<not> in_table (flags el) (flg_name fl)" and ok: "ok"
    and rest: "init_flags sid fls (el1\<lparr>flags :=
      table_insert (flg_name fl) (to_gint (last_rowid el1)) (flags el1)\<rparr>) = (True, el')"
    by (auto split: if_splits)
  from "2.IH" [OF new x [symmetric] refl refl] ok rest obtain rs where
    rs: "tb el' = (tb el1)\<lparr>Flags := Flags (tb el1) @ rs\<rparr>"
      "map (\<lambda>r. (fl_name r, fl_value r)) rs = map (\<lambda>f. (flg_name f, to_gint (flg_value f))) fls"
      "list_all (\<lambda>r. fl_service_id r = sid) rs" by auto
  from x ok inserted [of _ el rows e el1] obtain i where
    "insert_flag sid (flg_name fl) (to_gint (flg_value fl)) (flg_desc fl) (tb el) = Inr (rows, i, tb el1)" by auto
  then have "tb el1 = (tb el)\<lparr>Flags := Flags (tb el) @ [\<lparr>fl_id = next_rowid (map fl_id (Flags (tb el))),
      fl_service_id = sid, fl_name = flg_name fl, fl_value = to_gint (flg_value fl), fl_desc = flg_desc fl\<rparr>]\<rparr>"
    by (auto simp: insert_flag_def Let_def split: if_splits)
  with rs show ?case
    by (intro exI [of _ "\<lparr>fl_id = next_rowid (map fl_id (Flags (tb el))), fl_service_id = sid,
        fl_name = flg_name fl, fl_value = to_gint (flg_value fl), fl_desc = flg_desc fl\<rparr> # rs"]) simp
qed

section \<open>A new plugin\<close>

text \<open>What the registration adds to the tables.\<close>

definition registers ::
    "RTComElPlugin \<Rightarrow> string \<Rightarrow> string \<Rightarrow> RTComElService \<Rightarrow> int \<Rightarrow> int \<Rightarrow> tables \<Rightarrow> tables \<Rightarrow> bool"
where
  "registers plugin name desc service pid sid t t' \<longleftrightarrow>
     (\<exists>types fls.
        t' = t\<lparr>Plugins := Plugins t @ [\<lparr>pl_id = pid, pl_name = name, pl_desc = desc\<rparr>],
               Services := Services t @ [\<lparr>sv_id = sid, sv_name = svc_name service,
                 sv_plugin_id = to_gint pid, sv_desc = svc_desc service\<rparr>],
               EventTypes := EventTypes t @ types, Flags := Flags t @ fls\<rparr> \<and>
        map et_name types = map evt_name (pg_event_types plugin) \<and>
        list_all (\<lambda>r. et_plugin_id r = to_gint pid) types \<and>
        map (\<lambda>r. (fl_name r, fl_value r)) fls =
          map (\<lambda>f. (flg_name f, to_gint (flg_value f))) (case pg_flags plugin of None \<Rightarrow> [] | Some flgs \<Rightarrow> flgs) \<and>
        list_all (\<lambda>r. fl_service_id r = to_gint sid) fls)"

lemma init_plugin_error_fails: "fst (init_plugin_error plugin el) = - 1"
  by (simp add: init_plugin_error_def)

lemma init_new_plugin_registers:
  assumes "init_new_plugin name desc service plugin el = (i, plugin', el')" and "i \<noteq> - 1"
  shows "\<exists>sid. i = to_gint sid \<and> sid = next_rowid (map sv_id (Services (tb el))) \<and>
     plugin' = plugin\<lparr>pg_id := to_gint (next_rowid (map pl_id (Plugins (tb el))))\<rparr> \<and>
     registers plugin name desc service (next_rowid (map pl_id (Plugins (tb el)))) sid (tb el) (tb el')"
proof -
  let ?pid = "next_rowid (map pl_id (Plugins (tb el)))" and ?sid = "next_rowid (map sv_id (Services (tb el)))"
  have fails: "init_plugin_error p d \<noteq> (i, plugin', el')" for p d
    using assms(2) init_plugin_error_fails [of p d] by (metis fst_conv)
  obtain ok1 rows1 e1 el1 where p: "rtcom_el_db_exec (Stmt (insert_plugin name desc) :: unit sql) el =
      (ok1, rows1, e1, el1)" by (rule prod_cases4)
  with assms(1) fails have "ok1" by (cases ok1) (auto simp: init_new_plugin_def)
  with inserted [of _ el rows1 e1 el1] p obtain k1 where "insert_plugin name desc (tb el) = Inr (rows1, k1, tb el1)"
    "last_rowid el1 = (case k1 of None \<Rightarrow> last_rowid el | Some k \<Rightarrow> k)" by auto
  then have t1: "tb el1 = (tb el)\<lparr>Plugins := Plugins (tb el) @ [\<lparr>pl_id = ?pid, pl_name = name, pl_desc = desc\<rparr>]\<rparr>"
    "last_rowid el1 = ?pid" by (auto simp: insert_plugin_def Let_def split: if_splits)
  obtain ok2 rows2 e2 el2 where s: "rtcom_el_db_exec (Stmt (insert_service (svc_name service)
      (to_gint (last_rowid el1)) (svc_desc service)) :: unit sql) el1 = (ok2, rows2, e2, el2)" by (rule prod_cases4)
  with assms(1) fails p \<open>ok1\<close> have "ok2" by (cases ok2) (auto simp: init_new_plugin_def Let_def split: if_splits)
  with inserted [of _ el1 rows2 e2 el2] s obtain k2 where
    "insert_service (svc_name service) (to_gint (last_rowid el1)) (svc_desc service) (tb el1) = Inr (rows2, k2, tb el2)"
    "last_rowid el2 = (case k2 of None \<Rightarrow> last_rowid el1 | Some k \<Rightarrow> k)" by auto
  then have t2: "tb el2 = (tb el1)\<lparr>Services := Services (tb el) @ [\<lparr>sv_id = ?sid, sv_name = svc_name service,
      sv_plugin_id = to_gint ?pid, sv_desc = svc_desc service\<rparr>]\<rparr>" "last_rowid el2 = ?sid"
    by (auto simp: insert_service_def Let_def t1 split: if_splits)
  let ?el3 = "el2\<lparr>services := table_insert (svc_name service) (to_gint ?sid) (services el2)\<rparr>"
  obtain ok4 el4 where e: "init_event_types (to_gint ?pid) (pg_event_types plugin) ?el3 = (ok4, el4)"
    by (rule prod.exhaust)
  have run: "(if \<not> ok4 then init_plugin_error (plugin\<lparr>pg_id := to_gint ?pid\<rparr>) el4
      else case pg_flags plugin of
             None \<Rightarrow> (to_gint ?sid, plugin\<lparr>pg_id := to_gint ?pid\<rparr>, el4)
           | Some fls \<Rightarrow>
               (case init_flags (to_gint ?sid) fls el4 of
                  (ok5, el5) \<Rightarrow>
                    if \<not> ok5 then init_plugin_error (plugin\<lparr>pg_id := to_gint ?pid\<rparr>) el5
                    else (to_gint ?sid, plugin\<lparr>pg_id := to_gint ?pid\<rparr>, el5))) = (i, plugin', el')"
    using assms(1) p s e \<open>ok1\<close> \<open>ok2\<close> fails t1(2) t2(2)
    by (auto simp: init_new_plugin_def Let_def split: if_splits cong: option.case_cong prod.case_cong if_cong)
  with fails have "ok4" by (cases ok4) auto
  with init_event_types_rows [of _ _ ?el3 el4] e obtain types where t4:
    "tb el4 = (tb el2)\<lparr>EventTypes := EventTypes (tb el2) @ types\<rparr>"
    "map et_name types = map evt_name (pg_event_types plugin)"
    "list_all (\<lambda>r. et_plugin_id r = to_gint ?pid) types" by auto
  show ?thesis
  proof (cases "pg_flags plugin")
    case None
    with run \<open>ok4\<close> have "i = to_gint ?sid" "plugin' = plugin\<lparr>pg_id := to_gint ?pid\<rparr>" "el' = el4" by auto
    moreover have "registers plugin name desc service ?pid ?sid (tb el) (tb el4)"
      unfolding registers_def using None t1(1) t2(1) t4
      by (intro exI [of _ types] exI [of _ "[]"]) simp
    ultimately show ?thesis by blast
  next
    case (Some flgs)
    obtain ok5 el5 where f: "init_flags (to_gint ?sid) flgs el4 = (ok5, el5)" by (rule prod.exhaust)
    with run \<open>ok4\<close> Some fails have "ok5" by (cases ok5) auto
    with run \<open>ok4\<close> Some f have r: "i = to_gint ?sid" "plugin' = plugin\<lparr>pg_id := to_gint ?pid\<rparr>" "el' = el5" by auto
    from init_flags_rows [of "to_gint ?sid" flgs el4 el5] f \<open>ok5\<close> obtain rows where
      "tb el5 = (tb el4)\<lparr>Flags := Flags (tb el4) @ rows\<rparr>"
      "map (\<lambda>r. (fl_name r, fl_value r)) rows = map (\<lambda>f. (flg_name f, to_gint (flg_value f))) flgs"
      "list_all (\<lambda>r. fl_service_id r = to_gint ?sid) rows" by auto
    then have "registers plugin name desc service ?pid ?sid (tb el) (tb el5)"
      unfolding registers_def using Some t1(1) t2(1) t4
      by (intro exI [of _ types] exI [of _ rows]) simp
    with r show ?thesis by blast
  qed
qed

text \<open>A plugin as the library expects it, without an init routine of its own.\<close>

definition complete_plugin :: "RTComElPlugin \<Rightarrow> string \<Rightarrow> string \<Rightarrow> RTComElService \<Rightarrow> bool" where
  "complete_plugin plugin name desc service \<longleftrightarrow> pg_init plugin = None \<and> pg_name plugin = Some name \<and>
     pg_desc plugin = Some desc \<and> pg_service plugin = Some service"

lemma select_same:
  fixes el :: el
  assumes "rtcom_el_db_exec (Stmt (select_rows q)) el = (True, rows, e, el')"
  shows "rows = q (tb el)" and "tb el' = tb el"
  using inserted [OF assms] by (auto simp: select_rows_def)

lemma unknown_plugin:
  assumes run: "init_plugin plugin el = (i, plugin', el')" and ok: "i \<noteq> - 1"
    and p: "complete_plugin plugin name desc service" and new: "name \<notin> pl_name ` set (Plugins (tb el))"
  shows "\<exists>el1. tb el1 = tb el \<and>
     init_new_plugin name desc service (plugin\<lparr>pg_id := 0\<rparr>) el1 = (i, plugin', el')"
proof -
  obtain okq rows e el1 where x: "rtcom_el_db_exec (Stmt (select_rows (\<lambda>t.
      map (\<lambda>r. Some (pl_id r)) (filter (\<lambda>r. pl_name r = name) (Plugins t))))) el = (okq, rows, e, el1)"
    by (rule prod_cases4)
  with run ok p have "okq" by (cases okq) (auto simp: init_plugin_def complete_plugin_def)
  with x select_same [of _ el rows e el1] have r: "tb el1 = tb el"
    "rows = map (\<lambda>r. Some (pl_id r)) (filter (\<lambda>r. pl_name r = name) (Plugins (tb el)))" by auto
  have "filter (\<lambda>r. pl_name r = name) (Plugins (tb el)) = []" using new by (auto simp: filter_empty_conv)
  with r(2) have "rtcom_el_db_single_int rows 0 = 0" by (simp add: rtcom_el_db_single_int_def)
  with run x \<open>okq\<close> p r(1) show ?thesis
    by (intro exI [of _ el1]) (auto simp: init_plugin_def complete_plugin_def Let_def)
qed

lemma registers_id: "registers (plugin\<lparr>pg_id := i\<rparr>) name desc service pid sid = registers plugin name desc service pid sid"
  by (intro ext) (simp add: registers_def)

text \<open>C29: Loading a plugin the database does not know registers it: when \<open>_init_plugin\<close> returns a service id,
  exactly one row was added to Plugins, one to Services, that refers to it, and a row for each of the plugin's
  event types and flags, with their names and values, that refer to the plugin and the service. No other
  row of any table changed.\<close>

theorem init_plugin_registers:
  assumes "init_plugin plugin el = (i, plugin', el')" and "i \<noteq> - 1"
    and "complete_plugin plugin name desc service" and "name \<notin> pl_name ` set (Plugins (tb el))"
  shows "\<exists>pid sid. i = to_gint sid \<and> pg_id plugin' = to_gint pid \<and>
     registers plugin name desc service pid sid (tb el) (tb el')"
proof -
  from unknown_plugin [OF assms] obtain el1 where el1: "tb el1 = tb el"
    "init_new_plugin name desc service (plugin\<lparr>pg_id := 0\<rparr>) el1 = (i, plugin', el')" by blast
  from init_new_plugin_registers [OF el1(2) assms(2)] obtain sid where "i = to_gint sid"
    "pg_id plugin' = to_gint (next_rowid (map pl_id (Plugins (tb el1))))"
    "registers plugin name desc service (next_rowid (map pl_id (Plugins (tb el1)))) sid (tb el1) (tb el')"
    by (auto simp: registers_id)
  with el1(1) show ?thesis by auto
qed

section \<open>A known plugin\<close>

text \<open>Services belong to known plugins, and new ids fit a \<open>gint\<close>.\<close>

definition plugins_ok :: "tables \<Rightarrow> bool" where
  "plugins_ok t \<longleftrightarrow> sv_plugin_id ` set (Services t) \<subseteq> pl_id ` set (Plugins t) \<and>
     0 < next_rowid (map pl_id (Plugins t)) \<and> next_rowid (map pl_id (Plugins t)) < 2 ^ 31"

lemma fresh_plugin:
  assumes "plugins_ok t"
  shows "to_gint (next_rowid (map pl_id (Plugins t))) = next_rowid (map pl_id (Plugins t))"
    and "next_rowid (map pl_id (Plugins t)) \<noteq> 0"
    and "filter (\<lambda>r. sv_plugin_id r = next_rowid (map pl_id (Plugins t))) (Services t) = []"
proof -
  let ?pid = "next_rowid (map pl_id (Plugins t))"
  from assms show "to_gint ?pid = ?pid" "?pid \<noteq> 0" by (simp_all add: plugins_ok_def)
  have "?pid \<notin> pl_id ` set (Plugins t)" using next_rowid_fresh [of "map pl_id (Plugins t)"] by simp
  with assms have "?pid \<notin> sv_plugin_id ` set (Services t)" unfolding plugins_ok_def by blast
  then show "filter (\<lambda>r. sv_plugin_id r = ?pid) (Services t) = []"
    unfolding filter_empty_conv by (metis image_eqI)
qed

lemma known_plugin:
  assumes p: "complete_plugin plugin name desc service" and calm: "script el = []"
    and one: "filter (\<lambda>r. pl_name r = name) (Plugins (tb el)) = [row]" and id: "to_gint (pl_id row) \<noteq> 0"
  shows "\<exists>el'. init_plugin plugin el = (rtcom_el_db_single_int (map (\<lambda>r. Some (sv_id r))
       (filter (\<lambda>r. sv_plugin_id r = to_gint (pl_id row)) (Services (tb el)))) 0,
     plugin\<lparr>pg_id := to_gint (pl_id row)\<rparr>, el') \<and> tb el' = tb el \<and> script el' = []"
  using assms
  by (simp add: init_plugin_def complete_plugin_def Let_def exec_calm select_rows_def
      rtcom_el_db_single_int_def sqlite3_column_int_def)

text \<open>C30: Registration happens once: a plugin that was registered and is loaded again, by this process or another
  one, gets the same service id and plugin id as the first time, and the database does not change.\<close>

theorem init_plugin_again:
  assumes "init_plugin plugin el = (i, plugin', el')" and "i \<noteq> - 1"
    and "complete_plugin plugin name desc service" and "name \<notin> pl_name ` set (Plugins (tb el))"
    and "plugins_ok (tb el)" and "tb el2 = tb el'" and "script el2 = []"
  shows "\<exists>el3. init_plugin plugin el2 = (i, plugin', el3) \<and> tb el3 = tb el'"
proof -
  from unknown_plugin [OF assms(1-4)] obtain el1 where el1: "tb el1 = tb el"
    "init_new_plugin name desc service (plugin\<lparr>pg_id := 0\<rparr>) el1 = (i, plugin', el')" by blast
  let ?pid = "next_rowid (map pl_id (Plugins (tb el)))"
  from init_new_plugin_registers [OF el1(2) assms(2)] el1(1) obtain sid where sid: "i = to_gint sid"
    "plugin' = plugin\<lparr>pg_id := to_gint ?pid\<rparr>" "registers plugin name desc service ?pid sid (tb el) (tb el')"
    by (auto simp: registers_id)
  note g = fresh_plugin(1,2) [OF assms(5)] and old = fresh_plugin(3) [OF assms(5)]
  have none: "filter (\<lambda>r. pl_name r = name) (Plugins (tb el)) = []" using assms(4) by (auto simp: filter_empty_conv)
  let ?row = "\<lparr>pl_id = ?pid, pl_name = name, pl_desc = desc\<rparr>"
  from sid(3) assms(6) none old g have "filter (\<lambda>r. pl_name r = name) (Plugins (tb el2)) = [?row]"
    "map (\<lambda>r. Some (sv_id r)) (filter (\<lambda>r. sv_plugin_id r = to_gint (pl_id ?row)) (Services (tb el2))) = [Some sid]"
    by (auto simp: registers_def)
  with known_plugin [OF assms(3,7) this(1)] g sid(1,2) assms(6) show ?thesis
    by (auto simp: rtcom_el_db_single_int_def sqlite3_column_int_def)
qed

text \<open>A registration that fails half way counts as done the next time: if the name of the plugin's service
  is taken, \<open>_init_plugin\<close> fails, but the row in Plugins stays, because there is no transaction to roll back. When the
  plugin is loaded again it is accepted, with 0 for its service id, and no service, event type or flag.\<close>

theorem plugin_half_registered:
  assumes "complete_plugin plugin name desc service" and "name \<notin> pl_name ` set (Plugins (tb el))"
    and "in_table (services el) (svc_name service)" and "script el = []" and "txn el = None"
    and "plugins_ok (tb el)"
  shows "\<exists>el1 plugin1 el2. init_plugin plugin el = (- 1, plugin1, el1) \<and>
     init_plugin plugin el1 = (0, plugin1, el2) \<and>
     tb el2 = (tb el)\<lparr>Plugins := Plugins (tb el) @ [\<lparr>pl_id = pg_id plugin1, pl_name = name, pl_desc = desc\<rparr>]\<rparr>"
proof -
  let ?pid = "next_rowid (map pl_id (Plugins (tb el)))"
  let ?row = "\<lparr>pl_id = ?pid, pl_name = name, pl_desc = desc\<rparr>"
  note g = fresh_plugin(1,2) [OF assms(6)] and old = fresh_plugin(3) [OF assms(6)]
  have none: "filter (\<lambda>r. pl_name r = name) (Plugins (tb el)) = []" using assms(2) by (auto simp: filter_empty_conv)
  obtain el1 where el1: "init_plugin plugin el = (- 1, plugin\<lparr>pg_id := ?pid\<rparr>, el1)"
    "tb el1 = (tb el)\<lparr>Plugins := Plugins (tb el) @ [?row]\<rparr>" "script el1 = []"
    using assms none g
    by (simp add: init_plugin_def complete_plugin_def Let_def exec_calm select_rows_def init_new_plugin_def
        insert_plugin_def init_plugin_error_def rtcom_el_db_rollback_def rtcom_el_db_single_int_def)
  have "filter (\<lambda>r. pl_name r = name) (Plugins (tb el1)) = [?row]" using none by (simp add: el1(2))
  from known_plugin [OF assms(1) el1(3) this] g obtain el2 where
    "init_plugin plugin el1 = (rtcom_el_db_single_int (map (\<lambda>r. Some (sv_id r))
       (filter (\<lambda>r. sv_plugin_id r = ?pid) (Services (tb el1)))) 0, plugin\<lparr>pg_id := ?pid\<rparr>, el2)" "tb el2 = tb el1"
    by auto
  moreover have "filter (\<lambda>r. sv_plugin_id r = ?pid) (Services (tb el1)) = []" using old by (simp add: el1(2))
  ultimately show ?thesis using el1 by (simp add: rtcom_el_db_single_int_def)
qed

section \<open>A sample plugin\<close>

definition sample_plugin :: "string \<Rightarrow> RTComElPlugin" where
  "sample_plugin service =
     \<lparr>pg_id = 0, pg_init = None, pg_name = Some ''P'', pg_desc = Some ''a plugin'',
      pg_service = Some \<lparr>svc_name = service, svc_desc = None\<rparr>,
      pg_event_types = [\<lparr>evt_name = ''VOICE'', evt_desc = None\<rparr>],
      pg_flags = Some [\<lparr>flg_name = ''MISSED'', flg_value = 4, flg_desc = None\<rparr>], pg_get_value = None\<rparr>"

lemma sample_plugin_complete:
  "complete_plugin (sample_plugin service) ''P'' ''a plugin'' \<lparr>svc_name = service, svc_desc = None\<rparr>"
  by (simp add: complete_plugin_def sample_plugin_def)

definition plugin_el :: el where
  "plugin_el = sample_el\<lparr>tb := sample_tables\<lparr>Plugins :=
     [\<lparr>pl_id = 1, pl_name = ''call'', pl_desc = ''calls''\<rparr>, \<lparr>pl_id = 2, pl_name = ''sms'', pl_desc = ''text''\<rparr>]\<rparr>\<rparr>"

lemma sample_plugins:
  "''P'' \<notin> pl_name ` set (Plugins (tb plugin_el))" "plugins_ok (tb plugin_el)" "script plugin_el = []"
  "txn plugin_el = None" "in_table (services plugin_el) ''CALL''"
  by (simp_all add: plugin_el_def sample_el_def sample_tables_def plugins_ok_def in_table_def)

lemma sample_registration: "fst (init_plugin (sample_plugin ''VOIP'') plugin_el) = 3"
  by code_simp

theorem init_plugin_registers_witness:
  "\<exists>plugin' el' pid sid. init_plugin (sample_plugin ''VOIP'') plugin_el = (3, plugin', el') \<and>
     registers (sample_plugin ''VOIP'') ''P'' ''a plugin'' \<lparr>svc_name = ''VOIP'', svc_desc = None\<rparr> pid sid
       (tb plugin_el) (tb el')"
proof -
  obtain plugin' el' where run: "init_plugin (sample_plugin ''VOIP'') plugin_el = (3, plugin', el')"
    using sample_registration by (metis prod_cases3 fst_conv)
  have "(3 :: int) \<noteq> - 1" by simp
  from init_plugin_registers [OF run this sample_plugin_complete sample_plugins(1)] run show ?thesis by blast
qed

theorem init_plugin_again_witness:
  "\<exists>plugin' el' el3. init_plugin (sample_plugin ''VOIP'') plugin_el = (3, plugin', el') \<and>
     init_plugin (sample_plugin ''VOIP'') (el'\<lparr>script := []\<rparr>) = (3, plugin', el3) \<and> tb el3 = tb el'"
proof -
  obtain plugin' el' where run: "init_plugin (sample_plugin ''VOIP'') plugin_el = (3, plugin', el')"
    using sample_registration by (metis prod_cases3 fst_conv)
  have "(3 :: int) \<noteq> - 1" "tb (el'\<lparr>script := []\<rparr>) = tb el'" "script (el'\<lparr>script := []\<rparr>) = []" by simp_all
  from init_plugin_again [OF run this(1) sample_plugin_complete sample_plugins(1,2) this(2,3)] run
  show ?thesis by blast
qed

theorem plugin_half_registered_witness:
  "\<exists>el1 plugin1 el2. init_plugin (sample_plugin ''CALL'') plugin_el = (- 1, plugin1, el1) \<and>
     init_plugin (sample_plugin ''CALL'') el1 = (0, plugin1, el2) \<and> length (Plugins (tb el2)) = 3"
proof -
  have "in_table (services plugin_el) (svc_name \<lparr>svc_name = ''CALL'', svc_desc = None\<rparr>)"
    using sample_plugins(5) by simp
  from plugin_half_registered [OF sample_plugin_complete sample_plugins(1) this sample_plugins(3,4,2)] obtain
    el1 plugin1 el2 where "init_plugin (sample_plugin ''CALL'') plugin_el = (- 1, plugin1, el1)"
    "init_plugin (sample_plugin ''CALL'') el1 = (0, plugin1, el2)"
    "tb el2 = (tb plugin_el)\<lparr>Plugins := Plugins (tb plugin_el) @
       [\<lparr>pl_id = pg_id plugin1, pl_name = ''P'', pl_desc = ''a plugin''\<rparr>]\<rparr>" by blast
  then show ?thesis
    by (intro exI [of _ el1] exI [of _ plugin1] exI [of _ el2]) (simp add: plugin_el_def)
qed

end
