(* ===== verification/El_Text.thy ===== *)
theory El_Text
  imports El_Prelude
begin

text \<open>
  Text in SQL statements: what \<open>sqlite3_mprintf\<close> prints for \<open>%q\<close> and \<open>%Q\<close>, how SQLite reads a
  string literal, its LIKE operator and its order on strings. A \<open>char\<close> stands for a character
  of the text.
\<close>

section \<open>Printing\<close>

definition double_quotes :: "string \<Rightarrow> string" where
  "double_quotes s = concat (map (\<lambda>c. if c = CHR 0x27 then [c, c] else [c]) s)"

definition printf_q :: "string option \<Rightarrow> string" where
  "printf_q v = (case v of None \<Rightarrow> ''(NULL)'' | Some s \<Rightarrow> double_quotes s)"

definition printf_Q :: "string option \<Rightarrow> string" where
  "printf_Q v = (case v of None \<Rightarrow> ''NULL'' | Some s \<Rightarrow> [CHR 0x27] @ double_quotes s @ [CHR 0x27])"

section \<open>Reading a literal\<close>

text \<open>
  What follows the opening quote: the text up to the closing quote, a doubled quote being
  one quote, and the rest. \<open>None\<close>: the literal does not end.
\<close>

fun read_literal :: "string \<Rightarrow> string \<Rightarrow> (string \<times> string) option" where
  "read_literal acc [] = None"
| "read_literal acc (c # cs) =
     (if c = CHR 0x27
      then case cs of
             d # ds \<Rightarrow> if d = CHR 0x27 then read_literal (acc @ [c]) ds else Some (acc, cs)
           | [] \<Rightarrow> Some (acc, [])
      else read_literal (acc @ [c]) cs)"

lemma double_quotes_simps [simp]:
  "double_quotes [] = []"
  "double_quotes (c # s) = (if c = CHR 0x27 then [c, c] else [c]) @ double_quotes s"
  by (simp_all add: double_quotes_def)

lemma double_quotes_append [simp]: "double_quotes (s @ t) = double_quotes s @ double_quotes t"
  by (simp add: double_quotes_def)

lemma read_literal_quoted:
  assumes "rest = [] \<or> hd rest \<noteq> CHR 0x27"
  shows "read_literal acc (double_quotes s @ CHR 0x27 # rest) = Some (acc @ s, rest)"
  using assms
proof (induction s arbitrary: acc)
  case Nil
  then show ?case by (cases rest) auto
next
  case (Cons c s)
  from Cons.IH [OF Cons.prems, of "acc @ [c]"] show ?case by (cases "c = CHR 0x27") auto
qed

section \<open>Comparing text\<close>

text \<open>The binary collation compares character by character.\<close>

fun text_less :: "string \<Rightarrow> string \<Rightarrow> bool" where
  "text_less s [] = False"
| "text_less [] (d # t) = True"
| "text_less (c # s) (d # t) =
     ((of_char c :: nat) < of_char d \<or> (c = d \<and> text_less s t))"

lemma of_char_less_linear: "(of_char c :: nat) < of_char d \<or> c = d \<or> (of_char d :: nat) < of_char c"
  by (metis nat_neq_iff of_char_eq_iff)

lemma text_less_irrefl [simp]: "\<not> text_less s s"
  by (induction s) auto

lemma text_less_trans: "text_less s t \<Longrightarrow> text_less t u \<Longrightarrow> text_less s u"
proof (induction s t arbitrary: u rule: text_less.induct)
  case (1 s)
  then show ?case by simp
next
  case (2 d t)
  then show ?case by (cases u) auto
next
  case (3 c s d t)
  then show ?case by (cases u) (auto intro: less_trans)
qed

lemma text_less_linear: "text_less s t \<or> s = t \<or> text_less t s"
proof (induction s t rule: text_less.induct)
  case (1 s)
  then show ?case by (cases s) auto
next
  case (3 c s d t)
  then show ?case using of_char_less_linear [of c d] by auto
qed simp

text \<open>
  LIKE ignores the case of the letters of ASCII; \<open>%\<close> stands for any text and \<open>_\<close> for one
  character.
\<close>

definition lower :: "char \<Rightarrow> nat" where
  "lower c = (let n = of_char c in if 65 \<le> n \<and> n \<le> 90 then n + 32 else n)"

fun like :: "string \<Rightarrow> string \<Rightarrow> bool" where
  "like [] t = (t = [])"
| "like (p # ps) t =
     (if p = CHR ''%''
      then like ps t \<or> (case t of [] \<Rightarrow> False | c # cs \<Rightarrow> like (p # ps) cs)
      else case t of
             [] \<Rightarrow> False
           | c # cs \<Rightarrow> (p = CHR ''_'' \<or> lower p = lower c) \<and> like ps cs)"

declare like.simps(2) [simp del]

definition same_letters :: "string \<Rightarrow> string \<Rightarrow> bool" where
  "same_letters s t \<longleftrightarrow> map lower s = map lower t"

definition no_wildcards :: "string \<Rightarrow> bool" where
  "no_wildcards s \<longleftrightarrow> CHR ''%'' \<notin> set s \<and> CHR ''_'' \<notin> set s"

lemma like_plain: "no_wildcards s \<Longrightarrow> like s t \<longleftrightarrow> same_letters s t"
proof (induction s arbitrary: t)
  case (Cons p ps)
  then show ?case
    by (subst like.simps) (auto simp: no_wildcards_def same_letters_def split: list.splits)
qed (auto simp: same_letters_def)

lemma like_any: "like (CHR ''%'' # ps) t \<longleftrightarrow> (\<exists>u v. t = u @ v \<and> like ps v)"
proof (induction t)
  case Nil
  then show ?case by (subst like.simps) simp
next
  case (Cons c t)
  have "like (CHR ''%'' # ps) (c # t) \<longleftrightarrow> like ps (c # t) \<or> like (CHR ''%'' # ps) t"
    by (subst like.simps) simp
  also have "\<dots> \<longleftrightarrow> (\<exists>u v. c # t = u @ v \<and> like ps v)"
    unfolding Cons.IH by (auto simp: Cons_eq_append_conv)
  finally show ?case .
qed

lemma like_ends_with:
  "no_wildcards s \<Longrightarrow> like (CHR ''%'' # s) t \<longleftrightarrow> (\<exists>u v. t = u @ v \<and> same_letters s v)"
  by (simp add: like_any like_plain)

lemma like_then_any:
  assumes "no_wildcards s"
  shows "like (s @ [CHR ''%'']) t \<longleftrightarrow> (\<exists>v w. t = v @ w \<and> same_letters s v)"
  using assms
proof (induction s arbitrary: t)
  case Nil
  have "like [CHR ''%''] t" by (simp add: like_any)
  then show ?case by (simp add: same_letters_def)
next
  case (Cons p ps)
  then have p: "p \<noteq> CHR ''%''" "p \<noteq> CHR ''_''" "no_wildcards ps" by (auto simp: no_wildcards_def)
  show ?case
  proof (cases t)
    case t: (Cons c cs)
    have "(\<exists>v w. t = v @ w \<and> same_letters (p # ps) v) \<longleftrightarrow>
        lower p = lower c \<and> (\<exists>v w. cs = v @ w \<and> same_letters ps v)" (is "?L = ?R")
    proof
      assume ?L
      then obtain v w where v: "t = v @ w" "same_letters (p # ps) v" by blast
      then obtain v' where "v = c # v'" using t by (cases v) (auto simp: same_letters_def)
      with v t show ?R by (auto simp: same_letters_def)
    next
      assume ?R
      then obtain v w where "cs = v @ w" "same_letters ps v" "lower p = lower c" by blast
      with t show ?L by (intro exI [of _ "c # v"] exI [of _ w]) (simp add: same_letters_def)
    qed
    with p Cons.IH [OF p(3), of cs] t show ?thesis
      by (subst append_Cons, subst like.simps) simp
  qed (use p in \<open>simp add: like.simps same_letters_def\<close>)
qed

lemma like_contains:
  assumes "no_wildcards s"
  shows "like (CHR ''%'' # s @ [CHR ''%'']) t \<longleftrightarrow> (\<exists>u v w. t = u @ v @ w \<and> same_letters s v)"
  unfolding like_any like_then_any [OF assms] by blast

end
