(* ===== verification/El_Query.thy ===== *)
theory El_Query
  imports El_Text El_Rows
begin

text \<open>
  The query builder of src/eventlogger-query.c: the object with its properties,
  \<open>rtcom_el_query_prepare\<close>, which turns a list of conditions into the text of a WHERE clause,
  and \<open>rtcom_el_query_refresh\<close>, which builds the statement. Then what SQLite makes of it: how
  the text of a WHERE clause is read, and the rows a statement returns.
\<close>

section \<open>Operators and groupings\<close>

datatype RTComElOp =
    RTCOM_EL_OP_EQUAL | RTCOM_EL_OP_NOT_EQUAL | RTCOM_EL_OP_GREATER
  | RTCOM_EL_OP_GREATER_EQUAL | RTCOM_EL_OP_LESS | RTCOM_EL_OP_LESS_EQUAL
  | RTCOM_EL_OP_IN_STRV | RTCOM_EL_OP_STR_ENDS_WITH | RTCOM_EL_OP_STR_LIKE

datatype RTComElQueryGroupBy =
    RTCOM_EL_QUERY_GROUP_BY_NONE | RTCOM_EL_QUERY_GROUP_BY_CONTACT
  | RTCOM_EL_QUERY_GROUP_BY_UIDS | RTCOM_EL_QUERY_GROUP_BY_GROUP

fun build_operator :: "RTComElOp \<Rightarrow> string option" where
  "build_operator RTCOM_EL_OP_EQUAL = Some ''=''"
| "build_operator RTCOM_EL_OP_NOT_EQUAL = Some ''<>''"
| "build_operator RTCOM_EL_OP_GREATER = Some ''>''"
| "build_operator RTCOM_EL_OP_GREATER_EQUAL = Some ''>=''"
| "build_operator RTCOM_EL_OP_LESS = Some ''<''"
| "build_operator RTCOM_EL_OP_LESS_EQUAL = Some ''<=''"
| "build_operator _ = None"

section \<open>The object and its properties\<close>

text \<open>
  The statement, \<open>priv->sql\<close>, is kept as the values it was printed from; \<open>select_sql\<close> below
  prints it.
\<close>

record el_select =
  sel_group_by :: RTComElQueryGroupBy
  sel_where :: "string option"
  sel_limit :: int
  sel_offset :: int

record RTComElQuery =
  q_el :: bool \<comment> \<open>whether \<open>priv->el\<close> is not NULL\<close>
  q_is_caching :: bool
  q_limit :: int
  q_offset :: int
  q_group_by :: RTComElQueryGroupBy
  q_sql :: "el_select option"
  q_where_clause :: "string option"

definition rtcom_el_query_init :: RTComElQuery where
  "rtcom_el_query_init =
     \<lparr>q_el = False, q_is_caching = False, q_limit = - 1, q_offset = 0,
      q_group_by = RTCOM_EL_QUERY_GROUP_BY_NONE, q_sql = None, q_where_clause = None\<rparr>"

datatype query_property =
    RTCOM_EL_QUERY_PROP_EL bool
  | RTCOM_EL_QUERY_PROP_IS_CACHING bool
  | RTCOM_EL_QUERY_PROP_LIMIT int
  | RTCOM_EL_QUERY_PROP_OFFSET int
  | RTCOM_EL_QUERY_PROP_GROUP_BY RTComElQueryGroupBy

fun rtcom_el_query_set_property :: "query_property \<Rightarrow> RTComElQuery \<Rightarrow> RTComElQuery" where
  "rtcom_el_query_set_property (RTCOM_EL_QUERY_PROP_EL v) q = q\<lparr>q_el := v\<rparr>"
| "rtcom_el_query_set_property (RTCOM_EL_QUERY_PROP_IS_CACHING v) q = q\<lparr>q_is_caching := v\<rparr>"
| "rtcom_el_query_set_property (RTCOM_EL_QUERY_PROP_LIMIT v) q = q\<lparr>q_limit := v\<rparr>"
| "rtcom_el_query_set_property (RTCOM_EL_QUERY_PROP_OFFSET v) q = q\<lparr>q_offset := v\<rparr>"
| "rtcom_el_query_set_property (RTCOM_EL_QUERY_PROP_GROUP_BY v) q = q\<lparr>q_group_by := v\<rparr>"

text \<open>
  The ranges \<open>rtcom_el_query_class_init\<close> installs; \<open>g_object_set\<close> warns about a value outside
  of its range and does not set it.
\<close>

fun query_property_valid :: "query_property \<Rightarrow> bool" where
  "query_property_valid (RTCOM_EL_QUERY_PROP_LIMIT v) = (- 1 \<le> v \<and> v \<le> 2147483647)"
| "query_property_valid (RTCOM_EL_QUERY_PROP_OFFSET v) = (0 \<le> v \<and> v \<le> 2147483647)"
| "query_property_valid _ = True"

definition query_object_set :: "query_property \<Rightarrow> RTComElQuery \<Rightarrow> RTComElQuery" where
  "query_object_set p q = (if query_property_valid p then rtcom_el_query_set_property p q else q)"

definition rtcom_el_query_new :: "bool \<Rightarrow> RTComElQuery" where
  "rtcom_el_query_new el = query_object_set (RTCOM_EL_QUERY_PROP_EL el) rtcom_el_query_init"

definition rtcom_el_query_set_is_caching :: "bool \<Rightarrow> RTComElQuery \<Rightarrow> RTComElQuery" where
  "rtcom_el_query_set_is_caching v = query_object_set (RTCOM_EL_QUERY_PROP_IS_CACHING v)"

definition rtcom_el_query_set_limit :: "int \<Rightarrow> RTComElQuery \<Rightarrow> RTComElQuery" where
  "rtcom_el_query_set_limit v = query_object_set (RTCOM_EL_QUERY_PROP_LIMIT v)"

definition rtcom_el_query_set_offset :: "int \<Rightarrow> RTComElQuery \<Rightarrow> RTComElQuery" where
  "rtcom_el_query_set_offset v = query_object_set (RTCOM_EL_QUERY_PROP_OFFSET v)"

definition rtcom_el_query_set_group_by :: "RTComElQueryGroupBy \<Rightarrow> RTComElQuery \<Rightarrow> RTComElQuery" where
  "rtcom_el_query_set_group_by v = query_object_set (RTCOM_EL_QUERY_PROP_GROUP_BY v)"

section \<open>One condition\<close>

text \<open>
  The value of a condition, a \<open>gpointer\<close>: an integer stored in the pointer, a string, or an
  array of strings that NULL ends.
\<close>

datatype query_value = UintArg "32 word" | StrArg "string option" | StrvArg "string list"

text \<open>
  \<open>Refused\<close>: the function returned FALSE; \<open>Clause\<close>: it appended the text; \<open>Undefined\<close>: a value
  was read as something it is not.
\<close>

datatype clause = Undefined | Refused | Clause string

fun strv_text :: "string list \<Rightarrow> string" where
  "strv_text [] = []"
| "strv_text (v # vs) = printf_Q (Some v) @ (if vs \<noteq> [] then '','' else '' '') @ strv_text vs"

text \<open>
  An integer is printed by \<open>%d\<close>, although it was read as unsigned. The output for debugging of the
  LIKE branch, which prints a \<open>GString\<close> structure as a string, is left out.
\<close>

definition build_where_clause ::
    "RTComElQuery \<Rightarrow> string \<Rightarrow> query_value \<Rightarrow> RTComElOp \<Rightarrow> clause" where
  "build_where_clause query key val op =
     (if \<not> q_el query then Refused
      else case (field_type key, field_column key) of
        (Some ty, Some col) \<Rightarrow>
          if ty = G_TYPE_STRING
          then if op = RTCOM_EL_OP_STR_LIKE
               then (case val of
                       StrArg v \<Rightarrow>
                         Clause (col @ '' LIKE '' @ [CHR 0x27, CHR ''%''] @ printf_q v @
                                 [CHR ''%'', CHR 0x27])
                     | _ \<Rightarrow> Undefined)
               else if op = RTCOM_EL_OP_IN_STRV
               then (case val of
                       StrvArg vs \<Rightarrow> Clause (col @ '' IN ('' @ strv_text vs @ '')'')
                     | _ \<Rightarrow> Undefined)
               else if op = RTCOM_EL_OP_STR_ENDS_WITH
               then (case val of
                       StrArg v \<Rightarrow>
                         Clause (col @ '' LIKE '' @ [CHR 0x27, CHR ''%''] @ printf_q v @ [CHR 0x27])
                     | _ \<Rightarrow> Undefined)
               else (case build_operator op of
                       None \<Rightarrow> Refused
                     | Some o_str \<Rightarrow>
                         (case val of
                            StrArg v \<Rightarrow> Clause (col @ '' '' @ o_str @ '' '' @ printf_Q v)
                          | _ \<Rightarrow> Undefined))
          else (case val of
                  UintArg n \<Rightarrow>
                    (case build_operator op of
                       None \<Rightarrow> Refused
                     | Some o_str \<Rightarrow> Clause (col @ '' '' @ o_str @ '' '' @ show_int (sint n)))
                | _ \<Rightarrow> Undefined)
      | _ \<Rightarrow> Refused)"

section \<open>Preparing a query\<close>

definition rtcom_el_query_refresh :: "RTComElQuery \<Rightarrow> RTComElQuery" where
  "rtcom_el_query_refresh q =
     q\<lparr>q_sql := Some \<lparr>sel_group_by = q_group_by q, sel_where = q_where_clause q,
                        sel_limit = q_limit q, sel_offset = q_offset q\<rparr>\<rparr>"

text \<open>The text of the statement.\<close>

definition select_sql :: "el_select \<Rightarrow> string" where
  "select_sql s =
     (let grp = sel_group_by s;
          wh = (case sel_where s of None \<Rightarrow> [] | Some w \<Rightarrow> '' WHERE '' @ w);
          joins = ''LEFT JOIN Remotes ON Events.remote_uid = Remotes.remote_uid '' @
                  ''AND Events.local_uid = Remotes.local_uid '' @
                  ''LEFT JOIN Headers ON Headers.event_id = Events.id AND Headers.name = '' @
                  [CHR 0x27] @ ''message-token'' @ [CHR 0x27]
      in ''SELECT '' @ selection @
         (if grp = RTCOM_EL_QUERY_GROUP_BY_GROUP
          then '' FROM GroupCache JOIN Events ON GroupCache.event_id = Events.id '' @
               ''JOIN Services ON GroupCache.service_id = Services.id '' @
               ''JOIN EventTypes ON Events.event_type_id = EventTypes.id '' @ joins @ wh
          else '' FROM Events JOIN Services ON Events.service_id = Services.id '' @
               ''JOIN EventTypes ON Events.event_type_id = EventTypes.id '' @ joins @ wh @
               (if grp = RTCOM_EL_QUERY_GROUP_BY_CONTACT then '' GROUP BY unique_remote''
                else if grp = RTCOM_EL_QUERY_GROUP_BY_UIDS
                then '' GROUP BY Remotes.local_uid, Remotes.remote_uid'' else [])) @
         (if grp = RTCOM_EL_QUERY_GROUP_BY_CONTACT \<or> grp = RTCOM_EL_QUERY_GROUP_BY_UIDS
          then '' ORDER BY MAX(Events.id) DESC LIMIT '' else '' ORDER BY Events.id DESC LIMIT '') @
         show_int (sel_limit s) @ '' OFFSET '' @ show_int (sel_offset s) @ '';'')"

text \<open>The loop over the arguments: the clauses are joined by AND.\<close>

type_synonym query_arg = "string \<times> query_value \<times> RTComElOp"

fun build_clauses :: "RTComElQuery \<Rightarrow> query_arg list \<Rightarrow> string \<Rightarrow> clause" where
  "build_clauses query [] where_buf = Clause where_buf"
| "build_clauses query ((col, val, op) # args) where_buf =
     (case build_where_clause query col val op of
        Undefined \<Rightarrow> Undefined
      | Refused \<Rightarrow> Refused
      | Clause t \<Rightarrow>
          build_clauses query args (where_buf @ t @ (if args \<noteq> [] then '' AND '' else [])))"

text \<open>\<open>None\<close>: undefined behaviour.\<close>

definition rtcom_el_query_prepare ::
    "query_arg list \<Rightarrow> RTComElQuery \<Rightarrow> (bool \<times> RTComElQuery) option" where
  "rtcom_el_query_prepare args query =
     (let q1 = query\<lparr>q_where_clause := None\<rparr>
      in if args = [] then Some (True, rtcom_el_query_refresh q1)
         else case build_clauses q1 args [] of
                Undefined \<Rightarrow> None
              | Refused \<Rightarrow> Some (False, q1\<lparr>q_sql := None\<rparr>)
              | Clause w \<Rightarrow> Some (True, rtcom_el_query_refresh (q1\<lparr>q_where_clause := Some w\<rparr>)))"

definition rtcom_el_query_get_sql :: "RTComElQuery \<Rightarrow> string option" where
  "rtcom_el_query_get_sql q = map_option select_sql (q_sql q)"

definition rtcom_el_query_get_where_clause :: "RTComElQuery \<Rightarrow> string option" where
  "rtcom_el_query_get_where_clause q = q_where_clause q"

section \<open>What SQLite reads\<close>

text \<open>
  The grammar of the conditions the builder writes: a column, an operator and a literal.
\<close>

datatype cond =
    IntCond string RTComElOp int
  | TextCond string RTComElOp "string option"
  | InCond string "string list"
  | LikeCond string string

definition read_word :: "string \<Rightarrow> string \<times> string" where
  "read_word s = (takeWhile (\<lambda>c. c \<noteq> CHR '' '') s, tl (dropWhile (\<lambda>c. c \<noteq> CHR '' '') s))"

definition read_operator :: "string \<rightharpoonup> RTComElOp" where
  "read_operator = map_of
     [(''='', RTCOM_EL_OP_EQUAL), (''<>'', RTCOM_EL_OP_NOT_EQUAL), (''>'', RTCOM_EL_OP_GREATER),
      (''>='', RTCOM_EL_OP_GREATER_EQUAL), (''<'', RTCOM_EL_OP_LESS),
      (''<='', RTCOM_EL_OP_LESS_EQUAL)]"

definition read_int :: "string \<Rightarrow> int" where
  "read_int s =
     (case s of
        [] \<Rightarrow> 0
      | c # cs \<Rightarrow> if c = CHR ''-'' then - int (read_digits cs) else int (read_digits s))"

text \<open>The elements of \<open>IN (...)\<close>, after the opening parenthesis; a space may precede the closing one.\<close>

fun read_strv :: "nat \<Rightarrow> string \<Rightarrow> (string list \<times> string) option" where
  "read_strv 0 s = None"
| "read_strv (Suc n) s =
     (case s of
        [] \<Rightarrow> None
      | c # cs \<Rightarrow>
          if c = CHR '')'' then Some ([], cs)
          else if c = CHR '' '' \<or> c = CHR '','' then read_strv n cs
          else if c = CHR 0x27
          then (case read_literal [] cs of
                  None \<Rightarrow> None
                | Some (v, rest) \<Rightarrow> map_option (\<lambda>(vs, r). (v # vs, r)) (read_strv n rest))
          else None)"

definition read_cond :: "string \<Rightarrow> (cond \<times> string) option" where
  "read_cond s =
     (case read_word s of (col, s1) \<Rightarrow>
      case read_word s1 of (opw, s2) \<Rightarrow>
        if opw = ''IN''
        then map_option (\<lambda>(vs, rest). (InCond col vs, rest)) (read_strv (length s) (tl s2))
        else if opw = ''LIKE''
        then map_option (\<lambda>(p, rest). (LikeCond col p, rest)) (read_literal [] (tl s2))
        else case read_operator opw of
               None \<Rightarrow> None
             | Some op \<Rightarrow>
                 if take 1 s2 = [CHR 0x27]
                 then map_option (\<lambda>(v, rest). (TextCond col op (Some v), rest)) (read_literal [] (tl s2))
                 else if take 4 s2 = ''NULL'' then Some (TextCond col op None, drop 4 s2)
                 else Some (IntCond col op (read_int (takeWhile (\<lambda>c. c \<noteq> CHR '' '') s2)),
                            dropWhile (\<lambda>c. c \<noteq> CHR '' '') s2))"

fun read_conds :: "nat \<Rightarrow> string \<Rightarrow> cond list option" where
  "read_conds 0 s = None"
| "read_conds (Suc n) s =
     (case read_cond s of
        None \<Rightarrow> None
      | Some (c, rest) \<Rightarrow>
          if rest = [] then Some [c]
          else if take 5 rest = '' AND '' then map_option (\<lambda>cs. c # cs) (read_conds n (drop 5 rest))
          else None)"

definition parse_where :: "string \<Rightarrow> cond list option" where
  "parse_where w = read_conds (length w) w"

text \<open>A comparison with NULL is not true, whichever side is NULL.\<close>

fun compare_op :: "RTComElOp \<Rightarrow> bool \<Rightarrow> bool \<Rightarrow> bool" where
  "compare_op RTCOM_EL_OP_EQUAL lt same = same"
| "compare_op RTCOM_EL_OP_NOT_EQUAL lt same = (\<not> same)"
| "compare_op RTCOM_EL_OP_GREATER lt same = (\<not> lt \<and> \<not> same)"
| "compare_op RTCOM_EL_OP_GREATER_EQUAL lt same = (\<not> lt)"
| "compare_op RTCOM_EL_OP_LESS lt same = lt"
| "compare_op RTCOM_EL_OP_LESS_EQUAL lt same = (lt \<or> same)"
| "compare_op _ lt same = False"

fun cond_holds :: "cond \<Rightarrow> joined_row \<Rightarrow> bool" where
  "cond_holds (IntCond c op n) j =
     (case column_value c j of IntVal i \<Rightarrow> compare_op op (i < n) (i = n) | _ \<Rightarrow> False)"
| "cond_holds (TextCond c op v) j =
     (case (column_value c j, v) of
        (TextVal t, Some s) \<Rightarrow> compare_op op (text_less t s) (t = s) | _ \<Rightarrow> False)"
| "cond_holds (InCond c vs) j =
     (case column_value c j of TextVal t \<Rightarrow> t \<in> set vs | _ \<Rightarrow> False)"
| "cond_holds (LikeCond c p) j =
     (case column_value c j of TextVal t \<Rightarrow> like p t | _ \<Rightarrow> False)"

definition where_holds :: where_meaning where
  "where_holds w = map_option (\<lambda>cs j. list_all (\<lambda>c. cond_holds c j) cs) (parse_where w)"

section \<open>The rows of a statement\<close>

text \<open>
  With MAX(Events.id) in the ORDER BY, SQLite takes the columns of a group from the row that
  has the maximum. NULL is one group. A negative LIMIT is none.
\<close>

fun newest_row :: "joined_row \<Rightarrow> joined_row list \<Rightarrow> joined_row" where
  "newest_row m [] = m"
| "newest_row m (j # js) =
     newest_row (if e_id (jn_event m) < e_id (jn_event j) then j else m) js"

definition group_rows :: "(joined_row \<Rightarrow> 'k) \<Rightarrow> joined_row list \<Rightarrow> joined_row list" where
  "group_rows key js =
     map (\<lambda>k. let g = filter (\<lambda>j. key j = k) js in newest_row (hd g) (tl g)) (remdups (map key js))"

definition order_rows :: "joined_row list \<Rightarrow> joined_row list" where
  "order_rows js = sort_key (\<lambda>j. - e_id (jn_event j)) js"

definition limit_rows :: "int \<Rightarrow> int \<Rightarrow> 'r list \<Rightarrow> 'r list" where
  "limit_rows lm off js =
     (let rest = drop (nat off) js in if lm < 0 then rest else take (nat lm) rest)"

definition remote_key :: "joined_row \<Rightarrow> (string \<times> string) option" where
  "remote_key j = map_option (\<lambda>r. (rm_local_uid r, rm_remote_uid r)) (jn_remote j)"

text \<open>\<open>None\<close>: the WHERE clause does not compile.\<close>

definition query_rows :: "where_meaning \<Rightarrow> el_select \<Rightarrow> (tables \<Rightarrow> joined_row list) option" where
  "query_rows holds s =
     map_option (\<lambda>P t.
       limit_rows (sel_limit s) (sel_offset s) (order_rows
         (case sel_group_by s of
            RTCOM_EL_QUERY_GROUP_BY_GROUP \<Rightarrow> filter P (joined_groups t)
          | RTCOM_EL_QUERY_GROUP_BY_NONE \<Rightarrow> filter P (joined t)
          | RTCOM_EL_QUERY_GROUP_BY_CONTACT \<Rightarrow> group_rows unique_remote (filter P (joined t))
          | RTCOM_EL_QUERY_GROUP_BY_UIDS \<Rightarrow> group_rows remote_key (filter P (joined t)))))
       (case sel_where s of None \<Rightarrow> Some (\<lambda>j. True) | Some w \<Rightarrow> holds w)"

end
