(* ===== verification/El_Iter.thy ===== *)
theory El_Iter
  imports El_Plugin El_Query
begin

text \<open>
  The iterators: \<open>_get_events_core\<close> of src/eventlogger.c, the event iterator of
  src/eventlogger-iter.c and the attachment iterator of src/eventlogger-attach-iter.c.
\<close>

section \<open>Statements that are being stepped\<close>

text \<open>
  The \<open>sqlite3_stmt\<close> pointer of an iterator: NULL, a statement that was finalized although
  the pointer is still there, a statement before its first row, or on a row with the rows to
  come. The rows are those of the tables at the first step; what SQLite shows of changes made
  by the same connection afterwards is undefined, so that this is only right while there are
  none.
\<close>

datatype 'r cursor =
    NoStmt
  | Finalized
  | AtStart "tables \<Rightarrow> 'r list"
  | OnRow "tables \<Rightarrow> 'r list" 'r "'r list"

datatype 'r stepped = StepRow 'r | StepDone | StepError

fun rows_left :: "tables \<Rightarrow> 'r cursor \<Rightarrow> 'r list" where
  "rows_left t (AtStart q) = q t"
| "rows_left t (OnRow q r rs) = rs"
| "rows_left t _ = []"

fun cursor_query :: "'r cursor \<Rightarrow> tables \<Rightarrow> 'r list" where
  "cursor_query (AtStart q) = q"
| "cursor_query (OnRow q r rs) = q"
| "cursor_query _ = (\<lambda>t. [])"

definition has_stmt :: "'r cursor \<Rightarrow> bool" where
  "has_stmt cur = (case cur of NoStmt \<Rightarrow> False | _ \<Rightarrow> True)"

definition step_row :: "'r cursor \<Rightarrow> el \<Rightarrow> 'r stepped \<times> 'r cursor \<times> el" where
  "step_row cur el =
     (case rows_left (tb el) cur of
        [] \<Rightarrow> (StepDone, cur, el)
      | r # rs \<Rightarrow> (StepRow r, OnRow (cursor_query cur) r rs, el))"

text \<open>
  \<open>sqlite3_step\<close> itself, and the step with the busy loop of \<open>rtcom_el_db_iterate\<close>.
\<close>

definition sqlite3_step :: "'r cursor \<Rightarrow> el \<Rightarrow> 'r stepped \<times> 'r cursor \<times> el" where
  "sqlite3_step cur el =
     (case script el of
        Refuse c t rb # as \<Rightarrow> (StepError, cur, (refused c rb el (tb el))\<lparr>script := as\<rparr>)
      | _ \<Rightarrow> step_row cur (el\<lparr>script := tl (script el)\<rparr>))"

definition iterate_stmt :: "'r cursor \<Rightarrow> el \<Rightarrow> 'r stepped \<times> 'r cursor \<times> el" where
  "iterate_stmt cur el =
     (case rtcom_el_db_iterate (script el) of
        (Failed c e rb, as) \<Rightarrow> (StepError, cur, (refused c rb el (tb el))\<lparr>script := as\<rparr>)
      | (Stepped, as) \<Rightarrow> step_row cur (el\<lparr>script := as\<rparr>))"

text \<open>\<open>sqlite3_prepare\<close>: whether it succeeded.\<close>

definition sqlite3_prepare :: "'q option \<Rightarrow> el \<Rightarrow> 'q option \<times> el" where
  "sqlite3_prepare q el =
     (case script el of
        Refuse c t rb # as \<Rightarrow> (None, el\<lparr>script := as, errcode := Some c\<rparr>)
      | _ \<Rightarrow> (q, el\<lparr>script := tl (script el)\<rparr>))"

section \<open>The event iterator\<close>

record RTComElIter =
  it_query :: RTComElQuery
  it_stmt :: "row cursor"
  it_columns :: "(string \<rightharpoonup> gvalue) option"
  it_atomic :: bool
  current_event_id :: int
  current_service_id :: int
  current_event_type_id :: int
  currently_active_plugin :: "RTComElPlugin option"

text \<open>\<open>g_value_get_*\<close> of what \<open>g_hash_table_lookup\<close> found.\<close>

definition cell_int :: "gvalue option \<Rightarrow> int" where
  "cell_int v = (case v of Some (GInt i) \<Rightarrow> i | _ \<Rightarrow> 0)"

definition cell_boolean :: "gvalue option \<Rightarrow> int" where
  "cell_boolean v = (case v of Some (GBool b) \<Rightarrow> if b then 1 else 0 | _ \<Rightarrow> 0)"

definition cell_string :: "gvalue option \<Rightarrow> string option" where
  "cell_string v = (case v of Some (GStr s) \<Rightarrow> s | _ \<Rightarrow> None)"

definition update_representation :: "(int \<rightharpoonup> RTComElPlugin) \<Rightarrow> row \<Rightarrow> RTComElIter \<Rightarrow> RTComElIter" where
  "update_representation pls r it =
     (let cols = (case it_columns it of
                    Some c \<Rightarrow> rtcom_el_db_schema_update_row r c
                  | None \<Rightarrow> rtcom_el_db_schema_get_row r);
          service = cell_int (cols ''service-id'')
      in it\<lparr>it_columns := Some cols, current_event_id := cell_int (cols ''id''),
            current_service_id := service,
            current_event_type_id := cell_int (cols ''event-type-id''),
            currently_active_plugin := pls service\<rparr>)"

definition rtcom_el_iter_init :: "RTComElQuery \<Rightarrow> RTComElIter" where
  "rtcom_el_iter_init query =
     \<lparr>it_query = query, it_stmt = NoStmt, it_columns = None, it_atomic = False,
      current_event_id = - 1, current_service_id = - 1, current_event_type_id = - 1,
      currently_active_plugin = None\<rparr>"

text \<open>\<open>g_object_new\<close>: the construction properties, then the constructor.\<close>

definition rtcom_el_iter_constructor ::
    "RTComElQuery \<Rightarrow> row cursor \<Rightarrow> row \<Rightarrow> (int \<rightharpoonup> RTComElPlugin) \<Rightarrow> bool \<Rightarrow> RTComElIter" where
  "rtcom_el_iter_constructor query stmt r pls atomic =
     update_representation pls r ((rtcom_el_iter_init query)\<lparr>it_stmt := stmt, it_atomic := atomic\<rparr>)"

definition get_events_core ::
    "where_meaning \<Rightarrow> RTComElQuery \<Rightarrow> bool \<Rightarrow> el \<Rightarrow> RTComElIter option \<times> el" where
  "get_events_core holds query atomic el0 =
     (case ensure_db True el0 of (opened, el) \<Rightarrow>
      if \<not> opened then (None, el)
      else case sqlite3_prepare (Option.bind (q_sql query) (query_rows holds)) el of
        (None, el1) \<Rightarrow> (None, el1)
      | (Some q, el1) \<Rightarrow>
          (case (if atomic then rtcom_el_db_transaction False el1 else (True, None, el1)) of
             (False, _, el2) \<Rightarrow> (None, el2)
           | (True, _, el2) \<Rightarrow>
               (case sqlite3_step (AtStart (\<lambda>t. map select_row (q t))) el2 of
                  (StepRow r, stmt, el3) \<Rightarrow>
                    (Some (rtcom_el_iter_constructor query stmt r (plugins el3) atomic), el3)
                | (_, _, el3) \<Rightarrow>
                    (None, if atomic then snd (snd (rtcom_el_db_rollback el3)) else el3))))"

definition rtcom_el_get_events :: "where_meaning \<Rightarrow> RTComElQuery \<Rightarrow> el \<Rightarrow> RTComElIter option \<times> el" where
  "rtcom_el_get_events holds query = get_events_core holds query False"

definition rtcom_el_get_events_atomic ::
    "where_meaning \<Rightarrow> RTComElQuery \<Rightarrow> el \<Rightarrow> RTComElIter option \<times> el" where
  "rtcom_el_get_events_atomic holds query = get_events_core holds query True"

text \<open>
  Moving on: \<open>None\<close> is the use of a statement that was finalized. After an error the pointer
  is not cleared.
\<close>

definition rtcom_el_iter_next :: "RTComElIter \<Rightarrow> el \<Rightarrow> (bool \<times> RTComElIter \<times> el) option" where
  "rtcom_el_iter_next it el =
     (case it_stmt it of
        NoStmt \<Rightarrow> Some (False, it, el)
      | Finalized \<Rightarrow> None
      | stmt \<Rightarrow>
          (case iterate_stmt stmt el of
             (StepDone, _, el1) \<Rightarrow> Some (False, it\<lparr>it_stmt := NoStmt\<rparr>, el1)
           | (StepError, _, el1) \<Rightarrow> Some (False, it\<lparr>it_stmt := Finalized\<rparr>, el1)
           | (StepRow r, stmt1, el1) \<Rightarrow>
               Some (True, update_representation (plugins el1) r (it\<lparr>it_stmt := stmt1\<rparr>), el1)))"

definition rtcom_el_iter_first :: "RTComElIter \<Rightarrow> el \<Rightarrow> (bool \<times> RTComElIter \<times> el) option" where
  "rtcom_el_iter_first it el =
     (case it_stmt it of
        NoStmt \<Rightarrow> Some (False, it, el)
      | Finalized \<Rightarrow> None
      | stmt \<Rightarrow> rtcom_el_iter_next (it\<lparr>it_stmt := AtStart (cursor_query stmt)\<rparr>) el)"

definition rtcom_el_iter_finalize :: "RTComElIter \<Rightarrow> el \<Rightarrow> el option" where
  "rtcom_el_iter_finalize it el =
     (let el1 = (if it_atomic it then snd (snd (rtcom_el_db_commit el)) else el)
      in case it_stmt it of Finalized \<Rightarrow> None | _ \<Rightarrow> Some el1)"

section \<open>Reading the current event\<close>

definition rtcom_el_iter_get_raw :: "RTComElIter \<Rightarrow> string \<Rightarrow> gvalue option" where
  "rtcom_el_iter_get_raw it col = Option.bind (it_columns it) (\<lambda>cols. cols col)"

definition event_headers :: "el \<Rightarrow> int \<Rightarrow> string \<rightharpoonup> string" where
  "event_headers el i =
     map_of (map (\<lambda>h. (hd_name h, hd_value h)) (filter (\<lambda>h. hd_event_id h = i) (Headers (tb el))))"

definition ask_plugin :: "RTComElIter \<Rightarrow> el \<Rightarrow> string \<Rightarrow> gvalue option" where
  "ask_plugin it el key =
     (case Option.bind (currently_active_plugin it) pg_get_value of
        None \<Rightarrow> None
      | Some f \<Rightarrow>
          f (case it_columns it of None \<Rightarrow> Map.empty | Some c \<Rightarrow> c)
            (event_headers el (current_event_id it)) key)"

definition find_value :: "RTComElIter \<Rightarrow> el \<Rightarrow> string \<Rightarrow> gvalue option" where
  "find_value it el key =
     (case ask_plugin it el key of
        Some v \<Rightarrow> Some v
      | None \<Rightarrow> rtcom_el_iter_get_raw it key)"

text \<open>
  \<open>rtcom_el_iter_get_values\<close> stores the values one by one and stops at the first that is not
  found; the result is whether all were, and those stored.
\<close>

fun get_values_loop :: "RTComElIter \<Rightarrow> el \<Rightarrow> string list \<Rightarrow> bool \<times> gvalue list" where
  "get_values_loop it el [] = (True, [])"
| "get_values_loop it el (item # items) =
     (case find_value it el item of
        None \<Rightarrow> (False, [])
      | Some v \<Rightarrow> (case get_values_loop it el items of (ok, vs) \<Rightarrow> (ok, v # vs)))"

definition rtcom_el_iter_get_values :: "RTComElIter \<Rightarrow> el \<Rightarrow> string list \<Rightarrow> bool \<times> gvalue list" where
  "rtcom_el_iter_get_values it el items =
     (if Option.is_none (it_columns it) \<or> items = [] then (False, []) else get_values_loop it el items)"

definition rtcom_el_iter_get_int :: "RTComElIter \<Rightarrow> el \<Rightarrow> string \<Rightarrow> bool \<times> gvalue list" where
  "rtcom_el_iter_get_int it el key = rtcom_el_iter_get_values it el [key]"

definition rtcom_el_iter_dup_string :: "RTComElIter \<Rightarrow> el \<Rightarrow> string \<Rightarrow> bool \<times> gvalue list" where
  "rtcom_el_iter_dup_string it el key = rtcom_el_iter_get_values it el [key]"

text \<open>The map and the array hold an uninitialised value for an item that is not found.\<close>

definition rtcom_el_iter_get_value_map ::
    "RTComElIter \<Rightarrow> el \<Rightarrow> string list \<Rightarrow> (string \<rightharpoonup> gvalue option) option" where
  "rtcom_el_iter_get_value_map it el items =
     (if Option.is_none (it_columns it) \<or> items = [] then None
      else Some (fold (\<lambda>item m. m(item \<mapsto> find_value it el item)) items Map.empty))"

definition rtcom_el_iter_get_valuearray ::
    "RTComElIter \<Rightarrow> el \<Rightarrow> string list \<Rightarrow> gvalue option list option" where
  "rtcom_el_iter_get_valuearray it el items =
     (if Option.is_none (it_columns it) \<or> items = [] then None else Some (map (find_value it el) items))"

definition rtcom_el_iter_get_columns :: "RTComElIter \<Rightarrow> (string \<rightharpoonup> gvalue) option" where
  "rtcom_el_iter_get_columns it = (if has_stmt (it_stmt it) then it_columns it else None)"

text \<open>\<open>get_full\<close> without the plugin's part.\<close>

definition event_of_columns :: "(string \<rightharpoonup> gvalue) \<Rightarrow> RTComElEvent \<Rightarrow> RTComElEvent" where
  "event_of_columns cols ev0 =
     (let int = (\<lambda>k. cell_int (cols k)); bool = (\<lambda>k. cell_boolean (cols k));
          str = (\<lambda>k. cell_string (cols k));
          ev1 = event_set_field F_id (\<lambda>e. e\<lparr>fld_id := int ''id''\<rparr>) ev0;
          ev2 = event_set_field F_service_id (\<lambda>e. e\<lparr>fld_service_id := int ''service-id''\<rparr>) ev1;
          ev3 = event_set_field F_event_type_id (\<lambda>e. e\<lparr>fld_event_type_id := int ''event-type-id''\<rparr>) ev2;
          ev4 = event_set_field F_service (\<lambda>e. e\<lparr>fld_service := str ''service''\<rparr>) ev3;
          ev5 = event_set_field F_event_type (\<lambda>e. e\<lparr>fld_event_type := str ''event-type''\<rparr>) ev4;
          ev6 = event_set_field F_storage_time (\<lambda>e. e\<lparr>fld_storage_time := int ''storage-time''\<rparr>) ev5;
          ev7 = event_set_field F_start_time (\<lambda>e. e\<lparr>fld_start_time := int ''start-time''\<rparr>) ev6;
          ev8 = event_set_field F_end_time (\<lambda>e. e\<lparr>fld_end_time := int ''end-time''\<rparr>) ev7;
          ev9 = event_set_field F_is_read (\<lambda>e. e\<lparr>fld_is_read := bool ''is-read''\<rparr>) ev8;
          ev10 = event_set_field F_outgoing (\<lambda>e. e\<lparr>fld_outgoing := bool ''outgoing''\<rparr>) ev9;
          ev11 = event_set_field F_flags (\<lambda>e. e\<lparr>fld_flags := int ''flags''\<rparr>) ev10;
          ev12 = event_set_field F_bytes_sent (\<lambda>e. e\<lparr>fld_bytes_sent := int ''bytes-sent''\<rparr>) ev11;
          ev13 = event_set_field F_bytes_received
                   (\<lambda>e. e\<lparr>fld_bytes_received := int ''bytes-received''\<rparr>) ev12;
          ev14 = event_set_field F_remote_ebook_uid
                   (\<lambda>e. e\<lparr>fld_remote_ebook_uid := str ''remote-ebook-uid''\<rparr>) ev13;
          ev15 = event_set_field F_local_uid (\<lambda>e. e\<lparr>fld_local_uid := str ''local-uid''\<rparr>) ev14;
          ev16 = event_set_field F_local_name (\<lambda>e. e\<lparr>fld_local_name := str ''local-name''\<rparr>) ev15;
          ev17 = event_set_field F_remote_uid (\<lambda>e. e\<lparr>fld_remote_uid := str ''remote-uid''\<rparr>) ev16;
          ev18 = event_set_field F_remote_name (\<lambda>e. e\<lparr>fld_remote_name := str ''remote-name''\<rparr>) ev17;
          ev19 = event_set_field F_channel (\<lambda>e. e\<lparr>fld_channel := str ''channel''\<rparr>) ev18;
          ev20 = event_set_field F_free_text (\<lambda>e. e\<lparr>fld_free_text := str ''free-text''\<rparr>) ev19;
          ev21 = event_set_field F_group_uid (\<lambda>e. e\<lparr>fld_group_uid := str ''group-uid''\<rparr>) ev20;
          ev22 = event_set_field F_additional_text (\<lambda>e. e\<lparr>fld_additional_text := None\<rparr>) ev21;
          ev23 = event_set_field F_icon_name (\<lambda>e. e\<lparr>fld_icon_name := str ''service''\<rparr>) ev22
      in event_set_field F_pango_markup (\<lambda>e. e\<lparr>fld_pango_markup := str ''service''\<rparr>) ev23)"

definition rtcom_el_iter_get_full :: "RTComElIter \<Rightarrow> el \<Rightarrow> RTComElEvent \<Rightarrow> bool \<times> RTComElEvent" where
  "rtcom_el_iter_get_full it el ev =
     (case it_columns it of
        None \<Rightarrow> (False, ev)
      | Some cols \<Rightarrow>
          if \<not> has_stmt (it_stmt it) then (False, ev)
          else
            let ev1 = event_of_columns cols ev;
                ev2 = (case ask_plugin it el ''additional-text'' of
                         None \<Rightarrow> ev1
                       | Some v \<Rightarrow> event_set_field F_additional_text
                                     (\<lambda>e. e\<lparr>fld_additional_text := cell_string (Some v)\<rparr>) ev1);
                ev3 = (case ask_plugin it el ''icon-name'' of
                         None \<Rightarrow> ev2
                       | Some v \<Rightarrow> event_set_field F_icon_name
                                     (\<lambda>e. e\<lparr>fld_icon_name := cell_string (Some v)\<rparr>) ev2)
            in (True,
                case ask_plugin it el ''pango-markup'' of
                  None \<Rightarrow> ev3
                | Some v \<Rightarrow> event_set_field F_pango_markup
                              (\<lambda>e. e\<lparr>fld_pango_markup := cell_string (Some v)\<rparr>) ev3))"

definition rtcom_el_iter_get :: "RTComElIter \<Rightarrow> el \<Rightarrow> RTComElEvent \<Rightarrow> bool \<times> RTComElEvent" where
  "rtcom_el_iter_get = rtcom_el_iter_get_full"

definition rtcom_el_iter_get_header_raw :: "RTComElIter \<Rightarrow> string \<Rightarrow> el \<Rightarrow> string option \<times> el" where
  "rtcom_el_iter_get_header_raw it key el =
     (case sqlite3_prepare (Some (\<lambda>t. map hd_value
             (filter (\<lambda>h. hd_event_id h = current_event_id it \<and> hd_name h = key) (Headers t)))) el of
        (None, el1) \<Rightarrow> (None, el1)
      | (Some q, el1) \<Rightarrow>
          (case sqlite3_step (AtStart q) el1 of
             (StepRow v, _, el2) \<Rightarrow> (Some v, el2)
           | (_, _, el2) \<Rightarrow> (None, el2)))"

section \<open>The attachment iterator\<close>

record RTComElAttachment =
  att_id :: int
  att_event_id :: int
  att_path :: "string option"
  att_desc :: "string option"

record RTComElAttachIter =
  ai_stmt :: "attachment_row cursor"

definition rtcom_el_attachment_new :: "string option \<Rightarrow> string option \<Rightarrow> RTComElAttachment option" where
  "rtcom_el_attachment_new path desc =
     (if path = None then None
      else Some \<lparr>att_id = 0, att_event_id = 0, att_path = path, att_desc = desc\<rparr>)"

definition attachments_of :: "int \<Rightarrow> tables \<Rightarrow> attachment_row list" where
  "attachments_of i t = filter (\<lambda>a. at_event_id a = i) (Attachments t)"

definition rtcom_el_iter_get_attachments :: "RTComElIter \<Rightarrow> el \<Rightarrow> RTComElAttachIter option \<times> el" where
  "rtcom_el_iter_get_attachments it el =
     (if \<not> has_stmt (it_stmt it) then (None, el)
      else case sqlite3_prepare (Some (attachments_of (current_event_id it))) el of
        (None, el1) \<Rightarrow> (None, el1)
      | (Some q, el1) \<Rightarrow>
          (case iterate_stmt (AtStart q) el1 of
             (StepRow a, stmt, el2) \<Rightarrow> (Some \<lparr>ai_stmt = stmt\<rparr>, el2)
           | (_, _, el2) \<Rightarrow> (None, el2)))"

definition rtcom_el_attach_iter_next :: "RTComElAttachIter \<Rightarrow> el \<Rightarrow> (bool \<times> RTComElAttachIter \<times> el) option"
where
  "rtcom_el_attach_iter_next it el =
     (case ai_stmt it of
        NoStmt \<Rightarrow> Some (False, it, el)
      | Finalized \<Rightarrow> None
      | stmt \<Rightarrow>
          (case iterate_stmt stmt el of
             (StepRow a, stmt1, el1) \<Rightarrow> Some (True, it\<lparr>ai_stmt := stmt1\<rparr>, el1)
           | (_, _, el1) \<Rightarrow> Some (False, it\<lparr>ai_stmt := NoStmt\<rparr>, el1)))"

definition rtcom_el_attach_iter_first :: "RTComElAttachIter \<Rightarrow> el \<Rightarrow> (bool \<times> RTComElAttachIter \<times> el) option"
where
  "rtcom_el_attach_iter_first it el =
     (case ai_stmt it of
        NoStmt \<Rightarrow> Some (False, it, el)
      | Finalized \<Rightarrow> None
      | stmt \<Rightarrow> rtcom_el_attach_iter_next (it\<lparr>ai_stmt := AtStart (cursor_query stmt)\<rparr>) el)"

text \<open>The current row; before the first row SQLite's columns are NULL.\<close>

definition rtcom_el_attach_iter_get :: "RTComElAttachIter \<Rightarrow> RTComElAttachment option" where
  "rtcom_el_attach_iter_get it =
     (case ai_stmt it of
        OnRow q a rs \<Rightarrow>
          Some \<lparr>att_id = to_gint (at_id a), att_event_id = to_gint (at_event_id a),
                att_path = Some (at_path a), att_desc = at_desc a\<rparr>
      | AtStart q \<Rightarrow> Some \<lparr>att_id = 0, att_event_id = 0, att_path = None, att_desc = None\<rparr>
      | _ \<Rightarrow> None)"

definition rtcom_el_attach_iter_finalize :: "RTComElAttachIter \<Rightarrow> el \<Rightarrow> el option" where
  "rtcom_el_attach_iter_finalize it el = (case ai_stmt it of Finalized \<Rightarrow> None | _ \<Rightarrow> Some el)"

end
