(* ===== verification/El_Query_Props.thy ===== *)
theory El_Query_Props
  imports El_Query
begin

text \<open>
  What the WHERE clause of a query means: SQLite reads back the conditions it was built from,
  whatever text the values contain, and evaluates them on the rows of the join.
\<close>

section \<open>Words and numbers in the text\<close>

lemma read_word_append [simp]:
  "CHR '' '' \<notin> set w \<Longrightarrow> read_word (w @ CHR '' '' # s) = (w, s)"
proof -
  assume "CHR '' '' \<notin> set w"
  then have "takeWhile (\<lambda>c. c \<noteq> CHR '' '') (w @ CHR '' '' # s) = w"
    "dropWhile (\<lambda>c. c \<noteq> CHR '' '') (w @ CHR '' '' # s) = CHR '' '' # s"
    by (induction w) auto
  then show ?thesis by (simp add: read_word_def)
qed

lemma column_no_space:
  assumes "field_column key = Some col"
  shows "CHR '' '' \<notin> set col"
proof -
  from assms have "(key, col) \<in> set (map (\<lambda>(n, ty, c). (n, c)) event_fields)"
    unfolding field_column_def by (rule map_of_SomeD)
  moreover have "list_all (\<lambda>(n, ty, c). CHR '' '' \<notin> set c) event_fields" by (simp add: event_fields_def)
  ultimately show ?thesis by (auto simp: list_all_iff)
qed

lemma operator_word:
  assumes "build_operator op = Some w"
  shows "CHR '' '' \<notin> set w" and "w \<noteq> ''IN''" and "w \<noteq> ''LIKE''" and "read_operator w = Some op"
proof -
  have "CHR '' '' \<notin> set w \<and> w \<noteq> ''IN'' \<and> w \<noteq> ''LIKE'' \<and> read_operator w = Some op"
    using assms by (cases op) (auto simp: read_operator_def)
  then show "CHR '' '' \<notin> set w" "w \<noteq> ''IN''" "w \<noteq> ''LIKE''" "read_operator w = Some op" by simp_all
qed

lemma digit_plain: "n < 10 \<Longrightarrow> digit n \<noteq> CHR '' '' \<and> digit n \<noteq> CHR ''-'' \<and> digit n \<noteq> CHR 0x27 \<and> digit n \<noteq> CHR ''N''"
proof -
  assume n: "n < 10"
  have "(of_char (digit n) :: nat) = 48 + n" using n by (rule of_char_digit)
  then have "of_char (digit n) \<noteq> (32 :: nat)" "of_char (digit n) \<noteq> (45 :: nat)"
    "of_char (digit n) \<noteq> (39 :: nat)" "of_char (digit n) \<noteq> (78 :: nat)" using n by simp_all
  then show ?thesis by (auto simp: of_char_def)
qed

lemma show_nat_plain:
  "c \<in> set (show_nat n) \<Longrightarrow> c \<noteq> CHR '' '' \<and> c \<noteq> CHR ''-'' \<and> c \<noteq> CHR 0x27 \<and> c \<noteq> CHR ''N''"
proof -
  assume "c \<in> set (show_nat n)"
  then obtain k where "k < 10" "c = digit k" using show_nat_digits [of n] by auto
  with digit_plain [of k] show ?thesis by simp
qed

lemma show_nat_nonempty [simp]: "show_nat n \<noteq> []"
  by (subst show_nat.simps) simp

lemma show_int_plain:
  "c \<in> set (show_int i) \<Longrightarrow> c \<noteq> CHR '' '' \<and> c \<noteq> CHR 0x27 \<and> c \<noteq> CHR ''N''"
  using show_nat_plain by (auto simp: show_int_def split: if_splits)

lemma show_int_nonempty [simp]: "show_int i \<noteq> []"
  by (simp add: show_int_def)

lemma read_show_int [simp]: "read_int (show_int i) = i"
proof (cases "i < 0")
  case False
  obtain c cs where "show_nat (nat i) = c # cs" by (cases "show_nat (nat i)") simp_all
  with show_nat_plain [of c "nat i"] False show ?thesis
    using read_show_nat [of "nat i"] by (simp add: read_int_def show_int_def)
qed (simp add: read_int_def show_int_def)

lemma takeWhile_word:
  "(\<And>c. c \<in> set w \<Longrightarrow> P c) \<Longrightarrow> rest = [] \<or> \<not> P (hd rest) \<Longrightarrow>
     takeWhile P (w @ rest) = w \<and> dropWhile P (w @ rest) = rest"
  by (cases rest) (simp_all add: takeWhile_append dropWhile_append)

section \<open>One condition\<close>

definition pattern_of :: "string option \<Rightarrow> string" where
  "pattern_of v = (case v of None \<Rightarrow> ''(NULL)'' | Some s \<Rightarrow> s)"

lemma printf_q_pattern: "printf_q v = double_quotes (pattern_of v)"
  by (cases v) (simp_all add: printf_q_def pattern_of_def)

definition meant_cond :: "query_arg \<Rightarrow> cond" where
  "meant_cond a =
     (case a of (key, val, op) \<Rightarrow>
        let col = the (field_column key)
        in case val of
             UintArg n \<Rightarrow> IntCond col op (sint n)
           | StrvArg vs \<Rightarrow> InCond col vs
           | StrArg v \<Rightarrow>
               if op = RTCOM_EL_OP_STR_LIKE
               then LikeCond col (CHR ''%'' # pattern_of v @ [CHR ''%''])
               else if op = RTCOM_EL_OP_STR_ENDS_WITH then LikeCond col (CHR ''%'' # pattern_of v)
               else TextCond col op v)"

lemma read_strv_text:
  "2 * length vs < n \<Longrightarrow> read_strv n (strv_text vs @ CHR '')'' # rest) = Some (vs, rest)"
proof (induction vs arbitrary: n)
  case Nil
  then show ?case by (cases n) simp_all
next
  case (Cons v vs)
  then obtain m where n: "n = Suc (Suc m)" "2 * length vs < m"
    by (cases n; cases "n - 1") auto
  let ?sep = "if vs \<noteq> [] then CHR '','' else CHR '' ''"
  have t: "strv_text (v # vs) @ CHR '')'' # rest =
      CHR 0x27 # double_quotes v @ CHR 0x27 # ?sep # strv_text vs @ CHR '')'' # rest"
    by (simp add: printf_Q_def)
  have "read_literal [] (double_quotes v @ CHR 0x27 # ?sep # strv_text vs @ CHR '')'' # rest) =
      Some (v, ?sep # strv_text vs @ CHR '')'' # rest)"
    using read_literal_quoted [of "?sep # strv_text vs @ CHR '')'' # rest" "[]" v] by simp
  moreover have "read_strv (Suc m) (?sep # strv_text vs @ CHR '')'' # rest) = Some (vs, rest)"
    using Cons.IH [OF n(2)] by simp
  ultimately show ?case unfolding t n(1) by (subst read_strv.simps) simp
qed

lemma strv_text_length: "3 * length vs \<le> length (strv_text vs)"
  by (induction vs) (auto simp: printf_Q_def)

lemma read_cond_operator:
  assumes "field_column key = Some col" and "build_operator op = Some w"
  shows "read_cond (col @ '' '' @ w @ '' '' @ s2) =
     (if take 1 s2 = [CHR 0x27]
      then map_option (\<lambda>(v, rest). (TextCond col op (Some v), rest)) (read_literal [] (tl s2))
      else if take 4 s2 = ''NULL'' then Some (TextCond col op None, drop 4 s2)
      else Some (IntCond col op (read_int (takeWhile (\<lambda>c. c \<noteq> CHR '' '') s2)),
                 dropWhile (\<lambda>c. c \<noteq> CHR '' '') s2))"
  using operator_word [OF assms(2)] column_no_space [OF assms(1)] by (simp add: read_cond_def)

lemma read_cond_int:
  assumes "field_column key = Some col" and "build_operator op = Some w"
    and "rest = [] \<or> hd rest = CHR '' ''"
  shows "read_cond (col @ '' '' @ w @ '' '' @ show_int i @ rest) = Some (IntCond col op i, rest)"
proof -
  obtain c cs where i: "show_int i = c # cs" by (cases "show_int i") simp_all
  with show_int_plain [of c i] have "c \<noteq> CHR 0x27" "c \<noteq> CHR ''N''" by simp_all
  moreover have "takeWhile (\<lambda>c. c \<noteq> CHR '' '') (show_int i @ rest) = show_int i \<and>
      dropWhile (\<lambda>c. c \<noteq> CHR '' '') (show_int i @ rest) = rest"
    by (rule takeWhile_word) (use assms(3) show_int_plain in auto)
  ultimately show ?thesis
    unfolding read_cond_operator [OF assms(1,2)] by (simp add: i [symmetric]) (simp add: i)
qed

lemma read_cond_text:
  assumes "field_column key = Some col" and "build_operator op = Some w"
    and "rest = [] \<or> hd rest = CHR '' ''"
  shows "read_cond (col @ '' '' @ w @ '' '' @ printf_Q v @ rest) = Some (TextCond col op v, rest)"
proof (cases v)
  case None
  then show ?thesis unfolding read_cond_operator [OF assms(1,2)] by (simp add: printf_Q_def)
next
  case (Some s)
  have "read_literal [] (double_quotes s @ CHR 0x27 # rest) = Some (s, rest)"
    using read_literal_quoted [of rest "[]" s] assms(3) by auto
  with Some show ?thesis unfolding read_cond_operator [OF assms(1,2)] by (simp add: printf_Q_def)
qed

lemma read_cond_in:
  assumes "field_column key = Some col"
  shows "read_cond (col @ '' IN ('' @ strv_text vs @ '')'' @ rest) = Some (InCond col vs, rest)"
proof -
  let ?s = "col @ '' IN ('' @ strv_text vs @ '')'' @ rest"
  have "2 * length vs < length ?s" using strv_text_length [of vs] by simp
  from read_strv_text [OF this, of rest] column_no_space [OF assms] show ?thesis
    using read_word_append [of "''IN''" "CHR ''('' # strv_text vs @ CHR '')'' # rest"]
    by (simp add: read_cond_def)
qed

lemma read_cond_like:
  assumes "field_column key = Some col" and "rest = [] \<or> hd rest = CHR '' ''"
  shows "read_cond (col @ '' LIKE '' @ CHR 0x27 # double_quotes p @ CHR 0x27 # rest) =
     Some (LikeCond col p, rest)"
proof -
  have "read_literal [] (double_quotes p @ CHR 0x27 # rest) = Some (p, rest)"
    using read_literal_quoted [of rest "[]" p] assms(2) by auto
  with column_no_space [OF assms(1)] show ?thesis
    using read_word_append [of "''LIKE''" "CHR 0x27 # double_quotes p @ CHR 0x27 # rest"]
    by (simp add: read_cond_def)
qed

lemma build_where_clause_cases:
  assumes "build_where_clause q key val op = Clause t"
  obtains (int) col w n where "field_column key = Some col" "build_operator op = Some w"
    "val = UintArg n" "t = col @ '' '' @ w @ '' '' @ show_int (sint n)"
  | (str) col w v where "field_column key = Some col" "build_operator op = Some w"
    "val = StrArg v" "t = col @ '' '' @ w @ '' '' @ printf_Q v"
  | (strv) col vs where "field_column key = Some col" "op = RTCOM_EL_OP_IN_STRV"
    "val = StrvArg vs" "t = col @ '' IN ('' @ strv_text vs @ '')''"
  | (ends) col v where "field_column key = Some col" "op = RTCOM_EL_OP_STR_ENDS_WITH"
    "val = StrArg v" "t = col @ '' LIKE '' @ CHR 0x27 # double_quotes (CHR ''%'' # pattern_of v) @ [CHR 0x27]"
  | (like) col v where "field_column key = Some col" "op = RTCOM_EL_OP_STR_LIKE"
    "val = StrArg v"
    "t = col @ '' LIKE '' @ CHR 0x27 # double_quotes (CHR ''%'' # pattern_of v @ [CHR ''%'']) @ [CHR 0x27]"
  using assms
  by (auto simp: build_where_clause_def printf_q_pattern
      split: if_splits option.splits query_value.splits)

lemma read_cond_clause:
  assumes "build_where_clause q key val op = Clause t" and rest: "rest = [] \<or> hd rest = CHR '' ''"
  shows "read_cond (t @ rest) = Some (meant_cond (key, val, op), rest)"
  using assms(1)
proof (cases rule: build_where_clause_cases)
  case (int col w n)
  from read_cond_int [OF int(1,2) rest] int show ?thesis by (simp add: meant_cond_def)
next
  case (str col w v)
  from read_cond_text [OF str(1,2) rest] str show ?thesis by (auto simp: meant_cond_def)
next
  case (strv col vs)
  from read_cond_in [OF strv(1)] strv show ?thesis by (simp add: meant_cond_def)
next
  case (ends col v)
  from read_cond_like [OF ends(1) rest, of "CHR ''%'' # pattern_of v"] ends show ?thesis
    by (simp add: meant_cond_def)
next
  case (like col v)
  from read_cond_like [OF like(1) rest, of "CHR ''%'' # pattern_of v @ [CHR ''%'']"] like show ?thesis
    by (simp add: meant_cond_def)
qed

section \<open>The whole clause\<close>

lemma clause_nonempty: "build_where_clause q key val op = Clause t \<Longrightarrow> t \<noteq> []"
  by (erule build_where_clause_cases) auto

lemma build_clauses_read:
  assumes "build_clauses q args buf = Clause w" and "args \<noteq> []" and "length args \<le> n"
  shows "\<exists>t. w = buf @ t \<and> read_conds n t = Some (map meant_cond args) \<and> length args \<le> length t"
  using assms
proof (induction args arbitrary: buf n)
  case (Cons a args)
  obtain key val op where a: "a = (key, val, op)" by (cases a)
  from Cons.prems(1) a obtain t where t: "build_where_clause q key val op = Clause t"
    and r: "build_clauses q args (buf @ t @ (if args \<noteq> [] then '' AND '' else [])) = Clause w"
    by (auto split: clause.splits)
  obtain m where n: "n = Suc m" using Cons.prems(3) by (cases n) auto
  show ?case
  proof (cases "args = []")
    case True
    with r have "w = buf @ t" by simp
    moreover have "read_cond t = Some (meant_cond (key, val, op), [])"
      using read_cond_clause [OF t, of "[]"] by simp
    ultimately show ?thesis using True n a clause_nonempty [OF t] by (cases t) auto
  next
    case False
    with r Cons.IH [of "buf @ t @ '' AND ''" m] Cons.prems(3) n obtain u where
      u: "w = (buf @ t @ '' AND '') @ u" "read_conds m u = Some (map meant_cond args)"
        "length args \<le> length u" by auto
    have "read_cond (t @ '' AND '' @ u) = Some (meant_cond (key, val, op), '' AND '' @ u)"
      by (rule read_cond_clause [OF t]) simp
    then have "read_conds n (t @ '' AND '' @ u) = Some (map meant_cond (a # args))"
      using u(2) n a by simp
    with u show ?thesis by auto
  qed
qed simp

lemma prepared_where:
  assumes "rtcom_el_query_prepare args q = Some (True, q')" and "args \<noteq> []"
  shows "\<exists>w. rtcom_el_query_get_where_clause q' = Some w \<and> parse_where w = Some (map meant_cond args)"
proof -
  from assms obtain w where b: "build_clauses (q\<lparr>q_where_clause := None\<rparr>) args [] = Clause w"
    and q': "q' = rtcom_el_query_refresh (q\<lparr>q_where_clause := Some w\<rparr>)"
    by (auto simp: rtcom_el_query_prepare_def Let_def split: clause.splits)
  from build_clauses_read [OF b assms(2) order_refl] have "length args \<le> length w" by auto
  from build_clauses_read [OF b assms(2) this] have "parse_where w = Some (map meant_cond args)"
    by (auto simp: parse_where_def)
  with q' show ?thesis
    by (simp add: rtcom_el_query_get_where_clause_def rtcom_el_query_refresh_def)
qed

text \<open>
  What eventlogger-types.h says of the operations: a condition on a row of the join. A NULL on either
  side satisfies none. The values of LIKE and ENDS_WITH must not contain the wildcards of the LIKE
  operator, which the code does not escape.
\<close>

definition documented :: "query_arg \<Rightarrow> joined_row \<Rightarrow> bool" where
  "documented a j =
     (case a of (key, val, op) \<Rightarrow>
        case (val, column_value (the (field_column key)) j) of
          (UintArg n, IntVal i) \<Rightarrow>
            (case op of
               RTCOM_EL_OP_EQUAL \<Rightarrow> i = sint n
             | RTCOM_EL_OP_NOT_EQUAL \<Rightarrow> i \<noteq> sint n
             | RTCOM_EL_OP_GREATER \<Rightarrow> sint n < i
             | RTCOM_EL_OP_GREATER_EQUAL \<Rightarrow> sint n \<le> i
             | RTCOM_EL_OP_LESS \<Rightarrow> i < sint n
             | RTCOM_EL_OP_LESS_EQUAL \<Rightarrow> i \<le> sint n
             | _ \<Rightarrow> False)
        | (StrvArg vs, TextVal t) \<Rightarrow> t \<in> set vs
        | (StrArg (Some s), TextVal t) \<Rightarrow>
            (case op of
               RTCOM_EL_OP_EQUAL \<Rightarrow> t = s
             | RTCOM_EL_OP_NOT_EQUAL \<Rightarrow> t \<noteq> s
             | RTCOM_EL_OP_GREATER \<Rightarrow> text_less s t
             | RTCOM_EL_OP_GREATER_EQUAL \<Rightarrow> text_less s t \<or> s = t
             | RTCOM_EL_OP_LESS \<Rightarrow> text_less t s
             | RTCOM_EL_OP_LESS_EQUAL \<Rightarrow> text_less t s \<or> t = s
             | RTCOM_EL_OP_STR_ENDS_WITH \<Rightarrow> \<exists>u v. t = u @ v \<and> same_letters s v
             | RTCOM_EL_OP_STR_LIKE \<Rightarrow> \<exists>u v w. t = u @ v @ w \<and> same_letters s v
             | RTCOM_EL_OP_IN_STRV \<Rightarrow> False)
        | _ \<Rightarrow> False)"

definition plain_arg :: "query_arg \<Rightarrow> bool" where
  "plain_arg a =
     (case a of (key, val, op) \<Rightarrow>
        op = RTCOM_EL_OP_STR_LIKE \<or> op = RTCOM_EL_OP_STR_ENDS_WITH \<longrightarrow>
        (case val of StrArg v \<Rightarrow> (case v of Some s \<Rightarrow> no_wildcards s | None \<Rightarrow> False) | _ \<Rightarrow> True))"

lemma meant_documented:
  assumes "plain_arg a"
  shows "cond_holds (meant_cond a) j = documented a j"
proof -
  obtain key val op where a: "a = (key, val, op)" by (cases a)
  let ?c = "column_value (the (field_column key)) j"
  have order: "(\<not> text_less t s) = (text_less s t \<or> s = t)" "((text_less s t \<or> s = t) \<and> t \<noteq> s) = text_less s t"
    for s t using text_less_linear [of s t] text_less_trans [of s t s] by auto
  show ?thesis
  proof (cases val)
    case (UintArg n)
    show ?thesis
      by (cases op; cases ?c) (auto simp: a UintArg meant_cond_def documented_def Let_def)
  next
    case (StrvArg vs)
    show ?thesis
      by (cases ?c) (simp_all add: a StrvArg meant_cond_def documented_def Let_def)
  next
    case (StrArg v)
    show ?thesis
    proof (cases v)
      case None
      with assms a StrArg have "op \<noteq> RTCOM_EL_OP_STR_LIKE" "op \<noteq> RTCOM_EL_OP_STR_ENDS_WITH"
        by (auto simp: plain_arg_def)
      then show ?thesis
        by (cases ?c) (simp_all add: a StrArg None meant_cond_def documented_def Let_def)
    next
      case (Some s)
      have like: "like (CHR ''%'' # s @ [CHR ''%'']) t \<longleftrightarrow> (\<exists>u v w. t = u @ v @ w \<and> same_letters s v)"
        if "op = RTCOM_EL_OP_STR_LIKE" for t
        using like_contains assms that by (simp add: a StrArg Some plain_arg_def)
      have ends: "like (CHR ''%'' # s) t \<longleftrightarrow> (\<exists>u v. t = u @ v \<and> same_letters s v)"
        if "op = RTCOM_EL_OP_STR_ENDS_WITH" for t
        using like_ends_with assms that by (simp add: a StrArg Some plain_arg_def)
      show ?thesis
        by (cases op; cases ?c) (simp_all add: a StrArg Some meant_cond_def documented_def Let_def
            pattern_of_def like ends order)
    qed
  qed
qed

lemma prepared_documented:
  assumes "rtcom_el_query_prepare args q = Some (True, q')" and "args \<noteq> []" and "list_all plain_arg args"
  shows "\<exists>w. rtcom_el_query_get_where_clause q' = Some w \<and>
     where_holds w = Some (\<lambda>j. \<forall>a\<in>set args. documented a j)"
  using prepared_where [OF assms(1,2)] assms(3)
  by (auto simp: where_holds_def list_all_iff fun_eq_iff meant_documented)

text \<open>C11: Whatever text the values of the conditions contain, quotes included, SQLite reads the
  WHERE clause \<open>rtcom_el_query_prepare\<close> builds as one condition for each one it was given, in order,
  with this value (\<open>meant_cond\<close>): no value can change the structure of the clause. For LIKE and ENDS_WITH
  the value is part of a pattern, in which its own percent signs and underscores are wildcards. If no
  value of these two has one, the clause holds on exactly the rows on which all the conditions hold as
  eventlogger-types.h describes them (\<open>documented\<close>), ENDS_WITH, too, ignoring the case of ASCII letters.\<close>

theorem where_clause_round_trip:
  assumes "rtcom_el_query_prepare args q = Some (True, q')" and "args \<noteq> []"
  shows "\<exists>w. rtcom_el_query_get_where_clause q' = Some w \<and> parse_where w = Some (map meant_cond args) \<and>
     (list_all plain_arg args \<longrightarrow> where_holds w = Some (\<lambda>j. \<forall>a\<in>set args. documented a j))"
  using prepared_where [OF assms] prepared_documented [OF assms] by auto

theorem where_clause_round_trip_witness:
  "\<exists>q' w. rtcom_el_query_prepare
      [(''local-uid'', StrArg (Some [CHR 0x27, CHR 0x3B]), RTCOM_EL_OP_EQUAL),
       (''id'', UintArg 7, RTCOM_EL_OP_GREATER)] (rtcom_el_query_new True) = Some (True, q') \<and>
     rtcom_el_query_get_where_clause q' = Some w \<and>
     parse_where w = Some [TextCond ''Events.local_uid'' RTCOM_EL_OP_EQUAL (Some [CHR 0x27, CHR 0x3B]),
       IntCond ''Events.id'' RTCOM_EL_OP_GREATER 7]"
proof -
  let ?args = "[(''local-uid'', StrArg (Some [CHR 0x27, CHR 0x3B]), RTCOM_EL_OP_EQUAL),
    (''id'', UintArg 7, RTCOM_EL_OP_GREATER)]"
  have "map_option fst (rtcom_el_query_prepare ?args (rtcom_el_query_new True)) = Some True"
    by code_simp
  then obtain q' where q': "rtcom_el_query_prepare ?args (rtcom_el_query_new True) = Some (True, q')"
    by auto
  have "map meant_cond ?args =
      [TextCond ''Events.local_uid'' RTCOM_EL_OP_EQUAL (Some [CHR 0x27, CHR 0x3B]),
       IntCond ''Events.id'' RTCOM_EL_OP_GREATER 7]" by code_simp
  with where_clause_round_trip [OF q'] q' show ?thesis by auto
qed

section \<open>Limits\<close>

text \<open>A query object and what a client does with it before it is prepared.\<close>

fun client_sets :: "query_property list \<Rightarrow> RTComElQuery \<Rightarrow> RTComElQuery" where
  "client_sets [] q = q"
| "client_sets (p # ps) q = client_sets ps (query_object_set p q)"

definition in_range :: "RTComElQuery \<Rightarrow> bool" where
  "in_range q \<longleftrightarrow> - 1 \<le> q_limit q \<and> q_limit q \<le> 2147483647 \<and> 0 \<le> q_offset q \<and> q_offset q \<le> 2147483647"

lemma query_object_set_in_range: "in_range q \<Longrightarrow> in_range (query_object_set p q)"
  by (cases p) (simp_all add: query_object_set_def in_range_def)

lemma client_sets_in_range: "in_range q \<Longrightarrow> in_range (client_sets ps q)"
  by (induction ps arbitrary: q) (simp_all add: query_object_set_in_range)

lemma prepare_select:
  assumes "rtcom_el_query_prepare args q = Some (True, q')"
  shows "\<exists>s. q_sql q' = Some s \<and> sel_limit s = q_limit q \<and> sel_offset s = q_offset q \<and>
     q_limit q' = q_limit q \<and> q_offset q' = q_offset q"
  using assms
  by (auto simp: rtcom_el_query_prepare_def Let_def rtcom_el_query_refresh_def
      split: if_splits clause.splits)

text \<open>C37: Whatever numbers a client gives for limit and offset, the object keeps them in the ranges of
  its properties; the statement of a prepared query skips the first \<open>offset\<close> rows of the unlimited
  statement and then has all of the rest if the limit is -1, and at most \<open>limit\<close> rows otherwise.\<close>

theorem query_limit_respected:
  assumes "rtcom_el_query_prepare args (client_sets ps (rtcom_el_query_new True)) = Some (True, q)"
    and "q_sql q = Some s" and "query_rows holds s = Some f"
    and "query_rows holds (s\<lparr>sel_limit := - 1, sel_offset := 0\<rparr>) = Some g"
  shows "in_range q \<and>
     f t = (if q_limit q = - 1 then drop (nat (q_offset q)) (g t)
            else take (nat (q_limit q)) (drop (nat (q_offset q)) (g t)))"
proof -
  have "in_range (rtcom_el_query_new True)"
    by (simp add: rtcom_el_query_new_def rtcom_el_query_init_def query_object_set_def in_range_def)
  from client_sets_in_range [OF this, of ps] prepare_select [OF assms(1)] assms(2)
  have q: "in_range q" "sel_limit s = q_limit q" "sel_offset s = q_offset q" by (auto simp: in_range_def)
  from assms(3,4) have "f t = limit_rows (sel_limit s) (sel_offset s) (g t)"
    by (auto simp: query_rows_def limit_rows_def)
  with q show ?thesis by (auto simp: limit_rows_def Let_def in_range_def)
qed

theorem query_limit_respected_witness:
  "\<exists>q. rtcom_el_query_prepare [] (client_sets [RTCOM_EL_QUERY_PROP_LIMIT 5, RTCOM_EL_QUERY_PROP_LIMIT (- 7)]
      (rtcom_el_query_new True)) = Some (True, q) \<and> in_range q \<and> q_limit q = 5"
proof -
  let ?q0 = "client_sets [RTCOM_EL_QUERY_PROP_LIMIT 5, RTCOM_EL_QUERY_PROP_LIMIT (- 7)] (rtcom_el_query_new True)"
  define q where "q = rtcom_el_query_refresh (?q0\<lparr>q_where_clause := None\<rparr>)"
  have p: "rtcom_el_query_prepare [] ?q0 = Some (True, q)"
    by (simp add: rtcom_el_query_prepare_def Let_def q_def del: client_sets.simps)
  obtain s f g where "q_sql q = Some s" "query_rows where_holds s = Some f"
    "query_rows where_holds (s\<lparr>sel_limit := - 1, sel_offset := 0\<rparr>) = Some g"
    by (simp add: q_def rtcom_el_query_refresh_def query_rows_def)
  from query_limit_respected [OF p this] have "in_range q" by blast
  moreover have "q_limit q = 5" unfolding q_def by code_simp
  ultimately show ?thesis using p by blast
qed

end
