(* ===== verification/El_Update.thy ===== *)
theory El_Update
  imports El_Add
begin

text \<open>
  Changing what is stored: the read state, the flags and the end time of events, and the
  remote contacts (src/eventlogger.c).
\<close>

section \<open>Flags, read state and end time\<close>

definition rtcom_el_get_flag_value :: "string option \<Rightarrow> el \<Rightarrow> int \<times> el" where
  "rtcom_el_get_flag_value flag el0 =
     (if flag = None then (- 1, el0)
      else case ensure_db True el0 of (opened, el) \<Rightarrow>
        if \<not> opened then (- 1, el)
        else case rtcom_el_db_exec (Stmt (select_rows (\<lambda>t.
                map (\<lambda>r. Some (fl_value r)) (filter (\<lambda>r. Some (fl_name r) = flag) (Flags t))))) el of
               (ok, rows, _, el1) \<Rightarrow>
                 if \<not> ok then (- 1, el1) else (rtcom_el_db_single_int rows (- 1), el1))"

definition rtcom_el_fire_event_updated :: "int \<Rightarrow> el \<Rightarrow> int \<times> el" where
  "rtcom_el_fire_event_updated event_id el =
     (if \<not> 0 < event_id then (- 1, el) else (0, emit_dbus ''EventUpdated'' event_id None el))"

text \<open>\<open>read == TRUE\<close>: any other value than 1 marks the event as unread.\<close>

definition rtcom_el_set_read_event :: "int \<Rightarrow> int \<Rightarrow> el \<Rightarrow> int \<times> RTComElError option \<times> el" where
  "rtcom_el_set_read_event event_id read el0 =
     (case ensure_db True el0 of (opened, el) \<Rightarrow>
      if \<not> opened then (- 1, Some RTCOM_EL_INTERNAL_ERROR, el)
      else if event_id < 1 then (- 1, Some RTCOM_EL_INVALID_ARGUMENT_ERROR, el)
      else case rtcom_el_db_exec (Stmt (update_event event_id
                  (\<lambda>e. e\<lparr>e_is_read := (if read = 1 then 1 else 0)\<rparr>)) :: unit sql) el of
             (ok, _, e, el1) \<Rightarrow>
               if \<not> ok then (- 1, e, el1)
               else (0, None, emit_dbus ''EventUpdated'' event_id None el1))"

text \<open>The array ends with its first 0.\<close>

fun set_read_loop :: "int list \<Rightarrow> int \<Rightarrow> int \<Rightarrow> el \<Rightarrow> int \<times> RTComElError option \<times> el" where
  "set_read_loop [] read ret el = (ret, None, el)"
| "set_read_loop (i # ids) read ret el =
     (if i = 0 then (ret, None, el)
      else case rtcom_el_set_read_event i read el of
             (r, e, el1) \<Rightarrow> if r = - 1 then (r, e, el1) else set_read_loop ids read r el1)"

definition rtcom_el_set_read_events ::
    "int list option \<Rightarrow> int \<Rightarrow> el \<Rightarrow> int \<times> RTComElError option \<times> el" where
  "rtcom_el_set_read_events event_ids read el =
     (case event_ids of
        None \<Rightarrow> (- 1, Some RTCOM_EL_INVALID_ARGUMENT_ERROR, el)
      | Some ids \<Rightarrow>
          if takeWhile (\<lambda>i. i \<noteq> 0) ids = [] then (- 1, Some RTCOM_EL_INVALID_ARGUMENT_ERROR, el)
          else set_read_loop ids read (- 1) el)"

text \<open>The statement of \<open>rtcom_el_set_event_flag\<close> and of \<open>rtcom_el_unset_event_flag\<close>.\<close>

definition change_event_flag ::
    "(int \<Rightarrow> int \<Rightarrow> int) \<Rightarrow> int \<Rightarrow> string option \<Rightarrow> el \<Rightarrow> int \<times> RTComElError option \<times> el" where
  "change_event_flag change event_id flag el0 =
     (case ensure_db True el0 of (opened, el) \<Rightarrow>
      if \<not> opened then (- 1, Some RTCOM_EL_INTERNAL_ERROR, el)
      else if event_id < 1 then (- 1, Some RTCOM_EL_INVALID_ARGUMENT_ERROR, el)
      else case rtcom_el_get_flag_value flag el of (flag_value, el1) \<Rightarrow>
        if flag_value = - 1 then (- 1, Some RTCOM_EL_INVALID_ARGUMENT_ERROR, el1)
        else case rtcom_el_db_exec (Stmt (update_event event_id
                    (\<lambda>e. e\<lparr>e_flags := change (e_flags e) flag_value\<rparr>)) :: unit sql) el1 of
               (ok, _, e, el2) \<Rightarrow>
                 if \<not> ok then (- 1, e, el2)
                 else (0, None, emit_dbus ''EventUpdated'' event_id None el2))"

definition rtcom_el_set_event_flag ::
    "int \<Rightarrow> string option \<Rightarrow> el \<Rightarrow> int \<times> RTComElError option \<times> el" where
  "rtcom_el_set_event_flag = change_event_flag (\<lambda>fl v. fl OR v)"

definition rtcom_el_unset_event_flag ::
    "int \<Rightarrow> string option \<Rightarrow> el \<Rightarrow> int \<times> RTComElError option \<times> el" where
  "rtcom_el_unset_event_flag = change_event_flag (\<lambda>fl v. fl AND NOT v)"

definition rtcom_el_set_end_time :: "int \<Rightarrow> int \<Rightarrow> el \<Rightarrow> bool \<times> RTComElError option \<times> el" where
  "rtcom_el_set_end_time event_id end_time el0 =
     (case ensure_db True el0 of (opened, el) \<Rightarrow>
      if \<not> opened then (False, Some RTCOM_EL_INTERNAL_ERROR, el)
      else if event_id < 1 then (False, Some RTCOM_EL_INVALID_ARGUMENT_ERROR, el)
      else if end_time = 0 then (True, None, el)
      else case rtcom_el_db_exec (Stmt (update_event event_id
                  (\<lambda>e. e\<lparr>e_end_time := to_gint end_time\<rparr>)) :: unit sql) el of
             (ok, _, e, el1) \<Rightarrow>
               if \<not> ok then (False, e, el1)
               else (True, None, emit_dbus ''EventUpdated'' event_id None el1))"

section \<open>Remote contacts\<close>

record RTComElRemote =
  rc_local_uid :: "string option"
  rc_remote_uid :: "string option"
  rc_abook_uid :: "string option"
  rc_remote_name :: "string option"

definition update_contact :: "RTComElRemote \<Rightarrow> unit stmt" where
  "update_contact c =
     update_remotes (remote_is (rc_remote_uid c) (rc_local_uid c))
       (\<lambda>r. r\<lparr>rm_abook_uid := rc_abook_uid c, rm_remote_name := rc_remote_name c\<rparr>)"

definition forget_abook_uid :: "string option \<Rightarrow> unit stmt" where
  "forget_abook_uid uid =
     update_remotes (\<lambda>r. uid \<noteq> None \<and> rm_abook_uid r = uid) (\<lambda>r. r\<lparr>rm_abook_uid := None\<rparr>)"

text \<open>The loop over the statements of either operation; it stops at the first failure.\<close>

fun exec_all :: "unit stmt list \<Rightarrow> el \<Rightarrow> (unit option \<times> RTComElError option \<times> el) option" where
  "exec_all [] el = Some (Some (), None, el)"
| "exec_all (f # rest) el =
     (case rtcom_el_db_exec (Stmt f) el of
        (ok, _, e, el1) \<Rightarrow> if \<not> ok then Some (None, e, el1) else exec_all rest el1)"

definition update_remotes_op ::
    "unit stmt list \<Rightarrow> el \<Rightarrow> (bool \<times> RTComElError option \<times> el) option" where
  "update_remotes_op stmts el0 =
     (case ensure_db True el0 of (opened, el) \<Rightarrow>
      if \<not> opened then Some (False, Some RTCOM_EL_INTERNAL_ERROR, el)
      else map_option (\<lambda>r. case r of
               (None, e, el1) \<Rightarrow> (False, e, el1)
             | (Some _, _, el1) \<Rightarrow> (True, None, emit_dbus ''RefreshHint'' (- 1) None el1))
             (in_transaction False (exec_all stmts) el))"

definition rtcom_el_update_remote_contacts ::
    "RTComElRemote list \<Rightarrow> el \<Rightarrow> (bool \<times> RTComElError option \<times> el) option" where
  "rtcom_el_update_remote_contacts contacts el =
     (if contacts = [] then Some (True, None, el)
      else update_remotes_op (map update_contact contacts) el)"

definition rtcom_el_update_remote_contact ::
    "string option \<Rightarrow> string option \<Rightarrow> string option \<Rightarrow> string option \<Rightarrow> el
      \<Rightarrow> (bool \<times> RTComElError option \<times> el) option" where
  "rtcom_el_update_remote_contact local_uid remote_uid new_abook_uid new_remote_name el =
     rtcom_el_update_remote_contacts
       [\<lparr>rc_local_uid = local_uid, rc_remote_uid = remote_uid, rc_abook_uid = new_abook_uid,
         rc_remote_name = new_remote_name\<rparr>] el"

definition rtcom_el_remove_abook_uids ::
    "string option list \<Rightarrow> el \<Rightarrow> (bool \<times> RTComElError option \<times> el) option" where
  "rtcom_el_remove_abook_uids abook_uids el =
     (if abook_uids = [] then Some (True, None, el)
      else update_remotes_op (map forget_abook_uid abook_uids) el)"

definition rtcom_el_remove_abook_uid ::
    "string option \<Rightarrow> el \<Rightarrow> (bool \<times> RTComElError option \<times> el) option" where
  "rtcom_el_remove_abook_uid abook_uid el = rtcom_el_remove_abook_uids [abook_uid] el"

section \<open>Lemmas: one update of an event\<close>

text \<open>
  An update outside a transaction, followed by the signal: either the row has changed, or
  nothing has.
\<close>

lemma exec_update_event_auto:
  fixes el :: el
  assumes ex: "rtcom_el_db_exec (Stmt (update_event i f) :: unit sql) el = (ok, rows, e, el1)"
    and auto: "txn el = None" "journal el \<noteq> JM_OFF"
  shows "txn el1 = None \<and> journal el1 = journal el \<and> is_open el1 = is_open el \<and>
     (ok \<longrightarrow> (update_event i f :: unit stmt) (tb el) = Inr (rows, None, tb el1) \<and>
        Events (tb el1) = map (update_at i f) (Events (tb el))) \<and>
     (\<not> ok \<longrightarrow> tb el1 = tb el \<and> e \<noteq> None)"
proof (cases ok)
  case True
  with exec_stmt_auto [OF ex auto(2,1)] obtain k where
    u: "(update_event i f :: unit stmt) (tb el) = Inr (rows, k, tb el1)" by auto
  then have "k = None" by (simp add: update_event_def)
  with True u update_event_Events [OF u] exec_stmt_auto [OF ex auto(2,1)] exec_el(1) [OF ex]
  show ?thesis by simp
next
  case False
  with exec_stmt_auto [OF ex auto(2,1)] exec_el(1) [OF ex] exec_failed_journaled [of _ el rows e el1]
    ex auto show ?thesis by fastforce
qed

lemma emit_dbus_auto:
  assumes "txn el = None" and "journal el \<noteq> JM_OFF"
  shows "txn (emit_dbus s i x el) = None" and "tb (emit_dbus s i x el) = tb el"
    and "journal (emit_dbus s i x el) = journal el" and "is_open (emit_dbus s i x el) = is_open el"
  using quiet_auto [OF emit_dbus_quiet assms(2,1), of s i x]
    quiet_journal [OF emit_dbus_quiet assms(2), of s i x] emit_dbus_quiet [of el s i x]
  by (simp_all add: quiet_def)

lemma get_flag_value_quiet:
  assumes "rtcom_el_get_flag_value flag el = (v, el')" and "is_open el"
  shows "quiet el el'"
  using assms
  by (auto simp: rtcom_el_get_flag_value_def split: if_splits prod.splits intro: exec_select_quiet)

text \<open>The keys an update leaves alone.\<close>

lemma keeps_keys_fields:
  "keeps_keys (\<lambda>e. e\<lparr>e_is_read := r\<rparr>)" "keeps_keys (\<lambda>e. e\<lparr>e_flags := g e\<rparr>)"
  "keeps_keys (\<lambda>e. e\<lparr>e_end_time := x\<rparr>)"
  by (simp_all add: keeps_keys_def)

text \<open>What every operation on one event promises, and with it the soundness of the cache.\<close>

definition updates_event :: "int \<Rightarrow> (event_row \<Rightarrow> event_row) \<Rightarrow> bool \<Rightarrow> el \<Rightarrow> el \<Rightarrow> bool" where
  "updates_event i f ok el el' \<longleftrightarrow>
     txn el' = None \<and> journal el' = journal el \<and> is_open el' = is_open el \<and>
     (if ok then Events (tb el') = map (update_at i f) (Events (tb el)) \<and>
         (tb el' = tb el \<or> (\<exists>rs k. (update_event i f :: unit stmt) (tb el) = Inr (rs, k, tb el')))
      else tb el' = tb el)"

locale event_update =
  fixes op :: "'x \<Rightarrow> el \<Rightarrow> bool \<times> RTComElError option \<times> el"
    and target :: "'x \<Rightarrow> el \<Rightarrow> int" and change :: "'x \<Rightarrow> el \<Rightarrow> event_row \<Rightarrow> event_row"
  assumes op_updates: "is_open el \<Longrightarrow> txn el = None \<Longrightarrow> journal el \<noteq> JM_OFF \<Longrightarrow>
      op x el = (ok, e, el') \<Longrightarrow> updates_event (target x el) (change x el) ok el el'"
    and op_keys: "keeps_keys (change x el)"
begin

lemma keeps_cache:
  assumes "is_open el" and "txn el = None" and "journal el \<noteq> JM_OFF" and "cache_ok (tb el)"
    and "op x el = (ok, e, el')"
  shows "cache_ok (tb el') \<and> txn el' = None \<and> journal el' = journal el \<and> is_open el'"
  using op_updates [OF assms(1-3,5)] update_event_cache_ok [OF assms(4) op_keys]
    assms(1,4)
  by (auto simp: updates_event_def split: if_splits)

lemma other_events:
  assumes "is_open el" and "txn el = None" and "journal el \<noteq> JM_OFF"
    and "op x el = (ok, e, el')"
  shows "filter (\<lambda>e. e_id e \<noteq> target x el) (Events (tb el')) =
     filter (\<lambda>e. e_id e \<noteq> target x el) (Events (tb el))"
proof -
  have "filter (\<lambda>e. e_id e \<noteq> i) (map (update_at i f) es) = filter (\<lambda>e. e_id e \<noteq> i) es"
    if "keeps_keys f" for i f and es :: "event_row list"
    using that by (induction es) (auto simp: update_at_def keeps_keys_def)
  with op_updates [OF assms] op_keys show ?thesis by (auto simp: updates_event_def split: if_splits)
qed

end

definition set_read_op :: "int \<times> int \<Rightarrow> el \<Rightarrow> bool \<times> RTComElError option \<times> el" where
  "set_read_op x el =
     (case rtcom_el_set_read_event (fst x) (snd x) el of (r, e, el1) \<Rightarrow> (r \<noteq> - 1, e, el1))"

lemma set_read_updates:
  assumes "rtcom_el_set_read_event i read el = (r, e, el')" and "is_open el" and "txn el = None"
    and "journal el \<noteq> JM_OFF"
  shows "updates_event i (\<lambda>e. e\<lparr>e_is_read := (if read = 1 then 1 else 0)\<rparr>) (r \<noteq> - 1) el el'"
proof -
  obtain ok rows x el1 where ex: "rtcom_el_db_exec (Stmt (update_event i
      (\<lambda>e. e\<lparr>e_is_read := (if read = 1 then 1 else 0)\<rparr>)) :: unit sql) el = (ok, rows, x, el1)"
    by (metis prod_cases4)
  note u = exec_update_event_auto [OF ex assms(3,4)]
  from assms(1,2) ex have "(r, e, el') =
      (if i < 1 then (- 1, Some RTCOM_EL_INVALID_ARGUMENT_ERROR, el)
       else if \<not> ok then (- 1, x, el1) else (0, None, emit_dbus ''EventUpdated'' i None el1))"
    by (cases "i < 1"; cases ok) (auto simp: rtcom_el_set_read_event_def)
  with u emit_dbus_auto [of el1] assms(3,4) show ?thesis
    by (auto simp: updates_event_def split: if_splits)
qed

interpretation set_read: event_update set_read_op "\<lambda>x _. fst x"
  "\<lambda>x _ e. e\<lparr>e_is_read := (if snd x = 1 then 1 else 0)\<rparr>"
  by unfold_locales
    (auto simp: set_read_op_def keeps_keys_def split: prod.splits dest!: set_read_updates)

definition end_time_op :: "int \<times> int \<Rightarrow> el \<Rightarrow> bool \<times> RTComElError option \<times> el" where
  "end_time_op x el = rtcom_el_set_end_time (fst x) (snd x) el"

text \<open>An end time of 0 leaves the event as it is.\<close>

definition new_end_time :: "int \<Rightarrow> event_row \<Rightarrow> event_row" where
  "new_end_time t e = (if t = 0 then e else e\<lparr>e_end_time := to_gint t\<rparr>)"

lemma update_at_id: "map (update_at i (new_end_time 0)) es = es"
  by (induction es) (auto simp: update_at_def new_end_time_def)

lemma set_end_time_updates:
  assumes "rtcom_el_set_end_time i t el = (ok, e, el')" and "is_open el" and "txn el = None"
    and "journal el \<noteq> JM_OFF"
  shows "updates_event i (new_end_time t) ok el el'"
proof (cases "t = 0 \<or> i < 1")
  case True
  with assms show ?thesis
    by (auto simp: rtcom_el_set_end_time_def updates_event_def update_at_id split: if_splits)
next
  case False
  obtain ok1 rows x el1 where ex: "rtcom_el_db_exec (Stmt (update_event i
      (\<lambda>e. e\<lparr>e_end_time := to_gint t\<rparr>)) :: unit sql) el = (ok1, rows, x, el1)"
    by (metis prod_cases4)
  note u = exec_update_event_auto [OF ex assms(3,4)]
  from assms(1,2) ex False have "(ok, e, el') =
      (if \<not> ok1 then (False, x, el1) else (True, None, emit_dbus ''EventUpdated'' i None el1))"
    by (cases ok1) (auto simp: rtcom_el_set_end_time_def)
  moreover have "new_end_time t = (\<lambda>e. e\<lparr>e_end_time := to_gint t\<rparr>)"
    using False by (simp add: new_end_time_def fun_eq_iff)
  ultimately show ?thesis
    using u emit_dbus_auto [of el1] assms(3,4) by (auto simp: updates_event_def split: if_splits)
qed

interpretation set_end_time: event_update end_time_op "\<lambda>x _. fst x" "\<lambda>x _. new_end_time (snd x)"
  by unfold_locales
    (auto simp: end_time_op_def keeps_keys_def new_end_time_def dest!: set_end_time_updates)

text \<open>The value of a flag as the database has it.\<close>

definition stored_flag_value :: "string option \<Rightarrow> tables \<Rightarrow> int" where
  "stored_flag_value flag t =
     rtcom_el_db_single_int
       (map (\<lambda>r. Some (fl_value r)) (filter (\<lambda>r. Some (fl_name r) = flag) (Flags t))) (- 1)"

lemma get_flag_value_result:
  assumes "rtcom_el_get_flag_value flag el = (v, el')" and "is_open el"
  shows "v \<in> {- 1, stored_flag_value flag (tb el)}"
proof -
  let ?q = "select_rows (\<lambda>t. map (\<lambda>r. Some (fl_value r)) (filter (\<lambda>r. Some (fl_name r) = flag) (Flags t)))"
  obtain ok rows x el1 where ex: "rtcom_el_db_exec (Stmt ?q) el = (ok, rows, x, el1)"
    by (metis prod_cases4)
  have "rows = map (\<lambda>r. Some (fl_value r)) (filter (\<lambda>r. Some (fl_name r) = flag) (Flags (tb el)))" if ok
    using exec_select_rows [of _ el rows x el1] ex that by simp
  with assms ex show ?thesis
    by (auto simp: rtcom_el_get_flag_value_def stored_flag_value_def split: if_splits)
qed

definition flag_op ::
    "(int \<Rightarrow> int \<Rightarrow> int) \<Rightarrow> int \<times> string option \<Rightarrow> el \<Rightarrow> bool \<times> RTComElError option \<times> el" where
  "flag_op change x el =
     (case change_event_flag change (fst x) (snd x) el of (r, e, el1) \<Rightarrow> (r \<noteq> - 1, e, el1))"

lemma change_event_flag_updates:
  assumes "change_event_flag change i flag el = (r, e, el')" and "is_open el" and "txn el = None"
    and "journal el \<noteq> JM_OFF"
  shows "updates_event i (\<lambda>e. e\<lparr>e_flags := change (e_flags e) (stored_flag_value flag (tb el))\<rparr>)
     (r \<noteq> - 1) el el'"
proof -
  obtain v el1 where g: "rtcom_el_get_flag_value flag el = (v, el1)" by (metis surj_pair)
  note qq = get_flag_value_quiet [OF this assms(2)]
  have "is_open el1 = is_open el" using qq unfolding quiet_def by blast
  with quiet_auto [OF qq assms(4,3)] quiet_journal [OF qq assms(4)]
  have q: "txn el1 = None" "tb el1 = tb el" "journal el1 = journal el" "is_open el1 = is_open el"
    by simp_all
  obtain ok rows x el2 where ex: "rtcom_el_db_exec (Stmt (update_event i
      (\<lambda>e. e\<lparr>e_flags := change (e_flags e) v\<rparr>)) :: unit sql) el1 = (ok, rows, x, el2)"
    using that by (rule prod_cases4)
  note u = exec_update_event_auto [OF ex q(1)]
  from assms(1,2) g ex have res: "(r, e, el') =
      (if i < 1 then (- 1, Some RTCOM_EL_INVALID_ARGUMENT_ERROR, el)
       else if v = - 1 then (- 1, Some RTCOM_EL_INVALID_ARGUMENT_ERROR, el1)
       else if \<not> ok then (- 1, x, el2) else (0, None, emit_dbus ''EventUpdated'' i None el2))"
    by (cases "i < 1"; cases "v = - 1"; cases ok) (auto simp: change_event_flag_def)
  show ?thesis
  proof (cases "i < 1 \<or> v = - 1")
    case True
    with res q assms(3) show ?thesis by (auto simp: updates_event_def split: if_splits)
  next
    case False
    with get_flag_value_result [OF g assms(2)] have "v = stored_flag_value flag (tb el)" by auto
    with False res u q assms(4) emit_dbus_auto [of el2] show ?thesis
      by (auto simp: updates_event_def split: if_splits)
  qed
qed

interpretation change_flag: event_update "flag_op change" "\<lambda>x _. fst x"
  "\<lambda>x el e. e\<lparr>e_flags := change (e_flags e) (stored_flag_value (snd x) (tb el))\<rparr>" for change
  by unfold_locales
    (auto simp: flag_op_def keeps_keys_def split: prod.splits dest!: change_event_flag_updates)

section \<open>Lemmas: remote contacts\<close>

lemma exec_all_keeps:
  "exec_all stmts el = Some (r, e, el') \<Longrightarrow> keeps_txn (r \<noteq> None) el el'"
proof (induction stmts el arbitrary: r e el' rule: exec_all.induct)
  case (1 el)
  then show ?case by (simp add: keeps_txn_refl)
next
  case (2 f rest el)
  obtain ok rows x el1 where ex: "rtcom_el_db_exec (Stmt f) el = (ok, rows, x, el1)"
    by (metis prod_cases4)
  note k = keeps_txn_exec [OF ex]
  show ?case
  proof (cases ok)
    case False
    with "2.prems" ex k show ?thesis by auto
  next
    case True
    with "2.prems" ex have "exec_all rest el1 = Some (r, e, el')" by simp
    from "2.IH" [OF ex [symmetric] refl refl _ this] True k show ?thesis
      by (auto intro: keeps_txn_trans)
  qed
qed

interpretation exec_all: transactional_body "exec_all stmts" "\<lambda>_. True" for stmts
  by unfold_locales (auto dest: exec_all_keeps)

text \<open>The effect of a list of updates of Remotes, in order.\<close>

lemma exec_all_remotes:
  assumes "\<And>x. x \<in> set xs \<Longrightarrow> \<exists>P f. stmt x = update_remotes P f \<and> (\<forall>r. upd x r = (if P r then f r else r))"
    and "exec_all (map stmt xs) el = Some (Some u, e, el')"
  shows "tb el' = (tb el)\<lparr>Remotes := map (fold upd xs) (Remotes (tb el))\<rparr>"
  using assms
proof (induction xs arbitrary: el)
  case Nil
  then show ?case by simp
next
  case (Cons x xs)
  obtain ok rows e1 el1 where ex: "rtcom_el_db_exec (Stmt (stmt x)) el = (ok, rows, e1, el1)"
    by (metis prod_cases4)
  with Cons.prems(2) have ok: "ok" and rest: "exec_all (map stmt xs) el1 = Some (Some u, e, el')"
    by (auto split: if_splits)
  from Cons.prems(1) [of x] obtain P f where pf: "stmt x = update_remotes P f"
    "\<And>r. upd x r = (if P r then f r else r)" by auto
  from exec_stmt_ok [of "stmt x" el rows e1 el1] ex ok pf
  have "tb el1 = (tb el)\<lparr>Remotes := map (upd x) (Remotes (tb el))\<rparr>"
    by (auto simp: update_remotes_def dest!: sym [where t = "tb el1"])
  with Cons.IH [OF _ rest] Cons.prems(1) show ?case by (auto simp: comp_def)
qed

end
