(* ===== verification/El_Delete.thy ===== *)
theory El_Delete
  imports El_Update El_Rows El_Text
begin

text \<open>
  Deleting events, and rebuilding the rows of GroupCache they leave behind
  (\<open>get_event_group_uids\<close>, \<open>update_group_cache\<close> and the five \<open>rtcom_el_delete_*\<close> functions of
  src/eventlogger.c).
\<close>

section \<open>The groups of the deleted events\<close>

definition distinct_rows :: "el \<Rightarrow> string option list \<Rightarrow> string option list" where
  "distinct_rows el xs = scan_order el (remdups xs)"

text \<open>
  The callback prepends, so that the list comes out in reverse. An error of the query is the
  empty list.
\<close>

definition get_event_group_uids ::
    "where_meaning \<Rightarrow> int \<Rightarrow> string option \<Rightarrow> el \<Rightarrow> string option list \<times> el" where
  "get_event_group_uids holds event_id wh el =
     (if 0 < event_id
      then case rtcom_el_db_exec (Stmt (select_rows (\<lambda>t.
             distinct_rows el (map e_group_uid (filter (\<lambda>e. e_id e = event_id) (Events t)))))) el of
             (ok, rows, _, el1) \<Rightarrow> (if ok then rev rows else [], el1)
      else case wh of
             None \<Rightarrow> ([], el)
           | Some w \<Rightarrow>
               (case rtcom_el_db_exec
                  (case holds w of
                     None \<Rightarrow> MALFORMED
                   | Some P \<Rightarrow> Stmt (select_rows (\<lambda>t.
                       distinct_rows el (map (\<lambda>j. e_group_uid (jn_event j)) (filter P (joined t)))))) el of
                  (ok, rows, _, el1) \<Rightarrow> (if ok then rev rows else [], el1)))"

text \<open>
  The text between the parentheses of \<open>IN (...)\<close>: each group uid in quotes, followed by a
  comma if the list goes on. NULL groups are skipped, but not counted for the commas.
\<close>

fun in_list :: "string option list \<Rightarrow> string" where
  "in_list [] = []"
| "in_list (None # li) = in_list li"
| "in_list (Some g # li) =
     [CHR 0x27] @ g @ [CHR 0x27] @ (if li \<noteq> [] then [CHR 0x2C] else []) @ in_list li"

text \<open>
  How SQLite reads that text: string literals, in which a quote is doubled, separated by
  commas. \<open>None\<close>: it is not such a list, and the statement is taken not to compile.
\<close>

fun read_in_list :: "nat \<Rightarrow> string \<Rightarrow> string list option" where
  "read_in_list 0 cs = None"
| "read_in_list (Suc n) cs =
     (case cs of
        c # rest \<Rightarrow>
          if c = CHR 0x27
          then case read_literal [] rest of
                 None \<Rightarrow> None
               | Some (g, []) \<Rightarrow> Some [g]
               | Some (g, d # ds) \<Rightarrow>
                   if d = CHR 0x2C then map_option (\<lambda>gs. g # gs) (read_in_list n ds) else None
          else None
      | [] \<Rightarrow> None)"

definition parse_in_list :: "string \<Rightarrow> string list option" where
  "parse_in_list s = (if s = [] then Some [] else read_in_list (length s) s)"

text \<open>
  \<open>g_slist_free (li)\<close> in the loop frees the whole list while the loop goes on over it:
  \<open>None\<close> is the crash of a second turn.
\<close>

definition update_group_cache :: "string option list \<Rightarrow> el \<Rightarrow> (bool \<times> el) option" where
  "update_group_cache li el =
     (if li = [] then Some (True, el)
      else if 1 < length li \<and> \<not> freed_readable el then None
      else case rtcom_el_db_exec
                  (case parse_in_list (in_list li) of
                     None \<Rightarrow> MALFORMED
                   | Some gs \<Rightarrow> (Stmt (refresh_groups gs) :: unit sql)) el of
             (ok, _, _, el1) \<Rightarrow>
               if \<not> ok then Some (False, el1)
               else case rtcom_el_db_exec (Stmt drop_empty_groups :: unit sql) el1 of
                      (_, _, _, el2) \<Rightarrow> Some (True, el2))"

section \<open>The frame of the deletions\<close>

text \<open>
  The journal is switched off, the body runs in a transaction, and the journal is switched
  on again. Every failure rolls back. \<open>None\<close> is a crash of the body.
\<close>

definition set_journal :: "journal_mode \<Rightarrow> el \<Rightarrow> el" where
  "set_journal m el = snd (snd (snd (rtcom_el_db_exec (PRAGMA_JOURNAL m :: unit sql) el)))"

definition sql_error :: "el \<Rightarrow> bool \<times> el" where
  "sql_error el = (False, set_journal JM_TRUNCATE (snd (snd (rtcom_el_db_rollback el))))"

definition run_deletion :: "(el \<Rightarrow> (bool \<times> el) option) \<Rightarrow> el \<Rightarrow> (bool \<times> el) option" where
  "run_deletion body el =
     (case rtcom_el_db_transaction False (set_journal JM_OFF el) of
        (False, _, el1) \<Rightarrow> Some (sql_error el1)
      | (True, _, el1) \<Rightarrow>
          (case body el1 of
             None \<Rightarrow> None
           | Some (False, el2) \<Rightarrow> Some (sql_error el2)
           | Some (True, el2) \<Rightarrow>
               (case rtcom_el_db_commit el2 of
                  (False, _, el3) \<Rightarrow> Some (sql_error el3)
                | (True, _, el3) \<Rightarrow> Some (True, set_journal JM_TRUNCATE el3))))"

section \<open>Deleting one event, or those a query selects\<close>

definition delete_and_refresh ::
    "string option list \<Rightarrow> unit sql \<Rightarrow> el \<Rightarrow> (bool \<times> el) option" where
  "delete_and_refresh li del el =
     (case rtcom_el_db_exec del el of
        (ok, _, _, el1) \<Rightarrow> if \<not> ok then Some (False, el1) else update_group_cache li el1)"

definition delete_event_body :: "where_meaning \<Rightarrow> int \<Rightarrow> el \<Rightarrow> (bool \<times> el) option" where
  "delete_event_body holds event_id el =
     (case get_event_group_uids holds event_id None el of
        (li, el1) \<Rightarrow>
          delete_and_refresh li (Stmt (delete_events_where (\<lambda>e. e_id e = event_id))) el1)"

definition rtcom_el_delete_event ::
    "where_meaning \<Rightarrow> int \<Rightarrow> el \<Rightarrow> (int \<times> RTComElError option \<times> el) option" where
  "rtcom_el_delete_event holds event_id el0 =
     (case ensure_db True el0 of (opened, el) \<Rightarrow>
      if \<not> opened then Some (- 1, Some RTCOM_EL_INTERNAL_ERROR, el)
      else if event_id < 1 then Some (- 1, Some RTCOM_EL_INVALID_ARGUMENT_ERROR, el)
      else map_option (\<lambda>(ok, el1).
             if ok then (0, None, emit_dbus ''EventDeleted'' event_id None el1)
             else (- 1, Some RTCOM_EL_INTERNAL_ERROR, el1))
             (run_deletion (delete_event_body holds event_id) el))"

definition delete_events_body :: "where_meaning \<Rightarrow> string \<Rightarrow> el \<Rightarrow> (bool \<times> el) option" where
  "delete_events_body holds wh el =
     (case get_event_group_uids holds (- 1) (Some wh) el of
        (li, el1) \<Rightarrow>
          delete_and_refresh li
            (case holds wh of
               None \<Rightarrow> MALFORMED
             | Some P \<Rightarrow> Stmt (\<lambda>t.
                 delete_events_where (\<lambda>e. e_id e \<in> set (matching_ids P t)) t)) el1)"

text \<open>
  \<open>wh\<close> is what \<open>rtcom_el_query_get_where_clause\<close> returned; NULL is refused.
\<close>

definition rtcom_el_delete_events ::
    "where_meaning \<Rightarrow> string option \<Rightarrow> el \<Rightarrow> (bool \<times> RTComElError option \<times> el) option" where
  "rtcom_el_delete_events holds wh el0 =
     (case ensure_db True el0 of (opened, el) \<Rightarrow>
      if \<not> opened then Some (False, Some RTCOM_EL_INTERNAL_ERROR, el)
      else case wh of
             None \<Rightarrow> Some (False, None, el)
           | Some w \<Rightarrow>
               map_option (\<lambda>(ok, el1).
                 if ok then (True, None, emit_dbus ''RefreshHint'' (- 1) None el1)
                 else (False, Some RTCOM_EL_INTERNAL_ERROR, el1))
                 (run_deletion (delete_events_body holds w) el))"

section \<open>Deleting whole services, groups, or everything\<close>

definition delete_rows ::
    "(event_row \<Rightarrow> bool) \<Rightarrow> (cache_row \<Rightarrow> bool) \<Rightarrow> el \<Rightarrow> bool \<times> el" where
  "delete_rows P Q el =
     (case rtcom_el_db_exec (Stmt (delete_events_where P) :: unit sql) el of
        (ok, _, _, el1) \<Rightarrow>
          if \<not> ok then (False, el1)
          else case rtcom_el_db_exec (Stmt (delete_cache_where Q) :: unit sql) el1 of
                 (ok2, _, _, el2) \<Rightarrow> (ok2, el2))"

definition delete_by_service_body :: "int \<Rightarrow> el \<Rightarrow> (bool \<times> el) option" where
  "delete_by_service_body service_id el =
     Some (delete_rows (\<lambda>e. e_service_id e = service_id) (\<lambda>c. gc_service_id c = service_id) el)"

definition rtcom_el_delete_by_service :: "string option \<Rightarrow> el \<Rightarrow> (bool \<times> el) option" where
  "rtcom_el_delete_by_service service el0 =
     (case ensure_db True el0 of (opened, el) \<Rightarrow>
      if \<not> opened then Some (False, el)
      else case rtcom_el_get_service_id service el of
             None \<Rightarrow> None
           | Some service_id \<Rightarrow>
               if service_id = - 1 then Some (False, el)
               else map_option (\<lambda>(ok, el1).
                      (ok, if ok then emit_dbus ''AllDeleted'' (- 1) service el1 else el1))
                      (run_deletion (delete_by_service_body service_id) el))"

fun delete_groups :: "string list \<Rightarrow> el \<Rightarrow> bool \<times> el" where
  "delete_groups [] el = (True, el)"
| "delete_groups (g # gs) el =
     (case delete_rows (\<lambda>e. e_group_uid e = Some g) (\<lambda>c. gc_group_uid c = g) el of
        (ok, el1) \<Rightarrow> if ok then delete_groups gs el1 else (False, el1))"

definition delete_by_group_uids_body :: "string list \<Rightarrow> el \<Rightarrow> (bool \<times> el) option" where
  "delete_by_group_uids_body gs el = Some (delete_groups gs el)"

definition rtcom_el_delete_by_group_uids :: "string list option \<Rightarrow> el \<Rightarrow> (bool \<times> el) option" where
  "rtcom_el_delete_by_group_uids group_uids el0 =
     (case group_uids of
        None \<Rightarrow> Some (False, el0)
      | Some gs \<Rightarrow>
          (case ensure_db True el0 of (opened, el) \<Rightarrow>
           if \<not> opened then Some (False, el)
           else map_option (\<lambda>(ok, el1).
                  (ok, if ok then emit_dbus ''RefreshHint'' (- 1) None el1 else el1))
                  (run_deletion (delete_by_group_uids_body gs) el)))"

definition delete_all_body :: "el \<Rightarrow> (bool \<times> el) option" where
  "delete_all_body el =
     (case rtcom_el_db_exec (Stmt (delete_events_where (\<lambda>e. True)) :: unit sql) el of
        (ok, _, _, el1) \<Rightarrow> Some (ok, el1))"

definition rtcom_el_delete_all :: "el \<Rightarrow> (bool \<times> el) option" where
  "rtcom_el_delete_all el0 =
     (case ensure_db True el0 of (opened, el) \<Rightarrow>
      if \<not> opened then Some (False, el)
      else map_option (\<lambda>(ok, el1).
             (ok, if ok then emit_dbus ''AllDeleted'' (- 1) None el1 else el1))
             (run_deletion delete_all_body el))"

end
