(* ===== verification/El_Update_Props.thy ===== *)
theory El_Update_Props
  imports El_Update
begin

text \<open>
  What the updates do: the properties of the read state, the flags, the end time and the
  remote contacts.
\<close>

section \<open>Read state\<close>

lemma set_read_event_marks_rule:
  assumes "rtcom_el_set_read_event i read el = (r, e, el')" and "r \<noteq> - 1"
    and "is_open el" and "txn el = None" and "journal el \<noteq> JM_OFF" and "cache_ok (tb el)"
  shows "Events (tb el') = map (\<lambda>e. if e_id e = i then e\<lparr>e_is_read := (if read = 1 then 1 else 0)\<rparr> else e)
       (Events (tb el)) \<and> cache_ok (tb el') \<and> txn el' = None"
proof -
  from assms(1,2) have op: "set_read_op (i, read) el = (True, e, el')" by (simp add: set_read_op_def)
  from set_read_updates [OF assms(1,3-5)] assms(2) show ?thesis
    using set_read.keeps_cache [OF assms(3-6) op]
    by (simp add: updates_event_def update_at_def [abs_def])
qed

text \<open>\<open>rtcom_el_set_read_event\<close> sets is_read of the event with the given id, to 1 exactly when
  \<open>read == TRUE\<close>, changes no other event and keeps the group cache sound, so that the cached
  count of read events follows.\<close>

theorem set_read_event_marks:
  assumes "rtcom_el_set_read_event i read el = (r, e, el')" and "r \<noteq> - 1"
    and "is_open el" and "txn el = None" and "journal el \<noteq> JM_OFF" and "cache_ok (tb el)"
  shows "Events (tb el') = map (\<lambda>e. if e_id e = i then e\<lparr>e_is_read := (if read = 1 then 1 else 0)\<rparr> else e)
       (Events (tb el)) \<and> cache_ok (tb el') \<and> txn el' = None"
  using assms by (rule set_read_event_marks_rule)

lemma sample_open: "is_open sample_el" "txn sample_el = None" "journal sample_el \<noteq> JM_OFF"
    "cache_ok (tb sample_el)" "tb sample_el = sample_tables" "durable sample_el = sample_tables"
    "script sample_el = []"
  using sample_cache_ok by (simp_all add: sample_el_def durable_def)

lemma sample_set_read: "fst (rtcom_el_set_read_event 2 1 sample_el) = 0"
  by code_simp

theorem set_read_event_marks_witness:
  "\<exists>e el'. rtcom_el_set_read_event 2 1 sample_el = (0, e, el') \<and>
     map e_is_read (Events (tb el')) = [0, 1, 0] \<and> cache_ok (tb el')"
proof -
  obtain e el' where run: "rtcom_el_set_read_event 2 1 sample_el = (0, e, el')"
    using sample_set_read by (metis prod.collapse)
  have "(0 :: int) \<noteq> - 1" by simp
  from set_read_event_marks [OF run this sample_open(1-4)] run show ?thesis
    by (simp add: sample_open sample_tables_def sample_row_def)
qed

definition mark_read :: "int \<Rightarrow> int set \<Rightarrow> event_row \<Rightarrow> event_row" where
  "mark_read read ids e =
     (if e_id e \<in> ids then e\<lparr>e_is_read := (if read = 1 then 1 else 0)\<rparr> else e)"

lemma set_read_loop_marks:
  assumes "set_read_loop ids read r0 el = (r, e, el')" and "r \<noteq> - 1"
    and "is_open el" and "txn el = None" and "journal el \<noteq> JM_OFF" and "cache_ok (tb el)"
  shows "Events (tb el') = map (mark_read read (set (takeWhile (\<lambda>i. i \<noteq> 0) ids))) (Events (tb el)) \<and>
     cache_ok (tb el') \<and> txn el' = None"
  using assms
proof (induction ids read r0 el arbitrary: r e el' rule: set_read_loop.induct)
  case (1 read ret el)
  then show ?case by (simp add: mark_read_def [abs_def])
next
  case (2 i ids read ret el)
  show ?case
  proof (cases "i = 0")
    case True
    with "2.prems" show ?thesis by (simp add: mark_read_def [abs_def])
  next
    case False
    obtain r1 e1 el1 where x: "rtcom_el_set_read_event i read el = (r1, e1, el1)"
      by (metis prod_cases3)
    with "2.prems"(1,2) False have r1: "r1 \<noteq> - 1" and rest: "set_read_loop ids read r1 el1 = (r, e, el')"
      by (auto split: if_splits)
    from set_read_event_marks_rule [OF x r1 "2.prems"(3-6)] set_read_updates [OF x "2.prems"(3-5)] "2.prems"(3,5)
    have m: "Events (tb el1) = map (mark_read read {i}) (Events (tb el))" "cache_ok (tb el1)"
      "txn el1 = None" "is_open el1" "journal el1 \<noteq> JM_OFF"
      by (auto simp: mark_read_def updates_event_def)
    have "map (mark_read read S) (map (mark_read read {i}) es) = map (mark_read read (insert i S)) es"
      for S and es :: "event_row list"
      by (auto simp: mark_read_def)
    with "2.IH" [OF False x [symmetric] refl r1 rest "2.prems"(2) m(4,3,5,2)] m(1) False
    show ?thesis by simp
  qed
qed

text \<open>\<open>rtcom_el_set_read_events\<close>, when it returns 0, has marked every event named before the
  terminating 0 of the array and no other, and the group cache is still sound.\<close>

theorem set_read_events_marks:
  assumes "rtcom_el_set_read_events (Some ids) read el = (r, e, el')" and "r \<noteq> - 1"
    and "is_open el" and "txn el = None" and "journal el \<noteq> JM_OFF" and "cache_ok (tb el)"
  shows "Events (tb el') = map (\<lambda>e. if e_id e \<in> set (takeWhile (\<lambda>i. i \<noteq> 0) ids)
       then e\<lparr>e_is_read := (if read = 1 then 1 else 0)\<rparr> else e) (Events (tb el)) \<and> cache_ok (tb el')"
proof -
  from assms(1,2) have "set_read_loop ids read (- 1) el = (r, e, el')"
    by (auto simp: rtcom_el_set_read_events_def split: if_splits)
  from set_read_loop_marks [OF this assms(2-6)] show ?thesis by (simp add: mark_read_def [abs_def])
qed

lemma sample_set_reads: "fst (rtcom_el_set_read_events (Some [1, 3, 0]) 1 sample_el) = 0"
  by code_simp

theorem set_read_events_marks_witness:
  "\<exists>e el'. rtcom_el_set_read_events (Some [1, 3, 0]) 1 sample_el = (0, e, el') \<and>
     map e_is_read (Events (tb el')) = [1, 0, 1]"
proof -
  obtain e el' where run: "rtcom_el_set_read_events (Some [1, 3, 0]) 1 sample_el = (0, e, el')"
    using sample_set_reads by (metis prod.collapse)
  have "(0 :: int) \<noteq> - 1" by simp
  from set_read_events_marks [OF run this sample_open(1-4)] run show ?thesis
    by (simp add: sample_open sample_tables_def sample_row_def)
qed

section \<open>Flags\<close>

text \<open>The flags of a group, as the header eventlogger.h has them: the OR over its events.\<close>

definition or_flags :: "event_row list \<Rightarrow> int" where
  "or_flags es = fold (\<lambda>e a. a OR e_flags e) es 0"

definition flags_ok :: "tables \<Rightarrow> bool" where
  "flags_ok t \<longleftrightarrow> (\<forall>c\<in>set (GroupCache t). gc_flags c = or_flags (group_events t (gc_group_uid c)))"

lemma fold_or: "fold (\<lambda>e a. a OR e_flags e) es x = x OR or_flags es"
proof (induction es arbitrary: x)
  case Nil
  show ?case by (simp add: or_flags_def)
next
  case (Cons e es)
  from Cons [of "x OR e_flags e"] Cons [of "0 OR e_flags e"] show ?case
    by (simp add: or_flags_def or.assoc)
qed

lemma or_flags_Cons: "or_flags (e # es) = e_flags e OR or_flags es"
proof -
  have "or_flags (e # es) = fold (\<lambda>e a. a OR e_flags e) es (e_flags e)" by (simp add: or_flags_def)
  then show ?thesis by (simp add: fold_or)
qed

lemma or_flags_member: "e \<in> set es \<Longrightarrow> e_flags e OR or_flags es = or_flags es"
proof (induction es)
  case (Cons a es)
  show ?case
  proof (cases "e = a")
    case True
    then show ?thesis by (simp add: or_flags_Cons or.assoc [symmetric])
  next
    case False
    with Cons have "e_flags e OR or_flags es = or_flags es" by simp
    then show ?thesis by (simp add: or_flags_Cons or.left_commute)
  qed
qed simp

lemma or_flags_add:
  assumes "distinct (map e_id es)" and "e \<in> set es"
  shows "or_flags (map (update_at (e_id e) (\<lambda>e. e\<lparr>e_flags := e_flags e OR v\<rparr>)) es) = or_flags es OR v"
  using assms
proof (induction es)
  case (Cons a es)
  show ?case
  proof (cases "a = e")
    case True
    from Cons.prems(1) True have "e_id e \<notin> e_id ` set es" by simp
    then have "e_id x \<noteq> e_id e" if "x \<in> set es" for x using that by (metis imageI)
    then have "map (update_at (e_id e) f) es = es" for f
      by (intro map_idI) (auto simp: update_at_def)
    moreover have "update_at (e_id e) (\<lambda>e. e\<lparr>e_flags := e_flags e OR v\<rparr>) e = e\<lparr>e_flags := e_flags e OR v\<rparr>"
      by (simp add: update_at_def)
    ultimately show ?thesis using True by (simp add: or_flags_Cons ac_simps)
  next
    case False
    with Cons.prems have "e \<in> set es" "e_id a \<noteq> e_id e" by force+
    with Cons show ?thesis by (simp add: or_flags_Cons update_at_def ac_simps)
  qed
qed simp

lemma and_not_or_absorb: "((x :: int) OR o' = x) \<Longrightarrow> (x AND NOT o') OR (o' OR v) = x OR v"
proof (rule bit_eqI)
  fix n
  assume "x OR o' = x"
  then have "bit o' n \<Longrightarrow> bit x n" by (metis bit_or_iff)
  then show "bit ((x AND NOT o') OR (o' OR v)) n = bit (x OR v) n"
    by (auto simp: bit_or_iff bit_and_iff bit_not_iff)
qed

lemma set_flag_tables:
  assumes ok: "cache_ok t" and fl: "flags_ok t"
    and up: "(update_event i (\<lambda>e. e\<lparr>e_flags := e_flags e OR v\<rparr>) :: unit stmt) t = Inr (rs, k, t')"
  shows "flags_ok t'"
proof (cases "\<exists>e\<in>set (Events t). e_id e = i")
  case False
  with up fl show ?thesis by (simp add: update_event_absent)
next
  case True
  then obtain e where e: "e \<in> set (Events t)" "i = e_id e" by blast
  let ?f = "\<lambda>e. e\<lparr>e_flags := e_flags e OR v\<rparr>"
  note wf = cache_okD(1) [OF ok]
  have kf: "keeps_keys ?f" by (rule keeps_keys_fields)
  from up e have t': "t' = t\<lparr>Events := map (update_at (e_id e) ?f) (Events t),
      GroupCache := map (cache_adjust e (?f e)) (GroupCache t)\<rparr>"
    by (simp add: update_event_present [OF wf] gc_update_ev_update_alt)
  have "gc_flags (cache_adjust e (?f e) c) =
      or_flags (map (update_at (e_id e) ?f) (group_events t (gc_group_uid c)))"
    if c: "c \<in> set (GroupCache t)" for c
  proof (cases "e_group_uid e = Some (gc_group_uid c)")
    case True
    let ?es = "group_events t (gc_group_uid c)"
    have mem: "e \<in> set ?es" using e True by simp
    have "distinct (map e_id ?es)"
      using wf by (simp add: events_wf_def group_events_def distinct_map_filterI)
    from or_flags_add [OF this mem] True fl c and_not_or_absorb [of "gc_flags c" "e_flags e" v]
      or_flags_member [OF mem]
    show ?thesis by (simp add: cache_adjust_def flags_ok_def or.commute)
  next
    case False
    have "x = e" if "x \<in> set (Events t)" "e_id x = e_id e" for x
      by (rule events_wf_inj [OF wf that(1) e(1) that(2)])
    with False have "map (update_at (e_id e) ?f) (group_events t (gc_group_uid c)) =
        group_events t (gc_group_uid c)"
      by (intro map_idI) (auto simp: update_at_def)
    with False fl c show ?thesis by (simp add: cache_adjust_def flags_ok_def)
  qed
  then show ?thesis
    by (auto simp: flags_ok_def t' group_events_cache
        group_events_update [OF kf, where t = t and i = "e_id e", simplified])
qed

text \<open>\<open>rtcom_el_set_event_flag\<close> ORs the value of the named flag into the flags of the event with
  the given id, and the cached flags of its group remain the OR over the group's events.\<close>

theorem set_event_flag_ors:
  assumes "rtcom_el_set_event_flag i flag el = (r, e, el')" and "r \<noteq> - 1"
    and "is_open el" and "txn el = None" and "journal el \<noteq> JM_OFF"
    and "cache_ok (tb el)" and "flags_ok (tb el)"
  shows "Events (tb el') = map (\<lambda>e. if e_id e = i
       then e\<lparr>e_flags := e_flags e OR stored_flag_value flag (tb el)\<rparr> else e) (Events (tb el)) \<and>
     cache_ok (tb el') \<and> flags_ok (tb el')"
proof -
  let ?ch = "\<lambda>fl v :: int. fl OR v"
  from assms(1) have run: "change_event_flag ?ch i flag el = (r, e, el')"
    by (simp add: rtcom_el_set_event_flag_def)
  then have op: "flag_op ?ch (i, flag) el = (True, e, el')"
    using assms(2) by (simp add: flag_op_def)
  from change_event_flag_updates [OF run assms(3-5)] assms(2) obtain rs k where
    ev: "Events (tb el') = map (update_at i (\<lambda>e. e\<lparr>e_flags := e_flags e OR stored_flag_value flag (tb el)\<rparr>))
       (Events (tb el))"
    and up: "tb el' = tb el \<or> (update_event i (\<lambda>e. e\<lparr>e_flags := e_flags e OR stored_flag_value flag (tb el)\<rparr>)
       :: unit stmt) (tb el) = Inr (rs, k, tb el')"
    by (auto simp: updates_event_def)
  from up set_flag_tables [OF assms(6,7), of i] assms(7) have "flags_ok (tb el')" by auto
  with ev change_flag.keeps_cache [OF assms(3-6) op] show ?thesis
    by (simp add: update_at_def [abs_def])
qed

lemma sample_set_flag: "fst (rtcom_el_set_event_flag 2 (Some ''F'') sample_el) = 0"
  by code_simp

lemma sample_flags_ok: "flags_ok sample_tables"
  by code_simp

theorem set_event_flag_ors_witness:
  "\<exists>e el'. rtcom_el_set_event_flag 2 (Some ''F'') sample_el = (0, e, el') \<and>
     map e_flags (Events (tb el')) = [1, 5, 1] \<and> flags_ok (tb el')"
proof -
  obtain e el' where run: "rtcom_el_set_event_flag 2 (Some ''F'') sample_el = (0, e, el')"
    using sample_set_flag by (metis prod.collapse)
  have v: "stored_flag_value (Some ''F'') (tb sample_el) = 4" by code_simp
  have ne: "(0 :: int) \<noteq> - 1" by simp
  have "flags_ok (tb sample_el)" using sample_flags_ok by (simp add: sample_open)
  note eff = set_event_flag_ors [OF run ne sample_open(1-4) this, unfolded v]
  then have "map e_flags (Events (tb el')) = [1, 5, 1]"
    by (simp add: sample_open) (simp add: sample_tables_def sample_row_def)
  with run eff show ?thesis by (intro exI [of _ e] exI [of _ el'] conjI) simp_all
qed

text \<open>C28: \<open>rtcom_el_unset_event_flag\<close> clears exactly the bits of the flag in the event, and the
  counters of the group cache stay sound.\<close>

theorem unset_event_flag_clears:
  assumes "rtcom_el_unset_event_flag i flag el = (r, e, el')" and "r \<noteq> - 1"
    and "is_open el" and "txn el = None" and "journal el \<noteq> JM_OFF" and "cache_ok (tb el)"
  shows "Events (tb el') = map (\<lambda>e. if e_id e = i
       then e\<lparr>e_flags := e_flags e AND NOT (stored_flag_value flag (tb el))\<rparr> else e) (Events (tb el)) \<and>
     cache_ok (tb el')"
proof -
  let ?ch = "\<lambda>fl v :: int. fl AND NOT v"
  from assms(1) have run: "change_event_flag ?ch i flag el = (r, e, el')"
    by (simp add: rtcom_el_unset_event_flag_def)
  then have op: "flag_op ?ch (i, flag) el = (True, e, el')"
    using assms(2) by (simp add: flag_op_def)
  from change_event_flag_updates [OF run assms(3-5)] assms(2)
    change_flag.keeps_cache [OF assms(3-6) op]
  show ?thesis by (simp add: updates_event_def update_at_def [abs_def])
qed

text \<open>An event that has the flag F (of value 4), as has the other event of its group.\<close>

definition flagged_el :: el where
  "flagged_el = sample_el\<lparr>tb := sample_tables
     \<lparr>Events := [(sample_row 1 ''g'')\<lparr>e_flags := 4\<rparr>, (sample_row 2 ''g'')\<lparr>e_flags := 4\<rparr>],
      GroupCache := [\<lparr>gc_event_id = 2, gc_service_id = 1, gc_group_uid = ''g'', gc_total_events = 2,
          gc_read_events = 0, gc_flags = 4\<rparr>]\<rparr>\<rparr>"

lemma flagged_unset: "fst (rtcom_el_unset_event_flag 2 (Some ''F'') flagged_el) = 0"
  by code_simp

theorem unset_event_flag_clears_witness:
  "\<exists>e el'. rtcom_el_unset_event_flag 2 (Some ''F'') flagged_el = (0, e, el') \<and>
     map e_flags (Events (tb el')) = [4, 0] \<and> cache_ok (tb el')"
proof -
  obtain e el' where run: "rtcom_el_unset_event_flag 2 (Some ''F'') flagged_el = (0, e, el')"
    using flagged_unset by (metis prod.collapse)
  have v: "stored_flag_value (Some ''F'') (tb flagged_el) = 4" by code_simp
  have ne: "(0 :: int) \<noteq> - 1" by simp
  have op: "is_open flagged_el" "txn flagged_el = None" "journal flagged_el \<noteq> JM_OFF"
    by (simp_all add: flagged_el_def sample_el_def)
  have "cache_ok (tb flagged_el)" by code_simp
  note eff = unset_event_flag_clears [OF run ne op this, unfolded v]
  have "Events (tb flagged_el) = [(sample_row 1 ''g'')\<lparr>e_flags := 4\<rparr>, (sample_row 2 ''g'')\<lparr>e_flags := 4\<rparr>]"
    by (simp add: flagged_el_def)
  with eff have "map e_flags (Events (tb el')) = [4, 0]" by (simp add: sample_row_def)
  with run eff show ?thesis by (intro exI [of _ e] exI [of _ el'] conjI) simp_all
qed

text \<open>After unsetting a flag the cached flags of a group need no longer be the OR over its
  events: the trigger gc_update_ev_update clears a bit that another event of the group still
  has.\<close>

theorem unset_event_flag_loses_group_flag:
  "flags_ok (tb flagged_el) \<and>
   (case rtcom_el_unset_event_flag 2 (Some ''F'') flagged_el of (r, e, el') \<Rightarrow>
      r = 0 \<and> map gc_flags (GroupCache (tb el')) = [0] \<and>
      or_flags (group_events (tb el') ''g'') = 4 \<and> \<not> flags_ok (tb el'))"
  by code_simp

section \<open>Remote contacts\<close>

lemma update_remotes_op_failed:
  assumes "update_remotes_op stmts el = Some (False, e, el')" and "is_open el"
    and j: "journal el \<noteq> JM_OFF"
  shows "durable el' = durable el \<and> journal el' = journal el"
proof -
  from assms(1,2) obtain r where r: "in_transaction False (exec_all stmts) el = Some (r, e, el')"
    "r \<noteq> Some ()" by (auto simp: update_remotes_op_def split: option.splits prod.splits)
  then have "in_transaction False (exec_all stmts) el = Some (None, e, el')" by (cases r) auto
  from exec_all.failure_keeps_durable [OF this j] show ?thesis by simp
qed

lemma update_remotes_op_done:
  assumes "update_remotes_op (map stmt xs) el = Some (True, e, el')" and "is_open el"
    and j: "journal el \<noteq> JM_OFF"
    and st: "\<And>x. x \<in> set xs \<Longrightarrow>
       \<exists>P f. stmt x = update_remotes P f \<and> (\<forall>r. upd x r = (if P r then f r else r))"
  shows "tb el' = (tb el)\<lparr>Remotes := map (fold upd xs) (Remotes (tb el))\<rparr> \<and> txn el' = None"
proof -
  from assms(1,2) obtain u e1 el1 where t: "in_transaction False (exec_all (map stmt xs)) el =
      Some (Some u, e1, el1)" and el': "el' = emit_dbus ''RefreshHint'' (- 1) None el1"
    by (auto simp: update_remotes_op_def split: option.splits prod.splits)
  from exec_all.success_commits [OF t] j obtain e2 d1 d2 where d: "tb d1 = tb el"
    "exec_all (map stmt xs) d1 = Some (Some u, e2, d2)" "tb el1 = tb d2" "txn el1 = None"
    "journal el1 = journal el" by auto
  have "tb d2 = (tb d1)\<lparr>Remotes := map (fold upd xs) (Remotes (tb d1))\<rparr>"
    by (rule exec_all_remotes [OF st d(2)])
  with d j emit_dbus_auto [of el1] show ?thesis by (simp add: el')
qed

text \<open>A successful \<open>rtcom_el_update_remote_contacts\<close> gives every remote named in the list, by
  both its local and its remote uid, the new address book uid and the new name, in the order of
  the list, changes no other table and leaves no transaction open.\<close>

theorem update_remote_contacts_effect:
  assumes "rtcom_el_update_remote_contacts cs el = Some (True, e, el')" and "cs \<noteq> []"
    and "is_open el" and "journal el \<noteq> JM_OFF"
  shows "tb el' = (tb el)\<lparr>Remotes := map (fold (\<lambda>c r.
       if rc_remote_uid c = Some (rm_remote_uid r) \<and> rc_local_uid c = Some (rm_local_uid r)
       then r\<lparr>rm_abook_uid := rc_abook_uid c, rm_remote_name := rc_remote_name c\<rparr> else r) cs)
     (Remotes (tb el))\<rparr> \<and> txn el' = None"
proof (rule update_remotes_op_done [OF _ assms(3,4)])
  show "update_remotes_op (map update_contact cs) el = Some (True, e, el')"
    using assms(1,2) by (simp add: rtcom_el_update_remote_contacts_def)
qed (auto simp: update_contact_def remote_is_def intro!: exI)

definition sample_contact :: RTComElRemote where
  "sample_contact = \<lparr>rc_local_uid = Some ''me'', rc_remote_uid = Some ''bob'',
     rc_abook_uid = None, rc_remote_name = Some ''Robert''\<rparr>"

lemma sample_update_contacts:
  "map_option fst (rtcom_el_update_remote_contacts [sample_contact] sample_el) = Some True"
  by code_simp

theorem update_remote_contacts_effect_witness:
  "\<exists>e el'. rtcom_el_update_remote_contacts [sample_contact] sample_el = Some (True, e, el') \<and>
     map rm_remote_name (Remotes (tb el')) = [Some ''Robert'']"
proof -
  obtain e el' where run: "rtcom_el_update_remote_contacts [sample_contact] sample_el =
      Some (True, e, el')" using sample_update_contacts by auto
  from update_remote_contacts_effect [OF run _ sample_open(1,3)]
  have "map rm_remote_name (Remotes (tb el')) = [Some ''Robert'']"
    by (simp add: sample_open sample_tables_def sample_contact_def)
  with run show ?thesis by (intro exI [of _ e] exI [of _ el'] conjI)
qed

text \<open>C35: When \<open>rtcom_el_update_remote_contacts\<close> fails, at any contact of the list or at the
  commit, none of the contacts has changed in the durable tables.\<close>

theorem update_remote_contacts_atomic:
  assumes "rtcom_el_update_remote_contacts cs el = Some (False, e, el')"
    and "is_open el" and "journal el \<noteq> JM_OFF"
  shows "durable el' = durable el"
proof -
  from assms(1) have "update_remotes_op (map update_contact cs) el = Some (False, e, el')"
    by (auto simp: rtcom_el_update_remote_contacts_def split: if_splits)
  from update_remotes_op_failed [OF this assms(2,3)] show ?thesis by simp
qed

text \<open>The disk is full at the second contact.\<close>

definition full_disk_el :: el where
  "full_disk_el = sample_el\<lparr>script := [Go, Go, Go, Go, Go, Refuse SQLITE_FULL 0 False]\<rparr>"

lemma full_disk_fails: "map_option fst (rtcom_el_update_remote_contacts
    [sample_contact, sample_contact] full_disk_el) = Some False"
  by code_simp

theorem update_remote_contacts_atomic_witness:
  "\<exists>e el'. rtcom_el_update_remote_contacts [sample_contact, sample_contact] full_disk_el =
     Some (False, e, el') \<and> durable el' = sample_tables"
proof -
  obtain e el' where run: "rtcom_el_update_remote_contacts [sample_contact, sample_contact]
      full_disk_el = Some (False, e, el')" using full_disk_fails by auto
  have "is_open full_disk_el" "journal full_disk_el \<noteq> JM_OFF" "durable full_disk_el = sample_tables"
    by (simp_all add: full_disk_el_def sample_open)
  with update_remote_contacts_atomic [OF run] run show ?thesis by simp
qed

definition drop_uid :: "string option \<Rightarrow> remote_row \<Rightarrow> remote_row" where
  "drop_uid u r = (if u \<noteq> None \<and> rm_abook_uid r = u then r\<lparr>rm_abook_uid := None\<rparr> else r)"

lemma rm_abook_drop_uid [simp]:
  "rm_abook_uid (drop_uid u r) = (if rm_abook_uid r = u then None else rm_abook_uid r)"
  by (auto simp: drop_uid_def)

lemma forget_all:
  "rm_abook_uid (fold drop_uid us r) =
     (if rm_abook_uid r \<in> set us then None else rm_abook_uid r)"
proof (induction us arbitrary: r)
  case (Cons u us)
  show ?case by (auto simp: Cons)
qed simp

text \<open>After a successful \<open>rtcom_el_remove_abook_uids\<close> no remote refers to a removed address book
  entry, and every other remote keeps its own.\<close>

theorem remove_abook_uids_forgets:
  assumes "rtcom_el_remove_abook_uids uids el = Some (True, e, el')" and "uids \<noteq> []"
    and "is_open el" and "journal el \<noteq> JM_OFF"
  shows "map rm_abook_uid (Remotes (tb el')) =
     map (\<lambda>r. if rm_abook_uid r \<in> set uids then None else rm_abook_uid r) (Remotes (tb el)) \<and>
     Events (tb el') = Events (tb el)"
proof -
  have "tb el' = (tb el)\<lparr>Remotes := map (fold drop_uid uids) (Remotes (tb el))\<rparr> \<and> txn el' = None"
  proof (rule update_remotes_op_done [OF _ assms(3,4)])
    show "update_remotes_op (map forget_abook_uid uids) el = Some (True, e, el')"
      using assms(1,2) by (simp add: rtcom_el_remove_abook_uids_def)
  qed (auto simp: forget_abook_uid_def drop_uid_def intro!: exI)
  then show ?thesis by (simp add: forget_all)
qed

lemma sample_remove: "map_option fst (rtcom_el_remove_abook_uids [Some ''7''] sample_el) = Some True"
  by code_simp

theorem remove_abook_uids_forgets_witness:
  "\<exists>e el'. rtcom_el_remove_abook_uids [Some ''7''] sample_el = Some (True, e, el') \<and>
     map rm_abook_uid (Remotes (tb el')) = [None]"
proof -
  obtain e el' where run: "rtcom_el_remove_abook_uids [Some ''7''] sample_el = Some (True, e, el')"
    using sample_remove by auto
  from remove_abook_uids_forgets [OF run _ sample_open(1,3)] run show ?thesis
    by (simp add: sample_open sample_tables_def)
qed

text \<open>\<open>_add_event_core\<close> compares the new address book uid with the stored name: an event that
  carries a new address book uid equal to the contact's stored name does not update it, although
  the stored uid differs.\<close>

theorem add_event_skips_abook_update:
  "case rtcom_el_add_event (Some (event_set_field F_remote_ebook_uid
       (\<lambda>e. e\<lparr>fld_remote_ebook_uid := Some ''Bob''\<rparr>) (sample_event ''CALL''))) sample_el of
     Some (r, e, el') \<Rightarrow> r = 4 \<and> map rm_abook_uid (Remotes (tb el')) = [Some ''7'']
   | None \<Rightarrow> False"
  by code_simp

end
