(* ===== verification/El_Delete_Props.thy ===== *)
theory El_Delete_Props
  imports El_Delete El_Update_Props "HOL-Library.Multiset"
begin

text \<open>
  What the deletions do. The theorems that promise something about the group cache are for
  calls in which SQLite goes ahead (\<open>script el = []\<close>): the code ignores several failures.
\<close>

section \<open>The IN list\<close>

definition somes :: "'a option list \<Rightarrow> 'a list" where
  "somes li = List.map_filter (\<lambda>x. x) li"

lemma somes_simps [simp]:
  "somes [] = []" "somes (None # li) = somes li" "somes (Some g # li) = g # somes li"
  by (simp_all add: somes_def List.map_filter_simps)

lemma set_somes: "set (somes li) = {g. Some g \<in> set li}"
proof (induction li)
  case (Cons a li)
  then show ?case by (cases a) auto
qed simp

lemma somes_Nil_iff: "somes li = [] \<longleftrightarrow> (\<forall>x\<in>set li. x = None)"
proof (induction li)
  case (Cons a li)
  then show ?case by (cases a) auto
qed simp

lemma in_list_Nil_iff: "in_list li = [] \<longleftrightarrow> somes li = []"
  by (induction li rule: in_list.induct) auto

lemma read_literal_plain:
  assumes "CHR 0x27 \<notin> set g" and "case rest of [] \<Rightarrow> True | c # _ \<Rightarrow> c \<noteq> CHR 0x27"
  shows "read_literal acc (g @ CHR 0x27 # rest) = Some (acc @ g, rest)"
  using assms
proof (induction g arbitrary: acc)
  case Nil
  then show ?case by (cases rest) auto
next
  case (Cons c g)
  then show ?case by auto
qed

lemma read_in_list_in_list:
  assumes "\<forall>g\<in>set (somes li). CHR 0x27 \<notin> set g" and "somes li \<noteq> []" and "length (in_list li) \<le> n"
  shows "read_in_list n (in_list li) = (if last li = None then None else Some (somes li))"
  using assms
proof (induction li arbitrary: n)
  case Nil
  then show ?case by simp
next
  case (Cons a li)
  show ?case
  proof (cases a)
    case None
    with Cons.prems have "li \<noteq> []" by auto
    with Cons None show ?thesis by simp
  next
    case (Some g)
    from Cons.prems(3) Some obtain m where n: "n = Suc m" by (cases n) auto
    have g: "CHR 0x27 \<notin> set g" using Cons.prems(1) Some by simp
    show ?thesis
    proof (cases "li = []")
      case True
      with Some n read_literal_plain [OF g, of "[]" "[]"] show ?thesis by simp
    next
      case False
      have rl: "read_literal [] (g @ CHR 0x27 # CHR 0x2C # in_list li) = Some (g, CHR 0x2C # in_list li)"
        using read_literal_plain [OF g, of "CHR 0x2C # in_list li" "[]"] by simp
      show ?thesis
      proof (cases "somes li = []")
        case True
        with False have "last li = None" using somes_Nil_iff last_in_set by metis
        moreover have "read_in_list m [] = None" by (cases m) simp_all
        ultimately show ?thesis
          using Some n False rl True in_list_Nil_iff [of li] by simp
      next
        case ne: False
        have "length (in_list li) \<le> m" using Cons.prems(3) Some n by simp
        with Cons.IH [of m] Cons.prems(1) Some ne
        have "read_in_list m (in_list li) = (if last li = None then None else Some (somes li))" by simp
        with Some n \<open>li \<noteq> []\<close> rl show ?thesis by simp
      qed
    qed
  qed
qed

lemma in_list_round_trip_rule:
  assumes "\<forall>g\<in>set (somes li). CHR 0x27 \<notin> set g"
  shows "parse_in_list (in_list li) =
     (if somes li \<noteq> [] \<and> last li = None then None else Some (somes li))"
proof (cases "somes li = []")
  case True
  then show ?thesis using in_list_Nil_iff [of li] by (simp add: parse_in_list_def)
next
  case False
  then have "in_list li \<noteq> []" using in_list_Nil_iff by blast
  with False read_in_list_in_list [OF assms False order_refl] show ?thesis
    by (simp add: parse_in_list_def)
qed

text \<open>The text \<open>update_group_cache\<close> puts between the parentheses of IN names exactly the groups of
  the list, provided none contains a quote, except that it is no list at all when a group is
  followed only by NULLs: it then ends in a comma.\<close>

theorem in_list_round_trip:
  assumes "\<forall>g\<in>set (somes li). CHR 0x27 \<notin> set g"
  shows "parse_in_list (in_list li) =
     (if somes li \<noteq> [] \<and> last li = None then None else Some (somes li))"
  using assms by (rule in_list_round_trip_rule)

theorem in_list_round_trip_witness:
  "parse_in_list (in_list [Some ''a'', None, Some ''b'']) = Some [''a'', ''b''] \<and>
   parse_in_list (in_list [Some ''a'', None]) = None"
  using in_list_round_trip [of "[Some ''a'', None, Some ''b'']"]
    in_list_round_trip [of "[Some ''a'', None]"] by simp

section \<open>Statements when SQLite goes ahead\<close>

lemma exec_calm_stmt:
  assumes "script d = []" and "rtcom_el_db_exec (Stmt f) d = (ok, rows, e, d')"
  shows "script d' = [] \<and> txn d' = txn d \<and> journal d' = journal d \<and>
     (case f (tb d) of
        Inl c \<Rightarrow> \<not> ok \<and> tb d' = tb d
      | Inr (rs, i, t) \<Rightarrow> ok \<and> rows = rs \<and> tb d' = t)"
  using assms(2) exec_calm [OF assms(1), of "Stmt f"] by (auto split: sum.splits)

lemma set_journal_calm:
  assumes "script el = []" and "txn el = None"
  shows "set_journal m el = el\<lparr>journal := m, errcode := None\<rparr>"
  using assms by (simp add: set_journal_def exec_calm)

lemma set_journal_more: "db.more (set_journal m el) = db.more el"
  unfolding set_journal_def using exec_more [of "PRAGMA_JOURNAL m :: unit sql" el]
  by (metis prod.collapse)

text \<open>The frame around a body that succeeds.\<close>

lemma run_deletion_calm:
  assumes "script el = []" and "txn el = None"
    and calm: "\<And>d'. body (el\<lparr>journal := JM_OFF, txn := Some (tb el), errcode := None\<rparr>) = Some (True, d') \<Longrightarrow>
       script d' = [] \<and> txn d' = Some (tb el)"
  shows "run_deletion body el = Some (True, el') \<longleftrightarrow>
     (\<exists>d'. body (el\<lparr>journal := JM_OFF, txn := Some (tb el), errcode := None\<rparr>) = Some (True, d') \<and>
        el' = d'\<lparr>txn := None, journal := JM_TRUNCATE, errcode := None\<rparr>)"
proof -
  let ?d = "el\<lparr>journal := JM_OFF, txn := Some (tb el), errcode := None\<rparr>"
  have tr: "rtcom_el_db_transaction False (set_journal JM_OFF el) = (True, None, ?d)"
    using assms(1,2) by (simp add: rtcom_el_db_transaction_def set_journal_calm exec_calm)
  show ?thesis
  proof (cases "body ?d")
    case None
    with tr show ?thesis by (simp add: run_deletion_def)
  next
    case (Some r)
    obtain ok d' where r: "r = (ok, d')" by (metis surj_pair)
    show ?thesis
    proof (cases ok)
      case False
      with tr Some r show ?thesis by (simp add: run_deletion_def sql_error_def)
    next
      case True
      with calm [of d'] Some r have "script d' = []" "txn d' \<noteq> None" by auto
      then have "rtcom_el_db_commit d' = (True, None, d'\<lparr>txn := None, errcode := None\<rparr>)"
        "set_journal JM_TRUNCATE (d'\<lparr>txn := None, errcode := None\<rparr>) =
          d'\<lparr>txn := None, journal := JM_TRUNCATE, errcode := None\<rparr>"
        by (simp_all add: rtcom_el_db_commit_def exec_calm set_journal_calm)
      with tr Some r True show ?thesis by (auto simp: run_deletion_def)
    qed
  qed
qed

text \<open>
  A body that deletes events: with \<open>ready\<close>, what it needs of the object and of the tables, it
  keeps the cache sound.
\<close>

locale deletion =
  fixes body :: "el \<Rightarrow> (bool \<times> el) option" and ready :: "el \<Rightarrow> bool"
    and deletes :: "tables \<Rightarrow> event_row \<Rightarrow> bool"
  assumes body_calm: "script d = [] \<Longrightarrow> ready d \<Longrightarrow> body d = Some (True, d') \<Longrightarrow>
       script d' = [] \<and> txn d' = txn d \<and> is_open d' = is_open d \<and>
       Events (tb d') = filter (\<lambda>e. \<not> deletes (tb d) e) (Events (tb d))"
    and body_cache: "script d = [] \<Longrightarrow> ready d \<Longrightarrow> cache_ok (tb d) \<Longrightarrow>
       body d = Some (True, d') \<Longrightarrow> cache_ok (tb d')"
    and ready_frame: "ready d \<Longrightarrow> ready (d\<lparr>journal := m, txn := x, errcode := c\<rparr>)"
begin

lemma run_effect:
  assumes "script el = []" and "txn el = None" and pre: "ready el"
    and run: "run_deletion body el = Some (True, el')"
  shows "Events (tb el') = filter (\<lambda>e. \<not> deletes (tb el) e) (Events (tb el)) \<and> txn el' = None \<and>
     journal el' = JM_TRUNCATE \<and> script el' = [] \<and> is_open el' = is_open el \<and>
     (cache_ok (tb el) \<longrightarrow> cache_ok (tb el'))"
proof -
  let ?d = "el\<lparr>journal := JM_OFF, txn := Some (tb el), errcode := None\<rparr>"
  have d: "script ?d = []" "ready ?d" using assms(1) ready_frame [OF pre] by simp_all
  have calm: "script d' = [] \<and> txn d' = Some (tb el)" if "body ?d = Some (True, d')" for d'
    using body_calm [OF d that] by simp
  from run_deletion_calm [OF assms(1,2) calm] run obtain d' where d': "body ?d = Some (True, d')"
    "el' = d'\<lparr>txn := None, journal := JM_TRUNCATE, errcode := None\<rparr>" by blast
  from body_calm [OF d d'(1)] body_cache [OF d _ d'(1)] d'(2) show ?thesis by simp
qed

end

section \<open>Deleting and refreshing\<close>

text \<open>No group contains a quote, and DISTINCT returns the right rows in some order.\<close>

definition plain_groups :: "el \<Rightarrow> bool" where
  "plain_groups el \<longleftrightarrow>
     (\<forall>e\<in>set (Events (tb el)). \<forall>g. e_group_uid e = Some g \<longrightarrow> CHR 0x27 \<notin> set g) \<and>
     (\<forall>xs. mset (scan_order el xs) = mset xs)"

lemma plain_groups_frame [simp]:
  "plain_groups (d\<lparr>journal := m, txn := x, errcode := c\<rparr>) = plain_groups d"
  by (simp add: plain_groups_def)

lemma update_group_cache_calm:
  assumes "script d = []" and run: "update_group_cache li d = Some (True, d')"
    and q: "\<forall>g\<in>set (somes li). CHR 0x27 \<notin> set g"
  shows "script d' = [] \<and> txn d' = txn d \<and> is_open d' = is_open d \<and> Events (tb d') = Events (tb d) \<and>
     (if li = [] then tb d' = tb d
      else \<exists>r i t1 s j. (refresh_groups (somes li) :: unit stmt) (tb d) = Inr (r, i, t1) \<and>
         (drop_empty_groups :: unit stmt) t1 = Inr (s, j, tb d'))"
proof (cases "li = []")
  case True
  with assms show ?thesis by (simp add: update_group_cache_def)
next
  case False
  show ?thesis
  proof (cases "parse_in_list (in_list li)")
    case None
    with False run assms(1) show ?thesis
      by (auto simp: update_group_cache_def exec_calm split: if_splits)
  next
    case (Some gs)
    with in_list_round_trip_rule [OF q] have gs: "gs = somes li" by (simp split: if_splits)
    obtain ok r x d1 where e1: "rtcom_el_db_exec (Stmt (refresh_groups gs) :: unit sql) d = (ok, r, x, d1)"
      using that by (rule prod_cases4)
    obtain ok2 r2 x2 d2 where e2: "rtcom_el_db_exec (Stmt drop_empty_groups :: unit sql) d1 = (ok2, r2, x2, d2)"
      using that by (rule prod_cases4)
    from exec_calm_stmt [OF assms(1) e1] have c1: "script d1 = []" "txn d1 = txn d" "ok"
      "(refresh_groups gs :: unit stmt) (tb d) = Inr ([], None, tb d1)"
      by (auto simp: refresh_groups_def)
    from exec_calm_stmt [OF c1(1) e2] have c2: "script d2 = []" "txn d2 = txn d1"
      "(drop_empty_groups :: unit stmt) (tb d1) = Inr ([], None, tb d2)"
      by (auto simp: drop_empty_groups_def)
    from run False Some e1 e2 c1(3) have "d' = d2"
      by (auto simp: update_group_cache_def split: if_splits)
    moreover have "Events (tb d1) = Events (tb d)" "Events (tb d2) = Events (tb d1)"
      using c1(4) c2(3) by (auto simp: refresh_groups_def drop_empty_groups_def
          dest!: sym [where t = "tb d1"] sym [where t = "tb d2"])
    moreover have "is_open d1 = is_open d" "is_open d2 = is_open d1"
      using exec_el(1) [OF e1] exec_el(1) [OF e2] by auto
    ultimately show ?thesis using c1 c2 False gs by auto
  qed
qed

lemma delete_and_refresh_calm:
  assumes "script d = []" and "delete_and_refresh li (Stmt del) d = Some (True, d')"
    and del: "del (tb d) = (delete_events_where P :: unit stmt) (tb d)"
    and q: "\<forall>g\<in>set (somes li). CHR 0x27 \<notin> set g"
  shows "script d' = [] \<and> txn d' = txn d \<and> is_open d' = is_open d \<and>
     Events (tb d') = filter (\<lambda>e. \<not> P e) (Events (tb d)) \<and>
     (cache_ok (tb d) \<longrightarrow>
       (\<forall>e\<in>set (Events (tb d)). P e \<longrightarrow> e_group_uid e \<in> set li) \<longrightarrow> cache_ok (tb d'))"
proof -
  obtain ok r x d1 where e1: "rtcom_el_db_exec (Stmt del) d = (ok, r, x, d1)"
    using that by (rule prod_cases4)
  from exec_calm_stmt [OF assms(1) e1] have c1: "script d1 = []" "txn d1 = txn d" "ok"
    "(delete_events_where P :: unit stmt) (tb d) = Inr (r, None, tb d1)"
    by (auto simp: del delete_events_where_def)
  have u: "update_group_cache li d1 = Some (True, d')"
    using assms(2) e1 c1(3) by (simp add: delete_and_refresh_def)
  note c2 = update_group_cache_calm [OF c1(1) u q]
  note ev = delete_events_result [OF c1(4)]
  have "cache_ok (tb d')" if ok: "cache_ok (tb d)"
    and li: "\<forall>e\<in>set (Events (tb d)). P e \<longrightarrow> e_group_uid e \<in> set li"
  proof (cases "li = []")
    case True
    with li have "cache_but {} (tb d1)"
      by (intro delete_events_but [OF ok c1(4)]) auto
    with c2 True show ?thesis by (simp add: cache_ok_def)
  next
    case False
    with c2 obtain r i t1 s j where
      re: "(refresh_groups (somes li) :: unit stmt) (tb d1) = Inr (r, i, t1)"
      and dr: "(drop_empty_groups :: unit stmt) t1 = Inr (s, j, tb d')" by auto
    show ?thesis
    proof (rule delete_refresh_drop_ok [OF ok c1(4) _ re dr])
      fix e g assume "e \<in> set (Events (tb d))" "P e" "e_group_uid e = Some g"
      with li show "g \<in> set (somes li)" by (metis mem_Collect_eq set_somes)
    qed
  qed
  with c1 c2 ev exec_el(1) [OF e1] show ?thesis by simp
qed

lemma distinct_rows_set: "plain_groups el \<Longrightarrow> set (distinct_rows el xs) = set xs"
  unfolding distinct_rows_def plain_groups_def by (metis set_mset_mset set_remdups)

lemma distinct_rows_length: "plain_groups el \<Longrightarrow> length (distinct_rows el xs) = length (remdups xs)"
  unfolding distinct_rows_def plain_groups_def by (metis size_mset)

lemma group_uids_calm:
  assumes "script d = []" and "get_event_group_uids holds i wh d = (li, d')"
  shows "script d' = [] \<and> txn d' = txn d \<and> tb d' = tb d \<and> is_open d' = is_open d \<and>
     (0 < i \<longrightarrow> li = rev (distinct_rows d (map e_group_uid (filter (\<lambda>e. e_id e = i) (Events (tb d)))))) \<and>
     (\<not> 0 < i \<longrightarrow> wh = None \<longrightarrow> li = []) \<and>
     (\<forall>w. \<not> 0 < i \<longrightarrow> wh = Some w \<longrightarrow> li = (case holds w of None \<Rightarrow> []
        | Some P \<Rightarrow> rev (distinct_rows d (map (\<lambda>j. e_group_uid (jn_event j)) (filter P (joined (tb d)))))))"
  using assms
  by (auto simp: get_event_group_uids_def exec_calm select_rows_def split: option.splits if_splits)

lemma delete_event_body_calm:
  assumes "script d = []" and "1 \<le> i" and plain: "plain_groups d"
    and run: "delete_event_body holds i d = Some (True, d')"
  shows "script d' = [] \<and> txn d' = txn d \<and> is_open d' = is_open d \<and>
     Events (tb d') = filter (\<lambda>e. e_id e \<noteq> i) (Events (tb d)) \<and>
     (cache_ok (tb d) \<longrightarrow> cache_ok (tb d'))"
proof -
  obtain li d1 where g: "get_event_group_uids holds i None d = (li, d1)" by (metis surj_pair)
  from group_uids_calm [OF assms(1) g] assms(2)
  have c: "script d1 = []" "txn d1 = txn d" "tb d1 = tb d" "is_open d1 = is_open d"
    "li = rev (distinct_rows d (map e_group_uid (filter (\<lambda>e. e_id e = i) (Events (tb d)))))" by auto
  have li: "set li = e_group_uid ` {e \<in> set (Events (tb d)). e_id e = i}"
    using c(5) distinct_rows_set [OF plain] by auto
  then have q: "\<forall>g\<in>set (somes li). CHR 0x27 \<notin> set g"
    using plain by (auto simp: set_somes plain_groups_def)
  from run g have "delete_and_refresh li (Stmt (delete_events_where (\<lambda>e. e_id e = i))) d1 = Some (True, d')"
    by (simp add: delete_event_body_def)
  from delete_and_refresh_calm [OF c(1) this refl q] c li show ?thesis by auto
qed

lemma joined_event: "j \<in> set (joined t) \<Longrightarrow> jn_event j \<in> set (Events t)"
  by (auto simp: joined_def join_event_def)

lemma delete_events_body_calm:
  assumes "script d = []" and plain: "plain_groups d"
    and run: "delete_events_body holds w d = Some (True, d')"
  shows "\<exists>P. holds w = Some P \<and> script d' = [] \<and> txn d' = txn d \<and> is_open d' = is_open d \<and>
     Events (tb d') = filter (\<lambda>e. e_id e \<notin> set (matching_ids P (tb d))) (Events (tb d)) \<and>
     (cache_ok (tb d) \<longrightarrow> cache_ok (tb d'))"
proof -
  obtain li d1 where g: "get_event_group_uids holds (- 1) (Some w) d = (li, d1)" by (metis surj_pair)
  note c = group_uids_calm [OF assms(1) g]
  show ?thesis
  proof (cases "holds w")
    case None
    with run g c show ?thesis
      by (auto simp: delete_events_body_def delete_and_refresh_def exec_calm)
  next
    case (Some P)
    with c have li: "set li = (\<lambda>j. e_group_uid (jn_event j)) ` {j \<in> set (joined (tb d)). P j}"
      using distinct_rows_set [OF plain] by auto
    then have q: "\<forall>g\<in>set (somes li). CHR 0x27 \<notin> set g"
      using plain by (auto simp: set_somes plain_groups_def dest!: joined_event)
    from run g Some have r: "delete_and_refresh li (Stmt (\<lambda>t.
        delete_events_where (\<lambda>e. e_id e \<in> set (matching_ids P t)) t)) d1 = Some (True, d')"
      by (simp add: delete_events_body_def)
    have "e_group_uid e \<in> set li"
      if ok: "cache_ok (tb d)" and e: "e \<in> set (Events (tb d))" "e_id e \<in> set (matching_ids P (tb d))" for e
    proof -
      from e(2) obtain j where j: "j \<in> set (joined (tb d))" "P j" "e_id (jn_event j) = e_id e"
        by (auto simp: matching_ids_def)
      with events_wf_inj [OF cache_okD(1) [OF ok] joined_event [OF j(1)] e(1)] have "jn_event j = e" by simp
      with j li show ?thesis by auto
    qed
    with delete_and_refresh_calm [OF _ r _ q, of "\<lambda>e. e_id e \<in> set (matching_ids P (tb d))"] c Some
    show ?thesis by auto
  qed
qed

interpretation delete_event: deletion "delete_event_body holds i"
  "\<lambda>d. plain_groups d \<and> 1 \<le> i" "\<lambda>t e. e_id e = i" for holds i
  by unfold_locales (use delete_event_body_calm in \<open>auto\<close>)

definition selected_by :: "where_meaning \<Rightarrow> string \<Rightarrow> tables \<Rightarrow> event_row \<Rightarrow> bool" where
  "selected_by holds w t e \<longleftrightarrow>
     (case holds w of None \<Rightarrow> False | Some P \<Rightarrow> e_id e \<in> set (matching_ids P t))"

interpretation delete_events: deletion "delete_events_body holds w" plain_groups "selected_by holds w"
  for holds w
  by unfold_locales (use delete_events_body_calm in \<open>fastforce simp: selected_by_def\<close>)+

section \<open>Deleting whole groups\<close>

lemma delete_rows_calm:
  assumes "script d = []" and "delete_rows P Q d = (ok, d')"
  shows "ok \<and> script d' = [] \<and> txn d' = txn d \<and> is_open d' = is_open d \<and>
     Events (tb d') = filter (\<lambda>e. \<not> P e) (Events (tb d)) \<and>
     ((\<forall>e\<in>set (Events (tb d)). \<forall>c\<in>set (GroupCache (tb d)).
         e_group_uid e = Some (gc_group_uid c) \<longrightarrow> (P e \<longleftrightarrow> Q c)) \<longrightarrow>
      cache_ok (tb d) \<longrightarrow> cache_ok (tb d'))"
proof -
  obtain ok1 r x d1 where e1: "rtcom_el_db_exec (Stmt (delete_events_where P) :: unit sql) d = (ok1, r, x, d1)"
    using that by (rule prod_cases4)
  obtain ok2 r2 x2 d2 where e2: "rtcom_el_db_exec (Stmt (delete_cache_where Q) :: unit sql) d1 = (ok2, r2, x2, d2)"
    using that by (rule prod_cases4)
  from exec_calm_stmt [OF assms(1) e1] have c1: "script d1 = []" "txn d1 = txn d" "ok1"
    "(delete_events_where P :: unit stmt) (tb d) = Inr (r, None, tb d1)"
    by (auto simp: delete_events_where_def)
  from exec_calm_stmt [OF c1(1) e2] have c2: "script d2 = []" "txn d2 = txn d1" "ok2"
    "(delete_cache_where Q :: unit stmt) (tb d1) = Inr (r2, None, tb d2)"
    by (auto simp: delete_cache_where_def)
  have "Events (tb d2) = Events (tb d1)"
    using c2(4) by (auto simp: delete_cache_where_def dest!: sym [where t = "tb d2"])
  moreover have "d' = d2 \<and> ok" using assms(2) e1 e2 c1(3) c2(3) by (simp add: delete_rows_def)
  moreover have "is_open d2 = is_open d" using exec_el(1) [OF e1] exec_el(1) [OF e2] by simp
  ultimately show ?thesis
    using c1 c2 delete_events_result [OF c1(4)] delete_whole_groups_ok [OF _ c1(4) c2(4)] by auto
qed

lemma delete_by_service_calm:
  assumes "script d = []" and "delete_by_service_body s d = Some (ok, d')"
  shows "ok \<and> script d' = [] \<and> txn d' = txn d \<and> is_open d' = is_open d \<and>
     Events (tb d') = filter (\<lambda>e. e_service_id e \<noteq> s) (Events (tb d)) \<and>
     (cache_ok (tb d) \<longrightarrow> cache_ok (tb d'))"
proof -
  from assms(2) have run: "delete_rows (\<lambda>e. e_service_id e = s) (\<lambda>c. gc_service_id c = s) d = (ok, d')"
    by (simp add: delete_by_service_body_def)
  have "e_service_id e = s \<longleftrightarrow> gc_service_id c = s"
    if "cache_ok (tb d)" "e \<in> set (Events (tb d))" "c \<in> set (GroupCache (tb d))"
      "e_group_uid e = Some (gc_group_uid c)" for e c
    using cache_okD(3) [OF that(1,3)] that(2,4) by (simp add: cache_row_ok_def)
  with delete_rows_calm [OF assms(1) run] show ?thesis by auto
qed

lemma delete_groups_calm:
  "script d = [] \<Longrightarrow> delete_groups gs d = (ok, d') \<Longrightarrow>
   ok \<and> script d' = [] \<and> txn d' = txn d \<and> is_open d' = is_open d \<and>
   Events (tb d') = filter (\<lambda>e. e_group_uid e \<notin> Some ` set gs) (Events (tb d)) \<and>
   (cache_ok (tb d) \<longrightarrow> cache_ok (tb d'))"
proof (induction gs d rule: delete_groups.induct)
  case (1 d)
  then show ?case by simp
next
  case (2 g gs d)
  obtain ok1 d1 where r: "delete_rows (\<lambda>e. e_group_uid e = Some g) (\<lambda>c. gc_group_uid c = g) d = (ok1, d1)"
    by (metis surj_pair)
  note c = delete_rows_calm [OF "2.prems"(1) r]
  with r "2.prems"(2) have "delete_groups gs d1 = (ok, d')" by simp
  from "2.IH" [OF r [symmetric] _ _ this] c show ?case
    by (auto intro!: filter_cong)
qed

interpretation delete_by_service: deletion "delete_by_service_body s" "\<lambda>_. True"
  "\<lambda>t e. e_service_id e = s" for s
proof
  fix d d' assume "script d = []" "delete_by_service_body s d = Some (True, d')"
  from delete_by_service_calm [OF this]
  show "script d' = [] \<and> txn d' = txn d \<and> is_open d' = is_open d \<and>
      Events (tb d') = filter (\<lambda>e. e_service_id e \<noteq> s) (Events (tb d))"
    and "cache_ok (tb d) \<Longrightarrow> cache_ok (tb d')" by blast+
qed simp

interpretation delete_by_group_uids: deletion "delete_by_group_uids_body gs" "\<lambda>_. True"
  "\<lambda>t e. e_group_uid e \<in> Some ` set gs" for gs
proof
  fix d d' assume "script d = []" "delete_by_group_uids_body gs d = Some (True, d')"
  then have "script d = []" "delete_groups gs d = (True, d')"
    by (simp_all add: delete_by_group_uids_body_def)
  from delete_groups_calm [OF this]
  show "script d' = [] \<and> txn d' = txn d \<and> is_open d' = is_open d \<and>
      Events (tb d') = filter (\<lambda>e. e_group_uid e \<notin> Some ` set gs) (Events (tb d))"
    and "cache_ok (tb d) \<Longrightarrow> cache_ok (tb d')" by blast+
qed simp

section \<open>The operations\<close>

lemma plain_txn: "plain_groups el \<Longrightarrow> plain_groups (el\<lparr>journal := m, txn := x, errcode := c\<rparr>)"
  by simp

text \<open>With at most one group in the list, nothing can go wrong in a calm run.\<close>

lemma update_group_cache_total:
  assumes "script d = []" and "\<forall>g\<in>set (somes li). CHR 0x27 \<notin> set g" and "length li \<le> 1"
  shows "\<exists>d'. update_group_cache li d = Some (True, d')"
proof (cases li)
  case Nil
  then show ?thesis by (simp add: update_group_cache_def)
next
  case (Cons a rest)
  with assms(3) have li: "li = [a]" by simp
  have p: "parse_in_list (in_list li) = Some (somes li)"
    using in_list_round_trip_rule [OF assms(2)] li by (cases a) auto
  have "(rtcom_el_db_exec (Stmt (refresh_groups (somes li)) :: unit sql) d) =
      (True, [], None, d\<lparr>tb := (tb d)\<lparr>GroupCache := fold (\<lambda>g. replace_cache_row (summary_row g (group_events (tb d) g)))
        (filter (\<lambda>g. group_events (tb d) g \<noteq> []) (remdups (somes li))) (GroupCache (tb d))\<rparr>, errcode := None\<rparr>)"
    using assms(1) by (simp add: exec_calm refresh_groups_def)
  with li p show ?thesis by (auto simp: update_group_cache_def split: prod.splits)
qed

lemma delete_event_body_total:
  assumes "script d = []" and "1 \<le> i" and plain: "plain_groups d" and wf: "events_wf (tb d)"
  shows "\<exists>d'. delete_event_body holds i d = Some (True, d')"
proof -
  obtain li d1 where g: "get_event_group_uids holds i None d = (li, d1)" by (metis surj_pair)
  from group_uids_calm [OF assms(1) g] assms(2)
  have c: "script d1 = []"
    "li = rev (distinct_rows d (map e_group_uid (filter (\<lambda>e. e_id e = i) (Events (tb d)))))" by auto
  have "length (filter (\<lambda>e. e_id e = i) (Events (tb d))) \<le> 1"
  proof (cases "\<exists>e\<in>set (Events (tb d)). e_id e = i")
    case True
    then obtain e where "e \<in> set (Events (tb d))" "i = e_id e" by blast
    with filter_key_unique [of e_id "Events (tb d)" e] wf show ?thesis by (simp add: events_wf_def)
  next
    case False
    then have "filter (\<lambda>e. e_id e = i) (Events (tb d)) = []" by (auto simp: filter_empty_conv)
    then show ?thesis by simp
  qed
  then have len: "length li \<le> 1"
    using c(2) distinct_rows_length [OF plain] length_remdups_leq [of "map e_group_uid (filter (\<lambda>e. e_id e = i) (Events (tb d)))"]
    by simp
  have q: "\<forall>g\<in>set (somes li). CHR 0x27 \<notin> set g"
    using c(2) plain distinct_rows_set [OF plain] by (auto simp: set_somes plain_groups_def)
  obtain ok r x d2 where e1: "rtcom_el_db_exec (Stmt (delete_events_where (\<lambda>e. e_id e = i)) :: unit sql) d1 =
      (ok, r, x, d2)" using that by (rule prod_cases4)
  from exec_calm_stmt [OF c(1) e1] have "script d2 = []" "ok" by (auto simp: delete_events_where_def)
  with update_group_cache_total [OF _ q len, of d2] e1 g show ?thesis
    by (auto simp: delete_event_body_def delete_and_refresh_def)
qed

lemma deletion_announced:
  assumes "txn el1 = None" and "journal el1 = JM_TRUNCATE"
  shows "tb (emit_dbus s i x el1) = tb el1 \<and> txn (emit_dbus s i x el1) = None \<and>
     journal (emit_dbus s i x el1) = JM_TRUNCATE"
  using emit_dbus_auto [of el1 s i x] assms by simp

lemma delete_event_done:
  assumes "is_open el" and "script el = []" and "txn el = None" and "plain_groups el"
    and "cache_ok (tb el)" and "1 \<le> i"
  shows "\<exists>el'. rtcom_el_delete_event holds i el = Some (0, None, el') \<and>
     Events (tb el') = filter (\<lambda>e. e_id e \<noteq> i) (Events (tb el)) \<and> cache_ok (tb el') \<and>
     txn el' = None \<and> journal el' = JM_TRUNCATE \<and> is_open el'"
proof -
  let ?d = "el\<lparr>journal := JM_OFF, txn := Some (tb el), errcode := None\<rparr>"
  have d: "script ?d = []" "plain_groups ?d" "events_wf (tb ?d)"
    using assms(2,4) cache_okD(1) [OF assms(5)] by simp_all
  obtain d' where b: "delete_event_body holds i ?d = Some (True, d')"
    using delete_event_body_total [OF d(1) assms(6) d(2,3)] by blast
  have calm: "script d' = [] \<and> txn d' = Some (tb el)"
    if "delete_event_body holds i ?d = Some (True, d')" for d'
    using delete_event_body_calm [OF d(1) assms(6) d(2) that] by simp
  obtain el1 where r: "run_deletion (delete_event_body holds i) el = Some (True, el1)"
    using run_deletion_calm [OF assms(2,3) calm] b by blast
  from delete_event.run_effect [OF assms(2,3) _ r] assms(4,5,6)
  have e: "Events (tb el1) = filter (\<lambda>e. e_id e \<noteq> i) (Events (tb el))" "txn el1 = None"
    "journal el1 = JM_TRUNCATE" "cache_ok (tb el1)" "is_open el1" using assms(1) by auto
  have "is_open (emit_dbus ''EventDeleted'' i None el1)"
    using emit_dbus_quiet [of el1 "''EventDeleted''" i None] e(5) by (simp add: quiet_def)
  with deletion_announced [OF e(2,3), of "''EventDeleted''" i None] e r assms(1,6) show ?thesis
    by (auto simp: rtcom_el_delete_event_def)
qed

text \<open>C7: When SQLite refuses nothing (the script of refusals is empty), no transaction is open, the cache
  is sound and no group uid of an event contains a quote, \<open>rtcom_el_delete_event\<close> of a positive id on
  an open database returns 0, removes exactly the event with this id, leaves a sound group cache (the
  group's row is recomputed, or dropped with its last event), closes the transaction and restores the
  journal. The conditions are needed: \<open>delete_event_ignores_lookup_error\<close> below is a refusal that goes
  unnoticed and leaves the group with a wrong count.\<close>

theorem delete_event_removes:
  assumes "is_open el" and "script el = []" and "txn el = None" and "plain_groups el"
    and "cache_ok (tb el)" and "1 \<le> i"
  shows "\<exists>el'. rtcom_el_delete_event holds i el = Some (0, None, el') \<and>
     Events (tb el') = filter (\<lambda>e. e_id e \<noteq> i) (Events (tb el)) \<and> cache_ok (tb el') \<and>
     txn el' = None \<and> journal el' = JM_TRUNCATE"
  using delete_event_done [OF assms] by blast

lemma sample_plain: "plain_groups sample_el"
  by (auto simp: plain_groups_def sample_open sample_tables_def sample_row_def) (simp_all add: sample_el_def)

theorem delete_event_removes_witness:
  "\<exists>el'. rtcom_el_delete_event (\<lambda>w. None) 2 sample_el = Some (0, None, el') \<and>
     map e_id (Events (tb el')) = [1, 3] \<and> cache_ok (tb el')"
proof -
  have "1 \<le> (2 :: int)" by simp
  from delete_event_removes [OF sample_open(1,7,2) sample_plain sample_open(4) this, of "\<lambda>w. None"]
  obtain el' where "rtcom_el_delete_event (\<lambda>w. None) 2 sample_el = Some (0, None, el')"
    "Events (tb el') = filter (\<lambda>e. e_id e \<noteq> 2) (Events (tb sample_el))" "cache_ok (tb el')" by blast
  then show ?thesis
    by (intro exI [of _ el']) (simp add: sample_open sample_tables_def sample_row_def)
qed

lemma delete_events_removes_rule:
  assumes "rtcom_el_delete_events holds (Some w) el = Some (True, e, el')"
    and "is_open el" and "script el = []" and "txn el = None" and "plain_groups el"
    and "cache_ok (tb el)"
  shows "Events (tb el') = filter (\<lambda>e. \<not> selected_by holds w (tb el) e) (Events (tb el)) \<and>
     cache_ok (tb el') \<and> txn el' = None \<and> journal el' = JM_TRUNCATE"
proof -
  from assms(1,2) obtain el1 where r: "run_deletion (delete_events_body holds w) el = Some (True, el1)"
    and el': "el' = emit_dbus ''RefreshHint'' (- 1) None el1"
    by (auto simp: rtcom_el_delete_events_def split: if_splits)
  from delete_events.run_effect [OF assms(3,4,5) r] assms(6)
    deletion_announced [of el1 "''RefreshHint''" "- 1" None] show ?thesis by (simp add: el')
qed

text \<open>C8: When SQLite refuses nothing (the script of refusals is empty), no transaction is open, the cache
  is sound, no group uid of an event contains a quote, and \<open>rtcom_el_delete_events\<close> on an open
  database returns TRUE, then exactly the events that the WHERE clause, as SQLite understands it
  (\<open>holds\<close>), selects are gone, and the group cache is sound, however many groups lost events. As with
  one event, a refused query for the groups would go unnoticed and leave wrong counts.\<close>

theorem delete_events_removes:
  assumes "rtcom_el_delete_events holds (Some w) el = Some (True, e, el')"
    and "is_open el" and "script el = []" and "txn el = None" and "plain_groups el"
    and "cache_ok (tb el)"
  shows "Events (tb el') = filter (\<lambda>e. \<not> selected_by holds w (tb el) e) (Events (tb el)) \<and>
     cache_ok (tb el') \<and> txn el' = None \<and> journal el' = JM_TRUNCATE"
  using assms by (rule delete_events_removes_rule)

definition all_events :: where_meaning where
  "all_events w = Some (\<lambda>j. e_id (jn_event j) < 3)"

lemma sample_delete_events:
  "map_option fst (rtcom_el_delete_events all_events (Some ''1'') sample_el) = Some True"
  by code_simp

theorem delete_events_removes_witness:
  "\<exists>e el'. rtcom_el_delete_events all_events (Some ''1'') sample_el = Some (True, e, el') \<and>
     cache_ok (tb el')"
proof -
  obtain e el' where run: "rtcom_el_delete_events all_events (Some ''1'') sample_el = Some (True, e, el')"
    using sample_delete_events by auto
  from delete_events_removes [OF run sample_open(1,7,2) sample_plain sample_open(4)] run
  show ?thesis by auto
qed

text \<open>When SQLite goes ahead, \<open>rtcom_el_delete_by_service\<close> of a known service returns TRUE and
  removes the events of the service and no other, with a sound group cache.\<close>

theorem delete_by_service_removes:
  assumes "is_open el" and "script el = []" and "txn el = None" and "cache_ok (tb el)"
    and "rtcom_el_get_service_id service el = Some s" and "s \<noteq> - 1"
  shows "\<exists>el'. rtcom_el_delete_by_service service el = Some (True, el') \<and>
     Events (tb el') = filter (\<lambda>e. e_service_id e \<noteq> s) (Events (tb el)) \<and> cache_ok (tb el') \<and>
     txn el' = None \<and> journal el' = JM_TRUNCATE"
proof -
  let ?d = "el\<lparr>journal := JM_OFF, txn := Some (tb el), errcode := None\<rparr>"
  have d: "script ?d = []" using assms(2) by simp
  obtain ok d' where b: "delete_by_service_body s ?d = Some (ok, d')"
    unfolding delete_by_service_body_def by (metis surj_pair)
  note c = delete_by_service_calm [OF d]
  from c [OF b] b have b: "delete_by_service_body s ?d = Some (True, d')" by simp
  have calm: "script d' = [] \<and> txn d' = Some (tb el)"
    if "delete_by_service_body s ?d = Some (True, d')" for d'
    using c [OF that] by simp
  obtain el1 where r: "run_deletion (delete_by_service_body s) el = Some (True, el1)"
    using run_deletion_calm [OF assms(2,3) calm] b by blast
  from delete_by_service.run_effect [OF assms(2,3) TrueI r] assms(4)
  have e: "Events (tb el1) = filter (\<lambda>e. e_service_id e \<noteq> s) (Events (tb el))" "txn el1 = None"
    "journal el1 = JM_TRUNCATE" "cache_ok (tb el1)" by auto
  from deletion_announced [OF e(2,3), of "''AllDeleted''" "- 1" service] e r assms(1,5,6) show ?thesis
    by (auto simp: rtcom_el_delete_by_service_def)
qed

theorem delete_by_service_removes_witness:
  "\<exists>el'. rtcom_el_delete_by_service (Some ''CALL'') sample_el = Some (True, el') \<and>
     Events (tb el') = [] \<and> cache_ok (tb el')"
proof -
  have "rtcom_el_get_service_id (Some ''CALL'') sample_el = Some 1" by code_simp
  from delete_by_service_removes [OF sample_open(1,7,2,4) this]
  obtain el' where "rtcom_el_delete_by_service (Some ''CALL'') sample_el = Some (True, el')"
    "Events (tb el') = filter (\<lambda>e. e_service_id e \<noteq> 1) (Events (tb sample_el))" "cache_ok (tb el')" by auto
  then show ?thesis
    by (intro exI [of _ el']) (simp add: sample_open sample_tables_def sample_row_def)
qed

text \<open>When SQLite goes ahead, \<open>rtcom_el_delete_by_group_uids\<close> returns TRUE and removes the events
  of the given groups and no other, with a sound group cache.\<close>

theorem delete_by_group_uids_removes:
  assumes "is_open el" and "script el = []" and "txn el = None" and "cache_ok (tb el)"
  shows "\<exists>el'. rtcom_el_delete_by_group_uids (Some gs) el = Some (True, el') \<and>
     Events (tb el') = filter (\<lambda>e. e_group_uid e \<notin> Some ` set gs) (Events (tb el)) \<and>
     cache_ok (tb el') \<and> txn el' = None \<and> journal el' = JM_TRUNCATE"
proof -
  let ?d = "el\<lparr>journal := JM_OFF, txn := Some (tb el), errcode := None\<rparr>"
  have d: "script ?d = []" using assms(2) by simp
  obtain ok d' where b0: "delete_groups gs ?d = (ok, d')" by (metis surj_pair)
  note c = delete_groups_calm [OF d]
  from c [OF b0] b0 have b: "delete_by_group_uids_body gs ?d = Some (True, d')"
    by (simp add: delete_by_group_uids_body_def)
  have calm: "script d' = [] \<and> txn d' = Some (tb el)"
    if "delete_by_group_uids_body gs ?d = Some (True, d')" for d'
    using c [of gs True d'] that by (simp add: delete_by_group_uids_body_def)
  obtain el1 where r: "run_deletion (delete_by_group_uids_body gs) el = Some (True, el1)"
    using run_deletion_calm [OF assms(2,3) calm] b by blast
  from delete_by_group_uids.run_effect [OF assms(2,3) TrueI r] assms(4)
  have e: "Events (tb el1) = filter (\<lambda>e. e_group_uid e \<notin> Some ` set gs) (Events (tb el))"
    "txn el1 = None" "journal el1 = JM_TRUNCATE" "cache_ok (tb el1)" by auto
  from deletion_announced [OF e(2,3), of "''RefreshHint''" "- 1" None] e r assms(1) show ?thesis
    by (auto simp: rtcom_el_delete_by_group_uids_def)
qed

theorem delete_by_group_uids_removes_witness:
  "\<exists>el'. rtcom_el_delete_by_group_uids (Some [''g'']) sample_el = Some (True, el') \<and>
     map e_id (Events (tb el')) = [3] \<and> cache_ok (tb el')"
proof -
  from delete_by_group_uids_removes [OF sample_open(1,7,2,4), of "[''g'']"]
  obtain el' where "rtcom_el_delete_by_group_uids (Some [''g'']) sample_el = Some (True, el')"
    "Events (tb el') = filter (\<lambda>e. e_group_uid e \<notin> Some ` set [''g'']) (Events (tb sample_el))"
    "cache_ok (tb el')" by auto
  then show ?thesis
    by (intro exI [of _ el']) (simp add: sample_open sample_tables_def sample_row_def)
qed

section \<open>What the deletions leave behind\<close>

text \<open>
  The statement \<open>DELETE FROM Events\<close> with the trigger fkd_headers_atts_event_id.
\<close>

lemma fkd_fold:
  "Headers (fold fkd_headers_atts_event_id es t) = filter (\<lambda>h. hd_event_id h \<notin> e_id ` set es) (Headers t) \<and>
   Attachments (fold fkd_headers_atts_event_id es t) = filter (\<lambda>a. at_event_id a \<notin> e_id ` set es) (Attachments t)"
proof (induction es arbitrary: t)
  case Nil
  show ?case by simp
next
  case (Cons e es)
  have "filter (\<lambda>h. hd_event_id h \<notin> e_id ` set es) (filter (\<lambda>h. hd_event_id h \<noteq> e_id e) hs) =
      filter (\<lambda>h. hd_event_id h \<notin> e_id ` set (e # es)) hs" for hs
    by (induction hs) auto
  moreover have "filter (\<lambda>a. at_event_id a \<notin> e_id ` set es) (filter (\<lambda>a. at_event_id a \<noteq> e_id e) as) =
      filter (\<lambda>a. at_event_id a \<notin> e_id ` set (e # es)) as" for as
    by (induction as) auto
  ultimately show ?case
    using Cons by (simp add: fkd_headers_atts_event_id_def)
qed

text \<open>Deleting events deletes their headers and attachments, and those of no other event: the
  trigger is the ON DELETE CASCADE its comment promises.\<close>

theorem delete_events_cascades:
  "\<exists>t'. (delete_events_where P :: 'r stmt) t = Inr ([], None, t') \<and>
     Events t' = filter (\<lambda>e. \<not> P e) (Events t) \<and>
     Headers t' = filter (\<lambda>h. hd_event_id h \<notin> e_id ` {e \<in> set (Events t). P e}) (Headers t) \<and>
     Attachments t' = filter (\<lambda>a. at_event_id a \<notin> e_id ` {e \<in> set (Events t). P e}) (Attachments t)"
  by (simp add: delete_events_where_def fkd_fold)

text \<open>\<open>rtcom_el_delete_all\<close> removes every event but no row of GroupCache, so that the groups
  keep their counts; and because the row ids start again at 1, a group that is then filled again
  runs into the UNIQUE event_id of a stale row, and its second event cannot be added.\<close>

theorem delete_all_leaves_cache:
  "case rtcom_el_delete_all sample_el of
     None \<Rightarrow> False
   | Some (ok, el1) \<Rightarrow>
       ok \<and> Events (tb el1) = [] \<and> GroupCache (tb el1) = GroupCache sample_tables \<and>
       (let ev = event_set_field F_group_uid (\<lambda>e. e\<lparr>fld_group_uid := Some ''x''\<rparr>) (sample_event ''CALL'')
        in case rtcom_el_add_event (Some ev) el1 of
             None \<Rightarrow> False
           | Some (r, e, el2) \<Rightarrow>
               r = 1 \<and> map_option fst (rtcom_el_add_event (Some ev) el2) = Some (- 1))"
  by code_simp

text \<open>If the query for the groups fails (here with an I/O error), \<open>rtcom_el_delete_event\<close> still
  deletes the event, reports success and leaves the group with a count of two events, one of which
  is gone.\<close>

theorem delete_event_ignores_lookup_error:
  "case rtcom_el_delete_event (\<lambda>w. None) 2
       (sample_el\<lparr>script := [Go, Go, Go, Go, Refuse SQLITE_IOERR 0 False]\<rparr>) of
     None \<Rightarrow> False
   | Some (r, e, el') \<Rightarrow> r = 0 \<and> e = None \<and> map e_id (Events (tb el')) = [1, 3] \<and> \<not> cache_ok (tb el')"
  by code_simp

text \<open>\<open>update_group_cache\<close> frees the whole list of groups in its first turn: where freed nodes
  cannot be read, deleting events of two groups crashes, and of one group does not.\<close>

theorem delete_events_frees_twice:
  "rtcom_el_delete_events (\<lambda>w. Some (\<lambda>j. True)) (Some ''1'') (sample_el\<lparr>freed_readable := False\<rparr>) = None \<and>
   map_option fst (rtcom_el_delete_events all_events (Some ''1'') (sample_el\<lparr>freed_readable := False\<rparr>)) =
     Some True"
  by code_simp

text \<open>Deleting an event without a group together with one of a group may fail with a syntax
  error: the IN list ends in a comma. The deletion is then rolled back without a journal, and what
  SQLite leaves is undefined.\<close>

theorem delete_events_trailing_comma:
  "case rtcom_el_delete_events (\<lambda>w. Some (\<lambda>j. True)) (Some ''1'')
       (sample_el\<lparr>tb := sample_tables\<lparr>Events := [(sample_row 1 ''g'')\<lparr>e_group_uid := None\<rparr>, sample_row 2 ''g'']\<rparr>,
          torn := (\<lambda>old new. new)\<rparr>) of
     None \<Rightarrow> False
   | Some (ok, e, el') \<Rightarrow> \<not> ok \<and> e = Some RTCOM_EL_INTERNAL_ERROR \<and> Events (tb el') = []"
  by code_simp

end
