(* ===== verification/El_Query_Use.thy ===== *)
theory El_Query_Use
  imports El_Query_Props El_Delete_Props
begin

text \<open>
  Queries and the tables together: the deletion of what a query selects, and the list of
  conversations a query grouped by GroupCache shows.
\<close>

section \<open>Deleting what a prepared query selects\<close>

definition satisfies :: "query_arg list \<Rightarrow> joined_row \<Rightarrow> bool" where
  "satisfies args j \<longleftrightarrow> list_all (\<lambda>a. cond_holds (meant_cond a) j) args"

lemma prepared_holds:
  assumes "rtcom_el_query_prepare args q = Some (True, q')" and "args \<noteq> []"
  shows "\<exists>w. rtcom_el_query_get_where_clause q' = Some w \<and> where_holds w = Some (satisfies args)"
  using prepared_where [OF assms]
  by (auto simp: where_holds_def satisfies_def [abs_def] list_all_iff fun_eq_iff)

text \<open>C19: When SQLite refuses nothing (the script of refusals is empty), no transaction is open, the cache is
  sound, no group uid of an event contains a quote, the conditions given to
  \<open>rtcom_el_query_prepare\<close> have no wildcard in a value of LIKE or ENDS_WITH, and \<open>rtcom_el_delete_events\<close>
  of the prepared query returns TRUE on an open database, then exactly those events are deleted that have
  a row in the join (the event with its service, type, contact and message token) on which all the
  conditions hold as they are documented, and the group cache is sound. A value with a wildcard
  selects, and deletes, more.\<close>

theorem delete_by_query:
  assumes "rtcom_el_query_prepare args q = Some (True, q')" and "args \<noteq> []" and "list_all plain_arg args"
    and "rtcom_el_delete_events where_holds (rtcom_el_query_get_where_clause q') el =
      Some (True, e, el')"
    and "is_open el" and "script el = []" and "txn el = None" and "plain_groups el"
    and "cache_ok (tb el)"
  shows "Events (tb el') =
     filter (\<lambda>ev. \<not> (\<exists>j\<in>set (joined (tb el)). jn_event j = ev \<and> (\<forall>a\<in>set args. documented a j)))
       (Events (tb el)) \<and>
     cache_ok (tb el')"
proof -
  let ?P = "\<lambda>j. \<forall>a\<in>set args. documented a j"
  from prepared_documented [OF assms(1-3)] obtain w where
    w: "rtcom_el_query_get_where_clause q' = Some w" "where_holds w = Some ?P" by blast
  have "selected_by where_holds w (tb el) ev \<longleftrightarrow> (\<exists>j\<in>set (joined (tb el)). jn_event j = ev \<and> ?P j)"
    if "ev \<in> set (Events (tb el))" for ev
  proof -
    have key: "e_id (jn_event j) = e_id ev \<longleftrightarrow> jn_event j = ev" if "j \<in> set (joined (tb el))" for j
      using events_wf_inj [OF cache_okD(1) [OF assms(9)] joined_event [OF that] \<open>ev \<in> _\<close>] by auto
    have "selected_by where_holds w (tb el) ev \<longleftrightarrow>
        (\<exists>j\<in>set (joined (tb el)). e_id (jn_event j) = e_id ev \<and> ?P j)"
      using w(2) by (auto simp: selected_by_def matching_ids_def image_iff)
    with key show ?thesis by blast
  qed
  then have "filter (\<lambda>e. \<not> selected_by where_holds w (tb el) e) (Events (tb el)) =
      filter (\<lambda>ev. \<not> (\<exists>j\<in>set (joined (tb el)). jn_event j = ev \<and> ?P j)) (Events (tb el))"
    by (intro filter_cong) auto
  with delete_events_removes_rule [OF assms(4) [unfolded w(1)] assms(5-9)] show ?thesis by simp
qed

definition sample_args :: "query_arg list" where
  "sample_args =
     [(''id'', UintArg 2, RTCOM_EL_OP_LESS_EQUAL), (''local-uid'', StrArg (Some ''l''), RTCOM_EL_OP_EQUAL)]"

lemma sample_prepare: "map_option fst (rtcom_el_query_prepare sample_args (rtcom_el_query_new True)) = Some True"
  by code_simp

lemma sample_delete_query:
  "map_option fst (rtcom_el_delete_events where_holds
      (rtcom_el_query_get_where_clause
        (snd (the (rtcom_el_query_prepare sample_args (rtcom_el_query_new True))))) sample_el) = Some True"
  by code_simp

theorem delete_by_query_witness:
  "\<exists>q' e el'. rtcom_el_query_prepare sample_args (rtcom_el_query_new True) = Some (True, q') \<and>
     rtcom_el_delete_events where_holds (rtcom_el_query_get_where_clause q') sample_el =
       Some (True, e, el') \<and> cache_ok (tb el')"
proof -
  obtain q' where q: "rtcom_el_query_prepare sample_args (rtcom_el_query_new True) = Some (True, q')"
    using sample_prepare by auto
  obtain e el' where d: "rtcom_el_delete_events where_holds (rtcom_el_query_get_where_clause q') sample_el =
      Some (True, e, el')" using sample_delete_query q by auto
  have "sample_args \<noteq> []" by (simp add: sample_args_def)
  moreover have "list_all plain_arg sample_args" by (simp add: sample_args_def plain_arg_def)
  ultimately show ?thesis
    using delete_by_query [OF q _ _ d sample_open(1,7,2) sample_plain sample_open(4)] q d by blast
qed

section \<open>The list of conversations\<close>

text \<open>
  What the UNIQUE constraints and the registration of services and types give: an event has
  one service and one type, and at most one contact and one message token.
\<close>

definition well_referenced :: "tables \<Rightarrow> event_row \<Rightarrow> bool" where
  "well_referenced t e \<longleftrightarrow>
     length (filter (\<lambda>s. sv_id s = e_service_id e) (Services t)) = 1 \<and>
     length (filter (\<lambda>ty. et_id ty = e_event_type_id e) (EventTypes t)) = 1 \<and>
     length (filter (remote_is (e_remote_uid e) (e_local_uid e)) (Remotes t)) \<le> 1 \<and>
     length (filter (\<lambda>h. hd_event_id h = e_id e \<and> hd_name h = ''message-token'') (Headers t)) \<le> 1"

lemma length_1: "length xs = 1 \<Longrightarrow> \<exists>x. xs = [x]"
  by (cases xs) auto

lemma or_null_length: "length xs \<le> 1 \<Longrightarrow> \<exists>x. or_null xs = [x]"
  by (cases xs) (auto simp: or_null_def)

lemma join_event_one:
  assumes "well_referenced t e"
  shows "\<exists>j. join_event (e_service_id e) e t = [j] \<and> jn_event j = e"
proof -
  from assms obtain s ty r h where
    "filter (\<lambda>s. sv_id s = e_service_id e) (Services t) = [s]"
    "filter (\<lambda>ty. et_id ty = e_event_type_id e) (EventTypes t) = [ty]"
    "or_null (filter (remote_is (e_remote_uid e) (e_local_uid e)) (Remotes t)) = [r]"
    "or_null (filter (\<lambda>h. hd_event_id h = e_id e \<and> hd_name h = ''message-token'') (Headers t)) = [h]"
    unfolding well_referenced_def by (meson length_1 or_null_length)
  then show ?thesis by (simp add: join_event_def)
qed

lemma order_rows_set [simp]: "set (order_rows js) = set js"
  by (simp add: order_rows_def)

lemma order_rows_sorted: "sorted_wrt (\<ge>) (map (\<lambda>j. e_id (jn_event j)) (order_rows js))"
proof -
  have "sorted (map (\<lambda>j. - e_id (jn_event j)) (order_rows js))" by (simp add: order_rows_def)
  then show ?thesis by (simp add: sorted_map sorted_wrt_map)
qed

lemma joined_groups_events:
  assumes "cache_ok t" and "\<forall>e\<in>set (Events t). well_referenced t e"
  shows "jn_event ` set (joined_groups t) =
     {e \<in> set (Events t). \<exists>g. e_group_uid e = Some g \<and> (\<forall>e'\<in>set (group_events t g). e_id e' \<le> e_id e)}"
    (is "?L = ?R")
proof
  show "?L \<subseteq> ?R"
  proof
    fix e assume "e \<in> ?L"
    then obtain c where c: "c \<in> set (GroupCache t)" "e \<in> set (Events t)" "e_id e = gc_event_id c"
      by (auto simp: joined_groups_def join_event_def)
    from cache_okD(3) [OF assms(1) c(1)] obtain e' where
      e': "e' \<in> set (group_events t (gc_group_uid c))" "e_id e' = gc_event_id c"
      and mx: "\<forall>x\<in>set (group_events t (gc_group_uid c)). e_id x \<le> gc_event_id c"
      unfolding cache_row_ok_def by auto
    from events_wf_inj [OF cache_okD(1) [OF assms(1)] c(2), of e'] c(3) e' have "e' = e" by auto
    with e' mx c show "e \<in> ?R" by auto
  qed
next
  show "?R \<subseteq> ?L"
  proof
    fix e assume "e \<in> ?R"
    then obtain g where e: "e \<in> set (Events t)" "e_group_uid e = Some g"
      and mx: "\<forall>e'\<in>set (group_events t g). e_id e' \<le> e_id e" by auto
    from cache_okD(4) [OF assms(1) e] obtain c where c: "c \<in> set (GroupCache t)" "gc_group_uid c = g"
      by blast
    from cache_okD(3) [OF assms(1) c(1)] c(2) obtain e' where
      e': "e' \<in> set (group_events t g)" "e_id e' = gc_event_id c"
      "\<forall>x\<in>set (group_events t g). e_id x \<le> gc_event_id c \<and> e_service_id x = gc_service_id c"
      unfolding cache_row_ok_def by auto
    from e have "e \<in> set (group_events t g)" by simp
    with e' mx have "e_id e = gc_event_id c" "e_service_id e = gc_service_id c" by force+
    moreover obtain j where "join_event (e_service_id e) e t = [j]" "jn_event j = e"
      using join_event_one assms(2) e(1) by blast
    ultimately have "j \<in> set (joined_groups t)"
      using c(1) e(1) by (auto simp: joined_groups_def intro!: bexI [of _ c] bexI [of _ e])
    with \<open>jn_event j = e\<close> show "e \<in> ?L" by blast
  qed
qed

text \<open>C20: With a sound group cache, a query grouped by \<open>RTCOM_EL_QUERY_GROUP_BY_GROUP\<close>, which never
  looks at the groups' events, lists the newest event of each group, newest first.\<close>

theorem group_query_shows_newest:
  assumes "cache_ok t" and "\<forall>e\<in>set (Events t). well_referenced t e"
  shows "\<exists>f. query_rows holds
       \<lparr>sel_group_by = RTCOM_EL_QUERY_GROUP_BY_GROUP, sel_where = None, sel_limit = - 1, sel_offset = 0\<rparr> =
       Some f \<and>
     set (map jn_event (f t)) =
       {e \<in> set (Events t). \<exists>g. e_group_uid e = Some g \<and> (\<forall>e'\<in>set (group_events t g). e_id e' \<le> e_id e)} \<and>
     sorted_wrt (\<ge>) (map (\<lambda>j. e_id (jn_event j)) (f t))"
  using joined_groups_events [OF assms] order_rows_sorted [of "joined_groups t"]
  by (simp add: query_rows_def limit_rows_def)

theorem group_query_shows_newest_witness:
  "\<exists>f. query_rows where_holds
      \<lparr>sel_group_by = RTCOM_EL_QUERY_GROUP_BY_GROUP, sel_where = None, sel_limit = - 1, sel_offset = 0\<rparr> =
      Some f \<and> sorted_wrt (\<ge>) (map (\<lambda>j. e_id (jn_event j)) (f sample_tables))"
proof -
  have "list_all (well_referenced sample_tables) (Events sample_tables)" by code_simp
  then have r: "\<forall>e\<in>set (Events sample_tables). well_referenced sample_tables e"
    by (simp add: list_all_iff)
  have "cache_ok sample_tables" using sample_open(4,5) by simp
  from group_query_shows_newest [OF this r, of where_holds] show ?thesis by blast
qed

end
