(* ===== verification/El_Iter_Props.thy ===== *)
theory El_Iter_Props
  imports El_Iter El_Query_Use
begin

text \<open>
  Walking over the rows of a query: both iterators show every row once, in order, and then
  return FALSE. The locale \<open>walk\<close> is what a client's loop relies on.
\<close>

section \<open>A client's loop\<close>

text \<open>
  \<open>while (next (it)) ...\<close>: what is current after each TRUE, and the iterator at the end.
  \<open>None\<close>: undefined behaviour, or not enough fuel.
\<close>

fun walk_over ::
    "('c \<Rightarrow> el \<Rightarrow> (bool \<times> 'c \<times> el) option) \<Rightarrow> ('c \<Rightarrow> 'r) \<Rightarrow> nat \<Rightarrow> 'c \<Rightarrow> el
      \<Rightarrow> ('r list \<times> 'c \<times> el) option" where
  "walk_over nxt cur 0 c el = None"
| "walk_over nxt cur (Suc n) c el =
     (case nxt c el of
        None \<Rightarrow> None
      | Some (False, c', el') \<Rightarrow> Some ([], c', el')
      | Some (True, c', el') \<Rightarrow>
          map_option (\<lambda>(rs, r). (cur c' # rs, r)) (walk_over nxt cur n c' el'))"

locale walk =
  fixes nxt :: "'c \<Rightarrow> el \<Rightarrow> (bool \<times> 'c \<times> el) option"
    and cur :: "'c \<Rightarrow> 'r"
    and todo :: "tables \<Rightarrow> 'c \<Rightarrow> 'r list"
    and live :: "'c \<Rightarrow> bool"
  assumes at_end: "live c \<Longrightarrow> script el = [] \<Longrightarrow> todo (tb el) c = [] \<Longrightarrow>
      \<exists>c'. nxt c el = Some (False, c', el) \<and> nxt c' el = Some (False, c', el)"
    and on_row: "live c \<Longrightarrow> script el = [] \<Longrightarrow> todo (tb el) c = r # rs \<Longrightarrow>
      \<exists>c'. nxt c el = Some (True, c', el) \<and> live c' \<and> cur c' = r \<and> todo (tb el) c' = rs"
begin

lemma walk_all:
  assumes "live c" and "script el = []" and "length (todo (tb el) c) < n"
  shows "\<exists>c'. walk_over nxt cur n c el = Some (todo (tb el) c, c', el) \<and>
     nxt c' el = Some (False, c', el)"
  using assms
proof (induction n arbitrary: c)
  case (Suc n)
  show ?case
  proof (cases "todo (tb el) c")
    case Nil
    with at_end [OF Suc.prems(1,2)] show ?thesis by auto
  next
    case (Cons r rs)
    from on_row [OF Suc.prems(1,2) this] obtain c' where
      c': "nxt c el = Some (True, c', el)" "live c'" "cur c' = r" "todo (tb el) c' = rs" by blast
    from Suc.IH [OF c'(2) Suc.prems(2)] Suc.prems(3) c'(4) Cons obtain c'' where
      "walk_over nxt cur n c' el = Some (rs, c'', el)" "nxt c'' el = Some (False, c'', el)" by auto
    with c' Cons show ?thesis by auto
  qed
qed simp

end

lemma script_Nil [simp]: "script el = [] \<Longrightarrow> el\<lparr>script := []\<rparr> = el"
  by (cases el) simp

lemma iterate_stmt_calm:
  "script el = [] \<Longrightarrow> iterate_stmt c el = step_row c el"
  by (simp add: iterate_stmt_def)

section \<open>The attachment iterator\<close>

definition shown_attachment :: "attachment_row \<Rightarrow> RTComElAttachment option" where
  "shown_attachment a =
     Some \<lparr>att_id = to_gint (at_id a), att_event_id = to_gint (at_event_id a),
           att_path = Some (at_path a), att_desc = at_desc a\<rparr>"

definition live_cursor :: "'r cursor \<Rightarrow> bool" where
  "live_cursor c = (case c of NoStmt \<Rightarrow> False | Finalized \<Rightarrow> False | _ \<Rightarrow> True)"

interpretation attachments: walk rtcom_el_attach_iter_next rtcom_el_attach_iter_get
  "\<lambda>t it. map shown_attachment (rows_left t (ai_stmt it))" "\<lambda>it. live_cursor (ai_stmt it)"
proof
  fix it :: RTComElAttachIter and el :: el
  assume live: "live_cursor (ai_stmt it)" and calm: "script el = []"
    and "map shown_attachment (rows_left (tb el) (ai_stmt it)) = []"
  then have "rows_left (tb el) (ai_stmt it) = []" by simp
  with live calm show "\<exists>it'. rtcom_el_attach_iter_next it el = Some (False, it', el) \<and>
      rtcom_el_attach_iter_next it' el = Some (False, it', el)"
    by (intro exI [of _ "it\<lparr>ai_stmt := NoStmt\<rparr>"])
      (auto simp: live_cursor_def rtcom_el_attach_iter_next_def iterate_stmt_calm step_row_def
        split: cursor.splits)
next
  fix it :: RTComElAttachIter and el :: el and r rs
  assume live: "live_cursor (ai_stmt it)" and calm: "script el = []"
    and "map shown_attachment (rows_left (tb el) (ai_stmt it)) = r # rs"
  then obtain a as where "rows_left (tb el) (ai_stmt it) = a # as" "r = shown_attachment a"
    "rs = map shown_attachment as" by auto
  with live calm show "\<exists>it'. rtcom_el_attach_iter_next it el = Some (True, it', el) \<and>
      live_cursor (ai_stmt it') \<and> rtcom_el_attach_iter_get it' = r \<and>
      map shown_attachment (rows_left (tb el) (ai_stmt it')) = rs"
    by (intro exI [of _ "it\<lparr>ai_stmt := OnRow (cursor_query (ai_stmt it)) a as\<rparr>"])
      (auto simp: live_cursor_def rtcom_el_attach_iter_next_def iterate_stmt_calm step_row_def
        rtcom_el_attach_iter_get_def shown_attachment_def split: cursor.splits)
qed

section \<open>The event iterator\<close>

text \<open>
  The iterator of a query \<open>q\<close>: its statement runs \<open>q\<close>, the rows to come are rows of the join,
  and the hash table holds the fields of one.
\<close>

definition live_iter :: "RTComElIter \<Rightarrow> bool" where
  "live_iter it \<longleftrightarrow>
     live_cursor (it_stmt it) \<and>
     (\<forall>t. set (rows_left t (it_stmt it)) \<subseteq> range select_row) \<and>
     (\<forall>t. set (cursor_query (it_stmt it) t) \<subseteq> range select_row) \<and>
     (it_columns it = None \<or> (\<exists>j. it_columns it = Some (field_values j)))"

lemma update_representation_columns:
  assumes "it_columns it = None \<or> (\<exists>i. it_columns it = Some (field_values i))"
  shows "it_columns (update_representation pls (select_row j) it) = Some (field_values j)"
  using assms by (auto simp: update_representation_def Let_def get_row_values update_row_again)

lemma update_representation_stmt [simp]:
  "it_stmt (update_representation pls r it) = it_stmt it"
  "it_atomic (update_representation pls r it) = it_atomic it"
  by (simp_all add: update_representation_def Let_def)

interpretation events: walk rtcom_el_iter_next it_columns
  "\<lambda>t it. map (\<lambda>r. Some (rtcom_el_db_schema_get_row r)) (rows_left t (it_stmt it))" live_iter
proof
  fix it :: RTComElIter and el :: el
  assume live: "live_iter it" and calm: "script el = []"
    and "map (\<lambda>r. Some (rtcom_el_db_schema_get_row r)) (rows_left (tb el) (it_stmt it)) = []"
  then have "rows_left (tb el) (it_stmt it) = []" by simp
  with live calm show "\<exists>it'. rtcom_el_iter_next it el = Some (False, it', el) \<and>
      rtcom_el_iter_next it' el = Some (False, it', el)"
    by (intro exI [of _ "it\<lparr>it_stmt := NoStmt\<rparr>"])
      (auto simp: live_iter_def live_cursor_def rtcom_el_iter_next_def iterate_stmt_calm step_row_def
        split: cursor.splits)
next
  fix it :: RTComElIter and el :: el and r rs
  assume live: "live_iter it" and calm: "script el = []"
    and "map (\<lambda>r. Some (rtcom_el_db_schema_get_row r)) (rows_left (tb el) (it_stmt it)) = r # rs"
  then obtain x xs where left: "rows_left (tb el) (it_stmt it) = x # xs"
    and r: "r = Some (rtcom_el_db_schema_get_row x)"
      "rs = map (\<lambda>r. Some (rtcom_el_db_schema_get_row r)) xs" by auto
  from live left have sub: "set (x # xs) \<subseteq> range select_row" unfolding live_iter_def by metis
  then obtain j where x: "x = select_row j" by auto
  let ?stmt = "OnRow (cursor_query (it_stmt it)) x xs"
  let ?it = "update_representation (plugins el) x (it\<lparr>it_stmt := ?stmt\<rparr>)"
  have step: "rtcom_el_iter_next it el = Some (True, ?it, el)"
    using live left calm
    by (auto simp: live_iter_def live_cursor_def rtcom_el_iter_next_def iterate_stmt_calm step_row_def
        split: cursor.splits)
  have cols: "it_columns ?it = Some (field_values j)"
    unfolding x by (rule update_representation_columns) (use live in \<open>simp add: live_iter_def\<close>)
  have "live_iter ?it"
    unfolding live_iter_def using live sub cols by (auto simp: live_iter_def live_cursor_def)
  then show "\<exists>it'. rtcom_el_iter_next it el = Some (True, it', el) \<and> live_iter it' \<and>
      it_columns it' = r \<and>
      map (\<lambda>r. Some (rtcom_el_db_schema_get_row r)) (rows_left (tb el) (it_stmt it')) = rs"
    using step cols r x by (intro exI [of _ ?it]) (simp add: get_row_values)
qed

section \<open>From the query to the last row\<close>

lemma sqlite3_prepare_calm [simp]: "script el = [] \<Longrightarrow> sqlite3_prepare q el = (q, el)"
  by (simp add: sqlite3_prepare_def)

lemma sqlite3_step_calm: "script el = [] \<Longrightarrow> sqlite3_step c el = step_row c el"
  by (simp add: sqlite3_step_def)

definition iter_on :: "RTComElQuery \<Rightarrow> (tables \<Rightarrow> joined_row list) \<Rightarrow> bool \<Rightarrow> joined_row \<Rightarrow>
    joined_row list \<Rightarrow> el \<Rightarrow> RTComElIter" where
  "iter_on query f atomic j js el =
     rtcom_el_iter_constructor query (OnRow (\<lambda>t. map select_row (f t)) (select_row j) (map select_row js))
       (select_row j) (plugins el) atomic"

lemma iter_on_columns: "it_columns (iter_on query f atomic j js el) = Some (field_values j)"
  unfolding iter_on_def rtcom_el_iter_constructor_def
  by (rule update_representation_columns) (simp add: rtcom_el_iter_init_def)

lemma iter_on_stmt [simp]:
  "it_stmt (iter_on query f atomic j js el) =
     OnRow (\<lambda>t. map select_row (f t)) (select_row j) (map select_row js)"
  "it_atomic (iter_on query f atomic j js el) = atomic"
  by (simp_all add: iter_on_def rtcom_el_iter_constructor_def)

lemma live_iter_on: "live_iter (iter_on query f atomic j js el)"
  using iter_on_columns [of query f atomic j js el] by (auto simp: live_iter_def live_cursor_def)

lemma get_events_calm:
  assumes "is_open el" and "script el = []" and "q_sql query = Some s" and "query_rows holds s = Some f"
  shows "rtcom_el_get_events holds query el =
     (case f (tb el) of [] \<Rightarrow> (None, el) | j # js \<Rightarrow> (Some (iter_on query f False j js el), el))"
  using assms
  by (simp add: rtcom_el_get_events_def get_events_core_def sqlite3_step_calm step_row_def iter_on_def
      split: list.splits)

text \<open>C12: \<open>rtcom_el_get_events\<close> and the loop of a client over \<open>rtcom_el_iter_next\<close> show the rows of the
  query once each and in its order: the iterator starts on the first, the loop ends after the
  last, and there is no iterator for a query without rows.\<close>

theorem get_events_visits_all:
  assumes "is_open el" and "script el = []" and "q_sql query = Some s" and "query_rows holds s = Some f"
  shows "case f (tb el) of
       [] \<Rightarrow> rtcom_el_get_events holds query el = (None, el)
     | j # js \<Rightarrow> \<exists>it it'. rtcom_el_get_events holds query el = (Some it, el) \<and>
         it_columns it = Some (field_values j) \<and>
         walk_over rtcom_el_iter_next it_columns (Suc (length js)) it el =
           Some (map (\<lambda>j. Some (field_values j)) js, it', el) \<and>
         rtcom_el_iter_next it' el = Some (False, it', el)"
proof (cases "f (tb el)")
  case Nil
  with get_events_calm [OF assms] show ?thesis by simp
next
  case (Cons j js)
  let ?it = "iter_on query f False j js el"
  have "map (\<lambda>r. Some (rtcom_el_db_schema_get_row r)) (rows_left (tb el) (it_stmt ?it)) =
      map (\<lambda>j. Some (field_values j)) js" by (simp add: get_row_values)
  with events.walk_all [OF live_iter_on assms(2), of query f False j js el "Suc (length js)"]
  obtain it' where "walk_over rtcom_el_iter_next it_columns (Suc (length js)) ?it el =
      Some (map (\<lambda>j. Some (field_values j)) js, it', el)" "rtcom_el_iter_next it' el = Some (False, it', el)"
    by auto
  with get_events_calm [OF assms] Cons iter_on_columns [of query f False j js el] show ?thesis by auto
qed

definition sample_query :: RTComElQuery where
  "sample_query = snd (the (rtcom_el_query_prepare
     [(''group-uid'', StrArg (Some ''g''), RTCOM_EL_OP_EQUAL)] (rtcom_el_query_new True)))"

lemma sample_query_sql:
  "\<exists>s f. q_sql sample_query = Some s \<and> query_rows where_holds s = Some f \<and>
     map (\<lambda>j. e_id (jn_event j)) (f sample_tables) = [2, 1]"
proof -
  have q: "q_sql sample_query = Some \<lparr>sel_group_by = RTCOM_EL_QUERY_GROUP_BY_NONE,
      sel_where = Some (''Events.group_uid = '' @ [CHR 0x27, CHR ''g'', CHR 0x27]),
      sel_limit = - 1, sel_offset = 0\<rparr>" (is "_ = Some ?s") by code_simp
  have r: "map_option (\<lambda>f. map (\<lambda>j. e_id (jn_event j)) (f sample_tables)) (query_rows where_holds ?s) =
      Some [2, 1]" by code_simp
  then obtain f where "query_rows where_holds ?s = Some f"
      "map (\<lambda>j. e_id (jn_event j)) (f sample_tables) = [2, 1]" by auto
  with q show ?thesis by (intro exI [of _ ?s] exI [of _ f] conjI)
qed

theorem get_events_visits_all_witness:
  "\<exists>it it' v. rtcom_el_get_events where_holds sample_query sample_el = (Some it, sample_el) \<and>
     walk_over rtcom_el_iter_next it_columns 2 it sample_el = Some ([v], it', sample_el)"
proof -
  from sample_query_sql obtain s f where q: "q_sql sample_query = Some s"
    "query_rows where_holds s = Some f" and ids: "map (\<lambda>j. e_id (jn_event j)) (f (tb sample_el)) = [2, 1]"
    by (auto simp: sample_open)
  then obtain j j' where "f (tb sample_el) = [j, j']" by auto
  with get_events_visits_all [OF sample_open(1,7) q] show ?thesis
    by (auto simp: numeral_2_eq_2 simp del: walk_over.simps)
qed

section \<open>Iterators that are at their end\<close>

text \<open>C40: Once \<open>rtcom_el_iter_next\<close> has returned FALSE the iterator is dead, in one of two ways
  that depend on why it did. If the busy loop around \<open>sqlite3_step\<close> ended with an error, the pointer
  to the finalized statement stays: \<open>rtcom_el_iter_first\<close>, \<open>rtcom_el_iter_next\<close> and the end of the
  iterator all use it, which is undefined. Otherwise no row was left, \<open>rtcom_el_iter_first\<close>, which is
  documented to move the iterator to its first event, and \<open>rtcom_el_iter_next\<close> return FALSE without a
  change, and the iterator can be released.\<close>

theorem iter_dead_after_false:
  assumes "rtcom_el_iter_next it el = Some (False, it', el')"
  shows "if it_stmt it \<noteq> NoStmt \<and> fst (rtcom_el_db_iterate (script el)) \<noteq> Stepped
     then rtcom_el_iter_first it' d = None \<and> rtcom_el_iter_next it' d = None \<and>
       rtcom_el_iter_finalize it' d = None
     else rows_left (tb el) (it_stmt it) = [] \<and> rtcom_el_iter_first it' d = Some (False, it', d) \<and>
       rtcom_el_iter_next it' d = Some (False, it', d) \<and> rtcom_el_iter_finalize it' d \<noteq> None"
proof (cases "rtcom_el_db_iterate (script el)")
  case (Pair r as)
  with assms have "if it_stmt it \<noteq> NoStmt \<and> r \<noteq> Stepped then it_stmt it' = Finalized
      else it_stmt it' = NoStmt \<and> rows_left (tb el) (it_stmt it) = []"
    by (cases "it_stmt it"; cases r)
      (auto simp: rtcom_el_iter_next_def iterate_stmt_def step_row_def split: list.splits)
  with Pair show ?thesis
    by (auto simp: rtcom_el_iter_first_def rtcom_el_iter_next_def rtcom_el_iter_finalize_def Let_def
        split: if_splits)
qed

definition failing_el :: el where
  "failing_el = sample_el\<lparr>script := [Go, Go, Refuse SQLITE_IOERR 0 False]\<rparr>"

lemma sample_iter_fails:
  "case rtcom_el_get_events where_holds sample_query failing_el of
     (Some it, el1) \<Rightarrow> has_stmt (it_stmt it) \<and>
       map_option fst (rtcom_el_iter_next it el1) = Some False \<and>
       (case fst (rtcom_el_db_iterate (script el1)) of Stepped \<Rightarrow> False | _ \<Rightarrow> True)
   | (None, el1) \<Rightarrow> False"
  by code_simp

theorem iter_dead_after_false_witness:
  "\<exists>it el1 it' el'. rtcom_el_get_events where_holds sample_query failing_el = (Some it, el1) \<and>
     rtcom_el_iter_next it el1 = Some (False, it', el') \<and> rtcom_el_iter_finalize it' el' = None"
proof -
  from sample_iter_fails obtain it el1 it' el' where
    g: "rtcom_el_get_events where_holds sample_query failing_el = (Some it, el1)"
    and n: "rtcom_el_iter_next it el1 = Some (False, it', el')" and h: "has_stmt (it_stmt it)"
    and f: "fst (rtcom_el_db_iterate (script el1)) \<noteq> Stepped"
    by (auto split: prod.splits option.splits step_result.splits)
  from h have "it_stmt it \<noteq> NoStmt" by (auto simp: has_stmt_def)
  with iter_dead_after_false [OF n, of el'] f g n show ?thesis by auto
qed

end
