(* ===== verification/El_Add_Props.thy ===== *)
theory El_Add_Props
  imports El_Add
begin

text \<open>
  What adding an event does: the properties of \<open>rtcom_el_add_event\<close> and
  \<open>rtcom_el_add_event_full\<close>, for every answer SQLite may give.
\<close>

lemma cache_ok_cong:
  "Events t' = Events t \<Longrightarrow> GroupCache t' = GroupCache t \<Longrightarrow> cache_ok t' = cache_ok t"
  by (simp add: cache_ok_alt events_wf_def groups_cached_iff cached_group_def cache_row_ok_def
      group_events_def)

lemma announce_event_quiet:
  "announce_event ev (r, e, el) = (i, e', el') \<Longrightarrow> quiet el el'"
  by (auto simp: announce_event_def emit_dbus_quiet split: option.splits if_splits)

lemma add_event_cases:
  assumes "rtcom_el_add_event evp el0 = Some (i, e, el')" and "is_open el0"
  obtains (rejected) err where "add_event_precheck evp el0 = (Rejected err, el0)"
      and "i = - 1" and "e = Some err" and "el' = el0"
  | (ran) ev s t r e1 el1 where "add_event_precheck evp el0 = (Accepted ev s t, el0)"
      and "in_transaction True (add_event_body ev s t) el0 = Some (r, e1, el1)"
      and "announce_event ev (r, e1, el1) = (i, e, el')"
proof -
  obtain p el where pc: "add_event_precheck evp el0 = (p, el)" by (metis surj_pair)
  with precheck_open [OF assms(2), of evp] have el: "el = el0" by simp
  show ?thesis
  proof (cases p)
    case Crashed
    with assms(1) pc show ?thesis by (simp add: rtcom_el_add_event_def)
  next
    case (Rejected err)
    with assms(1) pc el show ?thesis by (intro rejected) (auto simp: rtcom_el_add_event_def)
  next
    case (Accepted ev s t)
    with assms(1) pc el obtain r e1 el1 where
      "in_transaction True (add_event_body ev s t) el0 = Some (r, e1, el1)"
      "announce_event ev (r, e1, el1) = (i, e, el')"
      by (auto simp: rtcom_el_add_event_def)
    with pc Accepted el show ?thesis by (intro ran) auto
  qed
qed

text \<open>The state after a run that succeeded.\<close>

lemma announce_some:
  "announce_event ev (r, e1, el1) = (i, e, el') \<Longrightarrow> i \<noteq> - 1 \<Longrightarrow> r = Some i \<and> e = None"
  by (auto simp: announce_event_def split: option.splits)

lemma new_event_row_more:
  "db.more d1 = db.more d \<Longrightarrow> new_event_row ev s t d1 = new_event_row ev s t d"
  by (simp add: new_event_row_def event_group_def el_more_eq [of d1 d])

lemma add_event_run:
  assumes run: "rtcom_el_add_event evp el = Some (i, e, el')" and op: "is_open el"
    and j: "journal el \<noteq> JM_OFF" and i: "i \<noteq> - 1"
  shows "\<exists>ev s t e2 d1 d2. add_event_precheck evp el = (Accepted ev s t, el) \<and> e = None \<and>
     txn el = None \<and> txn el' = None \<and> journal el' = journal el \<and>
     tb d1 = tb el \<and> db.more d1 = db.more el \<and> add_event_core ev s t d1 = (i, e2, d2) \<and> tb el' = tb d2"
  using run op
proof (cases rule: add_event_cases)
  case rejected
  with i show ?thesis by simp
next
  case (ran ev s t r e1 el1)
  from announce_some [OF ran(3) i] have r: "r = Some i" "e = None" by auto
  from add_body.success_commits [OF ran(2) [unfolded r]] j
  obtain e2 d1 d2 where d: "txn el = None" "tb d1 = tb el" "db.more d1 = db.more el"
    "add_event_body ev s t d1 = Some (Some i, e2, d2)" "tb el1 = tb d2" "txn el1 = None"
    "journal el1 = journal el" by auto
  from announce_event_quiet [OF ran(3)] j d have q: "txn el' = None \<and> tb el' = tb d2 \<and>
      journal el' = journal el"
    using quiet_auto [of el1 el'] quiet_journal [of el1 el'] by simp
  from d(4) obtain e3 where "add_event_core ev s t d1 = (i, e3, d2)"
    by (auto simp: add_event_body_def split: prod.splits if_splits)
  with q d r ran(1) show ?thesis by metis
qed

lemma add_event_success:
  assumes "rtcom_el_add_event evp el = Some (i, e, el')" and "is_open el"
    and "journal el \<noteq> JM_OFF" and "i \<noteq> - 1"
  shows "\<exists>ev s t rs k tt. add_event_precheck evp el = (Accepted ev s t, el) \<and> e = None \<and>
     txn el = None \<and> txn el' = None \<and> journal el' = journal el \<and>
     (insert_event :: event_row \<Rightarrow> unit stmt) (new_event_row ev s t el) (tb el) =
       Inr (rs, Some k, tt) \<and> i = to_gint k \<and> only_remotes tt (tb el')"
proof -
  from add_event_run [OF assms] obtain ev s t e2 d1 d2 where
    r: "add_event_precheck evp el = (Accepted ev s t, el)" "e = None" "txn el = None" "txn el' = None"
      "journal el' = journal el" "tb d1 = tb el" "db.more d1 = db.more el"
      "add_event_core ev s t d1 = (i, e2, d2)" "tb el' = tb d2" by blast
  from add_event_core_keeps [OF r(8)] assms(4) r new_event_row_more [OF r(7)] show ?thesis
    by (cases e2) auto
qed

lemma failed_add_silent:
  assumes "rtcom_el_add_event evp el = Some (- 1, e, el')" and "is_open el" and "journal el \<noteq> JM_OFF"
  shows "sent el' = sent el"
  using assms(1,2)
proof (cases rule: add_event_cases)
  case rejected
  then show ?thesis by simp
next
  case (ran ev s t r e1 el1)
  from in_transaction_sent [OF ran(2)] add_body_sent have q: "sent el1 = sent el" by blast
  show ?thesis
  proof (cases r)
    case None
    with ran(3) q show ?thesis by (auto simp: announce_event_def)
  next
    case (Some i)
    with add_body.success_commits [of True ev s t el i e1 el1] ran(2) obtain e2 d1 d2 where
      "add_event_body ev s t d1 = Some (Some i, e2, d2)" by auto
    then have "i \<noteq> - 1" by (auto simp: add_event_body_def split: prod.splits if_splits)
    with ran(3) Some show ?thesis by (auto simp: announce_event_def)
  qed
qed

lemma add_event_announced:
  assumes run: "rtcom_el_add_event (Some ev) el = Some (i, e, el')" and op: "is_open el"
    and "journal el \<noteq> JM_OFF" and i: "i \<noteq> - 1"
  shows "if bus_up el \<and> 0 < i
     then \<exists>m. sent el' = sent el @ [m] \<and> dm_member m = ''NewEvent'' \<and> dm_event_id m = i \<and>
            dm_service m = or_empty (fld_service ev)
     else sent el' = sent el"
  using run op
proof (cases rule: add_event_cases)
  case rejected
  with i show ?thesis by simp
next
  case (ran ev1 s t r e1 el1)
  from announce_some [OF ran(3) i] have r: "r = Some i" by simp
  from in_transaction_sent [OF ran(2)] add_body_sent have q: "sent el1 = sent el" by blast
  from add_body.success_commits [OF ran(2) [unfolded r]] obtain e2 d1 d2 where
    d: "db.more d1 = db.more el" "add_event_body ev1 s t d1 = Some (Some i, e2, d2)"
      "db.more el1 = db.more d2" by auto
  from d(2) obtain e3 where "add_event_core ev1 s t d1 = (i, e3, d2)"
    by (auto simp: add_event_body_def split: prod.splits if_splits)
  from add_event_core_keeps [OF this] el_more_eq(8) [OF d(1)] el_more_eq(8) [OF d(3)]
  have b: "bus_up el1 = bus_up el" by simp
  from precheck_accepted [OF ran(1)] have "fld_service ev1 = fld_service ev" by auto
  with ran(3) r q b emit_dbus_sent [of el1 "''NewEvent''" i "fld_service ev1"]
    emit_dbus_down [of el1 "''NewEvent''" i "fld_service ev1"] show ?thesis
    by (auto simp: announce_event_def)
qed

text \<open>
  The columns of the row an event becomes, one by one, in terms of the event as the client gave it:
  an unset number is stored as 0, an unset text as NULL, a missing group is the last one the object
  saw, and the four deprecated type names stand for the new ones, the outbound ones with outgoing 1.
\<close>

definition current_type_name :: "string option \<Rightarrow> string option" where
  "current_type_name n =
     (if n \<in> {Some ''RTCOM_EL_EVENTTYPE_CHAT_INBOUND'', Some ''RTCOM_EL_EVENTTYPE_CHAT_OUTBOUND''}
      then Some ''RTCOM_EL_EVENTTYPE_CHAT_MESSAGE''
      else if n \<in> {Some ''RTCOM_EL_EVENTTYPE_SMS_INBOUND'', Some ''RTCOM_EL_EVENTTYPE_SMS_OUTBOUND''}
      then Some ''RTCOM_EL_EVENTTYPE_SMS_MESSAGE''
      else n)"

definition old_outbound_name :: "string option \<Rightarrow> bool" where
  "old_outbound_name n \<longleftrightarrow>
     n \<in> {Some ''RTCOM_EL_EVENTTYPE_CHAT_OUTBOUND'', Some ''RTCOM_EL_EVENTTYPE_SMS_OUTBOUND''}"

definition row_records :: "RTComElEvent \<Rightarrow> el \<Rightarrow> event_row \<Rightarrow> bool" where
  "row_records ev el r \<longleftrightarrow>
     lookup_id (services el) (fld_service ev) = Some (e_service_id r) \<and>
     lookup_id (event_types el) (current_type_name (fld_event_type ev)) = Some (e_event_type_id r) \<and>
     e_storage_time r = to_gint (now el) \<and>
     e_start_time r = (if event_is_set ev F_start_time then to_gint (fld_start_time ev) else 0) \<and>
     e_end_time r = (if event_is_set ev F_end_time then to_gint (fld_end_time ev) else 0) \<and>
     e_is_read r = (if event_is_set ev F_is_read then to_gint (fld_is_read ev) else 0) \<and>
     e_outgoing r =
       (if old_outbound_name (fld_event_type ev) then 1
        else if event_is_set ev F_outgoing then to_gint (fld_outgoing ev) else 0) \<and>
     e_flags r = (if event_is_set ev F_flags then to_gint (fld_flags ev) else 0) \<and>
     e_bytes_sent r = (if event_is_set ev F_bytes_sent then to_gint (fld_bytes_sent ev) else 0) \<and>
     e_bytes_received r =
       (if event_is_set ev F_bytes_received then to_gint (fld_bytes_received ev) else 0) \<and>
     e_local_uid r = fld_local_uid ev \<and>
     e_local_name r = (if event_is_set ev F_local_name then fld_local_name ev else None) \<and>
     e_remote_uid r = (if event_is_set ev F_remote_uid then fld_remote_uid ev else None) \<and>
     e_channel r = (if event_is_set ev F_channel then fld_channel ev else None) \<and>
     e_free_text r = (if event_is_set ev F_free_text then fld_free_text ev else None) \<and>
     e_group_uid r = (if event_is_set ev F_group_uid then fld_group_uid ev else last_group_uid el)"

lemma rename_type_name: "fld_event_type (rename_event_type ev) = current_type_name (fld_event_type ev)"
  by (simp add: rename_event_type_def current_type_name_def set_event_type_def set_outgoing_def
      event_set_field_def)

lemma rename_outgoing:
  "field_or F_outgoing (rename_event_type ev) (fld_outgoing (rename_event_type ev)) 0 =
     (if old_outbound_name (fld_event_type ev) then 1
      else if event_is_set ev F_outgoing then fld_outgoing ev else 0)"
proof -
  have set: "event_is_set (set_outgoing e) F_outgoing" "fld_outgoing (set_outgoing e) = 1" for e
    by (simp_all add: set_outgoing_def event_is_set_set_field) (simp add: event_set_field_def)
  have ty: "event_is_set (set_event_type ty e) F_outgoing = event_is_set e F_outgoing"
    "fld_outgoing (set_event_type ty e) = fld_outgoing e" for ty e
    by (simp_all add: set_event_type_def event_is_set_set_field) (simp add: event_set_field_def)
  show ?thesis
    by (auto simp: rename_event_type_def old_outbound_name_def field_or_def set ty)
qed

lemma new_event_row_records:
  assumes "lookup_id (services el) (fld_service ev) = Some s"
    and "lookup_id (event_types el) (fld_event_type (rename_event_type ev)) = Some t"
    and "event_is_set ev F_local_uid"
  shows "row_records ev el ((new_event_row (rename_event_type ev) s t el)\<lparr>e_id := k\<rparr>)"
proof -
  let ?r = "(new_event_row (rename_event_type ev) s t el)\<lparr>e_id := k\<rparr>"
  have "e_outgoing ?r = to_gint (if old_outbound_name (fld_event_type ev) then 1
      else if event_is_set ev F_outgoing then fld_outgoing ev else 0)"
    using rename_outgoing [of ev] by (simp add: new_event_row_def event_values_def)
  then have "e_outgoing ?r = (if old_outbound_name (fld_event_type ev) then 1
      else if event_is_set ev F_outgoing then to_gint (fld_outgoing ev) else 0)"
    by (simp split: if_splits)
  then show ?thesis
    using assms unfolding row_records_def rename_type_name
    by (intro conjI)
      (simp_all add: new_event_row_def event_values_def event_group_def field_or_def rename_is_set
        del: One_nat_def)
qed

text \<open>C5: A successful \<open>rtcom_el_add_event\<close> on an open database with a journal appends exactly one row to
  Events. Each of its columns holds the field of the event it is meant for, with 0 or NULL for the
  unset fields, the last group for a missing group and the new name for a deprecated type
  (\<open>row_records\<close>); its id is new and, as a 32-bit integer, the value returned. No other event, header or
  attachment changes, and the transaction is closed. If the bus is there and the id positive, exactly
  one message is sent, NewEvent with this id and the service of the event; otherwise none is.\<close>

theorem add_event_inserts:
  assumes "rtcom_el_add_event (Some ev) el = Some (i, e, el')" and "i \<noteq> - 1"
    and "is_open el" and "journal el \<noteq> JM_OFF"
  shows "(\<exists>row. Events (tb el') = Events (tb el) @ [row] \<and> row_records ev el row \<and>
       e_id row \<notin> e_id ` set (Events (tb el)) \<and> i = to_gint (e_id row)) \<and>
     Headers (tb el') = Headers (tb el) \<and> Attachments (tb el') = Attachments (tb el) \<and>
     txn el' = None \<and> e = None \<and>
     (if bus_up el \<and> 0 < i
      then \<exists>m. sent el' = sent el @ [m] \<and> dm_member m = ''NewEvent'' \<and> dm_event_id m = i \<and>
             dm_service m = or_empty (fld_service ev)
      else sent el' = sent el)"
proof -
  let ?k = "next_rowid (map e_id (Events (tb el)))"
  from add_event_success [OF assms(1,3,4,2)] obtain ev1 s t rs k tt where
    p: "add_event_precheck (Some ev) el = (Accepted ev1 s t, el)" "e = None" "txn el' = None"
      "(insert_event :: event_row \<Rightarrow> unit stmt) (new_event_row ev1 s t el) (tb el) = Inr (rs, Some k, tt)"
      "i = to_gint k" "only_remotes tt (tb el')" by blast
  from precheck_accepted [OF p(1)] have a: "ev1 = rename_event_type ev"
    "lookup_id (services el) (fld_service ev) = Some s"
    "lookup_id (event_types el) (fld_event_type ev1) = Some t" "event_is_set ev F_local_uid" by auto
  let ?row = "(new_event_row ev1 s t el)\<lparr>e_id := ?k\<rparr>"
  have "row_records ev el ?row" using new_event_row_records a by simp
  moreover have "Events (tb el') = Events (tb el) @ [?row]" "i = to_gint (e_id ?row)"
    "Headers (tb el') = Headers (tb el)" "Attachments (tb el') = Attachments (tb el)"
    using p insert_event_result [OF p(4)] only_remotes_same [OF p(6)] by (simp_all add: stored_row_def)
  moreover have "e_id ?row \<notin> e_id ` set (Events (tb el))"
    using next_rowid_fresh [of "map e_id (Events (tb el))"] by simp
  ultimately show ?thesis
    using p(2,3) add_event_announced [OF assms(1,3,4,2)] by blast
qed

theorem add_event_inserts_witness:
  "\<exists>e el' row m. rtcom_el_add_event (Some (sample_event ''CALL'')) sample_el = Some (4, e, el') \<and>
     Events (tb el') = Events (tb sample_el) @ [row] \<and> e_group_uid row = Some ''g'' \<and>
     e_channel row = None \<and> sent el' = [m] \<and> dm_member m = ''NewEvent'' \<and> dm_event_id m = 4"
proof -
  from sample_add obtain e el' where
    run: "rtcom_el_add_event (Some (sample_event ''CALL'')) sample_el = Some (4, e, el')" by auto
  have op: "is_open sample_el" "journal sample_el \<noteq> JM_OFF" and ne: "(4 :: int) \<noteq> - 1"
    and bus: "bus_up sample_el \<and> 0 < (4 :: int)" and no: "sent sample_el = []"
    by (simp_all add: sample_el_def)
  note all = add_event_inserts [OF run ne op]
  from all obtain row where row: "Events (tb el') = Events (tb sample_el) @ [row]"
    "row_records (sample_event ''CALL'') sample_el row" by blast
  from all bus no obtain m where "sent el' = [m]" "dm_member m = ''NewEvent''" "dm_event_id m = 4" by auto
  moreover have "event_is_set (sample_event ''CALL'') F_group_uid"
    "fld_group_uid (sample_event ''CALL'') = Some ''g''" "\<not> event_is_set (sample_event ''CALL'') F_channel"
    by code_simp+
  ultimately show ?thesis using run row by (auto simp: row_records_def)
qed

lemma add_event_cache_ok_rule:
  assumes "rtcom_el_add_event evp el = Some (i, e, el')" and "i \<noteq> - 1"
    and "is_open el" and "journal el \<noteq> JM_OFF" and "cache_ok (tb el)"
  shows "cache_ok (tb el')"
proof -
  from add_event_success [OF assms(1,3,4,2)] obtain ev s t rs k tt where
    "(insert_event :: event_row \<Rightarrow> unit stmt) (new_event_row ev s t el) (tb el) = Inr (rs, Some k, tt)"
    "only_remotes tt (tb el')" by blast
  with insert_event_cache_ok [OF assms(5)] cache_ok_cong only_remotes_same show ?thesis by metis
qed

text \<open>C4: A successful \<open>rtcom_el_add_event\<close> keeps the group cache sound: every row of GroupCache
  still counts the events and the read events of its group, names its newest event and its
  service, and every group with an event has a row.\<close>

theorem add_event_cache_ok:
  assumes "rtcom_el_add_event evp el = Some (i, e, el')" and "i \<noteq> - 1"
    and "is_open el" and "journal el \<noteq> JM_OFF" and "cache_ok (tb el)"
  shows "cache_ok (tb el')"
  using assms by (rule add_event_cache_ok_rule)

theorem add_event_cache_ok_witness:
  "\<exists>e el'. rtcom_el_add_event (Some (sample_event ''CALL'')) sample_el = Some (4, e, el') \<and>
     cache_ok (tb el')"
proof -
  from sample_add obtain e el' where
    run: "rtcom_el_add_event (Some (sample_event ''CALL'')) sample_el = Some (4, e, el')" by auto
  have "is_open sample_el" "journal sample_el \<noteq> JM_OFF" "cache_ok (tb sample_el)"
    using sample_cache_ok by (simp_all add: sample_el_def)
  from add_event_cache_ok [OF run _ this] run show ?thesis by auto
qed

lemma add_event_failure_atomic_rule:
  assumes "rtcom_el_add_event evp el = Some (- 1, e, el')" and "is_open el"
    and j: "journal el \<noteq> JM_OFF"
  shows "durable el' = durable el \<and> journal el' = journal el"
  using assms(1,2)
proof (cases rule: add_event_cases)
  case rejected
  then show ?thesis by simp
next
  case (ran ev s t r e1 el1)
  show ?thesis
  proof (cases r)
    case None
    with ran(2,3) add_body.failure_keeps_durable [of True ev s t el e1 el1] j show ?thesis
      by (auto simp: announce_event_def)
  next
    case (Some i)
    with add_body.success_commits [of True ev s t el i e1 el1] ran(2) obtain e2 d1 d2 where
      "add_event_body ev s t d1 = Some (Some i, e2, d2)" by auto
    then have "i \<noteq> - 1" by (auto simp: add_event_body_def split: prod.splits if_splits)
    with ran(3) Some show ?thesis by (auto simp: announce_event_def)
  qed
qed

text \<open>C2: When \<open>rtcom_el_add_event\<close>, called on an open database with a journal, fails, for whatever
  reason and at whatever statement, the durable tables are those of before the call, so that a
  half-added event is never left behind, and no message is put on the bus.\<close>

theorem add_event_failure_atomic:
  assumes "rtcom_el_add_event evp el = Some (- 1, e, el')" and "is_open el"
    and j: "journal el \<noteq> JM_OFF"
  shows "durable el' = durable el \<and> journal el' = journal el \<and> sent el' = sent el"
  using add_event_failure_atomic_rule [OF assms] failed_add_silent [OF assms] by simp

text \<open>An event whose group the cache knows under another service.\<close>

lemma sample_add_foreign:
  "map_option fst (rtcom_el_add_event (Some (sample_event ''SMS'')) sample_el) = Some (- 1)"
  by code_simp

theorem add_event_failure_atomic_witness:
  "\<exists>e el'. rtcom_el_add_event (Some (sample_event ''SMS'')) sample_el = Some (- 1, e, el') \<and>
     durable el' = sample_tables \<and> sent el' = []"
proof -
  from sample_add_foreign obtain e el' where
    run: "rtcom_el_add_event (Some (sample_event ''SMS'')) sample_el = Some (- 1, e, el')" by auto
  have "is_open sample_el" "journal sample_el \<noteq> JM_OFF" by (simp_all add: sample_el_def)
  from add_event_failure_atomic [OF run this] have "durable el' = sample_tables" "sent el' = []"
    by (simp_all add: durable_def sample_el_def)
  with run show ?thesis by auto
qed

text \<open>An event whose group is already cached under another service cannot be added: the
  triggers would give two cache rows the same event, which the UNIQUE constraint forbids.\<close>

theorem add_event_foreign_group:
  assumes "rtcom_el_add_event (Some ev) el = Some (i, e, el')"
    and "is_open el" and "journal el \<noteq> JM_OFF" and ok: "cache_ok (tb el)"
    and g: "event_is_set ev F_group_uid" "fld_group_uid ev = Some g"
    and s: "lookup_id (services el) (fld_service ev) = Some s"
    and c: "c \<in> set (GroupCache (tb el))" "gc_group_uid c = g" "gc_service_id c \<noteq> s"
  shows "i = - 1 \<and> durable el' = durable el"
proof (cases "i = - 1")
  case True
  with add_event_failure_atomic_rule [of "Some ev" el e el'] assms(1-3) show ?thesis by simp
next
  case False
  from add_event_success [OF assms(1-3) False] obtain ev1 s' t rs k tt where
    p: "add_event_precheck (Some ev) el = (Accepted ev1 s' t, el)"
      "(insert_event :: event_row \<Rightarrow> unit stmt) (new_event_row ev1 s' t el) (tb el) = Inr (rs, Some k, tt)"
    by blast
  from precheck_accepted [OF p(1)] s have a: "ev1 = rename_event_type ev" "s' = s" by auto
  have "event_is_set ev1 F_group_uid \<and> fld_group_uid ev1 = Some g"
    using g by (auto simp: a(1) rename_event_type_def set_outgoing_def set_event_type_def
        event_is_set_set_field) (simp_all add: event_set_field_def)
  then have "e_group_uid (new_event_row ev1 s' t el) = Some g"
    "e_service_id (new_event_row ev1 s' t el) = s"
    by (simp_all add: new_event_row_def event_values_def event_group_def a(2))
  from insert_event_foreign_group [OF ok this(1) c(1,2), where 'a = unit] c(3) this(2) p(2)
  show ?thesis by simp
qed

theorem add_event_foreign_group_witness:
  "\<exists>e el'. rtcom_el_add_event (Some (sample_event ''SMS'')) sample_el = Some (- 1, e, el') \<and>
     durable el' = durable sample_el"
proof -
  from sample_add_foreign obtain e el' where
    run: "rtcom_el_add_event (Some (sample_event ''SMS'')) sample_el = Some (- 1, e, el')" by auto
  let ?c = "\<lparr>gc_event_id = 2, gc_service_id = 1, gc_group_uid = ''g'', gc_total_events = 2,
          gc_read_events = 0, gc_flags = 1\<rparr>"
  have "event_is_set (sample_event ''SMS'') F_group_uid" "fld_group_uid (sample_event ''SMS'') = Some ''g''"
    "lookup_id (services sample_el) (fld_service (sample_event ''SMS'')) = Some 2"
    by code_simp+
  from add_event_foreign_group [OF run _ _ _ this, of ?c] run show ?thesis
    using sample_cache_ok by (auto simp: sample_el_def sample_tables_def)
qed

section \<open>Headers and attachments\<close>

definition same_but_headers :: "tables \<Rightarrow> tables \<Rightarrow> bool" where
  "same_but_headers t t' \<longleftrightarrow> (\<exists>hs. t' = t\<lparr>Headers := hs\<rparr>)"

definition same_but_attachments :: "tables \<Rightarrow> tables \<Rightarrow> bool" where
  "same_but_attachments t t' \<longleftrightarrow> (\<exists>as. t' = t\<lparr>Attachments := as\<rparr>)"

lemma same_but_refl [simp]: "same_but_headers t t" "same_but_attachments t t"
proof -
  show "same_but_headers t t"
    unfolding same_but_headers_def by (rule exI [of _ "Headers t"]) simp
  show "same_but_attachments t t"
    unfolding same_but_attachments_def by (rule exI [of _ "Attachments t"]) simp
qed

lemma same_but_trans:
  "same_but_headers t u \<Longrightarrow> same_but_headers u v \<Longrightarrow> same_but_headers t v"
  "same_but_attachments t u \<Longrightarrow> same_but_attachments u v \<Longrightarrow> same_but_attachments t v"
  by (auto simp: same_but_headers_def same_but_attachments_def)

lemma same_but_tables:
  "same_but_headers t u \<Longrightarrow> Events u = Events t \<and> GroupCache u = GroupCache t \<and>
     Attachments u = Attachments t"
  "same_but_attachments t u \<Longrightarrow> Events u = Events t \<and> GroupCache u = GroupCache t \<and>
     Headers u = Headers t"
  by (auto simp: same_but_headers_def same_but_attachments_def)

lemma add_header_inserts:
  assumes run: "rtcom_el_add_header i hk hv el = (r, e, el')" and "is_open el" and "r \<noteq> - 1"
  shows "\<exists>k n v. hk = Some n \<and> hv = Some v \<and> same_but_headers (tb el) (tb el') \<and>
     Headers (tb el') = Headers (tb el) @
       [\<lparr>hd_id = k, hd_event_id = i, hd_name = n, hd_value = v\<rparr>]"
proof -
  from assms obtain rows x where
    "rtcom_el_db_exec (Stmt (insert_header i hk hv) :: unit sql) el = (True, rows, x, el')"
    by (auto simp: rtcom_el_add_header_def split: if_splits prod.splits)
  from exec_stmt_ok [OF this] show ?thesis
    by (auto simp: insert_header_def same_but_headers_def Let_def split: option.splits if_splits
        dest!: sym [where t = "tb el'"])
qed

lemma add_headers_inserts:
  "add_headers i hs el = (True, e, el') \<Longrightarrow> is_open el \<Longrightarrow>
   \<exists>ns. Headers (tb el') = Headers (tb el) @ ns \<and> (\<forall>h\<in>set ns. hd_event_id h = i) \<and>
     map (\<lambda>h. (Some (hd_name h), Some (hd_value h))) ns = hs \<and> same_but_headers (tb el) (tb el')"
proof (induction i hs el arbitrary: e el' rule: add_headers.induct)
  case (1 i el)
  then show ?case by simp
next
  case (2 i hk hv hs el)
  obtain r x el1 where a: "rtcom_el_add_header i hk hv el = (r, x, el1)" by (metis prod_cases3)
  with "2.prems" have r: "r \<noteq> - 1" and rest: "add_headers i hs el1 = (True, e, el')"
    by (auto split: if_splits)
  from add_header_keeps [OF a "2.prems"(2)] have op: "is_open el1" by simp
  from "2.IH" [OF a [symmetric] refl r rest op] obtain ns where
    "Headers (tb el') = Headers (tb el1) @ ns" "\<forall>h\<in>set ns. hd_event_id h = i"
    "map (\<lambda>h. (Some (hd_name h), Some (hd_value h))) ns = hs" "same_but_headers (tb el1) (tb el')"
    by blast
  moreover from add_header_inserts [OF a "2.prems"(2) r] obtain k n v where
    "hk = Some n" "hv = Some v" "same_but_headers (tb el) (tb el1)"
    "Headers (tb el1) = Headers (tb el) @ [\<lparr>hd_id = k, hd_event_id = i, hd_name = n, hd_value = v\<rparr>]"
    by blast
  ultimately show ?case
    by (intro exI [of _ "\<lparr>hd_id = k, hd_event_id = i, hd_name = n, hd_value = v\<rparr> # ns"])
      (auto intro: same_but_trans)
qed

text \<open>The course of a call of \<open>rtcom_el_add_attachment\<close> that succeeds.\<close>

lemma add_attachment_course:
  assumes run: "rtcom_el_add_attachment i path desc el = Some (r, e, el')" and op: "is_open el"
    and r: "r \<noteq> - 1"
  obtains p el1 u el2 el3 rows x where "path = Some p" and "0 \<le> i"
    and "(if fs el (attachments_dir el) = None then g_mkdir (attachments_dir el) el else (True, el)) =
           (True, el1)"
    and "build_unique_dirname (attachments_dir el) el1 = Some u" and "g_mkdir u el1 = (True, el2)"
    and "copy_file p (build_filename u (basename el2 p)) el2 = (True, el3)"
    and "rtcom_el_db_exec (Stmt (insert_attachment i (build_filename u (basename el2 p)) desc) ::
           unit sql) el3 = (True, rows, x, el')"
    and "r = to_gint (last_rowid el')" and "e = None"
  using assms
  by (auto simp: rtcom_el_add_attachment_def Let_def split: prod.splits if_splits option.splits)

text \<open>
  The row of an attachment: its file keeps its name, in a directory of its own below the attachments
  directory.
\<close>

definition attachment_records :: "el \<Rightarrow> attachment_row \<Rightarrow> string option \<times> string option \<Rightarrow> bool" where
  "attachment_records el a att \<longleftrightarrow>
     at_desc a = snd att \<and>
     (\<exists>p n. fst att = Some p \<and>
        at_path a = build_filename (candidate (attachments_dir el) (time_buf (now el)) n) (basename el p))"

lemma attachment_records_names:
  "same_names el el' \<Longrightarrow> attachment_records el' = attachment_records el"
  by (simp add: attachment_records_def attachments_dir_def same_names_def fun_eq_iff)

lemma add_attachment_db:
  assumes run: "rtcom_el_add_attachment i path desc el = Some (r, e, el')" and "is_open el" and "r \<noteq> - 1"
  shows "\<exists>a. same_but_attachments (tb el) (tb el') \<and> same_names el el' \<and>
     Attachments (tb el') = Attachments (tb el) @ [a] \<and> at_event_id a = i \<and>
     attachment_records el a (path, desc)"
  using assms
proof (cases rule: add_attachment_course)
  case (1 p el1 u el2 el3 rows x)
  have s1: "same_db el el1" using 1(3) g_mkdir_same [of el "attachments_dir el"] by (auto split: if_splits)
  moreover have s2: "same_db el1 el2" using g_mkdir_same [of el1 u] 1(5) by simp
  moreover have "same_db el2 el3"
    using copy_file_same [of el2 p "build_filename u (basename el2 p)"] 1(6) by simp
  ultimately have s3: "same_db el el3" by (simp add: same_db_def)
  then have t3: "tb el3 = tb el" by (simp add: same_db_def)
  from same_names_trans [OF same_db_names [OF s3] exec_names [OF 1(7)]] have names: "same_names el el'" .
  have eqs: "now el1 = now el" "basename el2 = basename el" using s1 s2 by (simp_all add: same_db_def)
  from 1(4) obtain n where n: "u = candidate (attachments_dir el) (time_buf (now el)) n"
    unfolding build_unique_dirname_def eqs using unique_dirname_new by blast
  let ?a = "\<lparr>at_id = next_rowid (map at_id (Attachments (tb el))), at_event_id = i,
      at_path = build_filename u (basename el p), at_desc = desc\<rparr>"
  have rec: "attachment_records el ?a (path, desc)" using 1(1) n by (auto simp: attachment_records_def)
  from exec_stmt_ok [OF 1(7)] t3 have tabs: "tb el' = (tb el)\<lparr>Attachments := Attachments (tb el) @ [?a]\<rparr>"
    by (auto simp: insert_attachment_def Let_def eqs)
  show ?thesis
    using rec names by (intro exI [of _ ?a]) (simp add: tabs same_but_attachments_def, blast?)
qed

lemma add_attachments_inserts:
  "add_attachments i atts el = Some (True, e, el') \<Longrightarrow> is_open el \<Longrightarrow>
   \<exists>ns. Attachments (tb el') = Attachments (tb el) @ ns \<and> (\<forall>a\<in>set ns. at_event_id a = i) \<and>
     list_all2 (attachment_records el) ns atts \<and> same_but_attachments (tb el) (tb el')"
proof (induction i atts el arbitrary: e el' rule: add_attachments.induct)
  case (1 i el)
  then show ?case by simp
next
  case (2 i path desc atts el)
  from "2.prems"(1) obtain r x el1 where a: "rtcom_el_add_attachment i path desc el = Some (r, x, el1)"
    by (auto split: option.splits)
  with "2.prems" have r: "r \<noteq> - 1" and rest: "add_attachments i atts el1 = Some (True, e, el')"
    by (auto split: if_splits)
  from add_attachment_keeps [OF a "2.prems"(2)] have op: "is_open el1" by simp
  from "2.IH" [OF a refl refl r rest op] obtain ns where ns:
    "Attachments (tb el') = Attachments (tb el1) @ ns" "\<forall>h\<in>set ns. at_event_id h = i"
    "list_all2 (attachment_records el1) ns atts" "same_but_attachments (tb el1) (tb el')"
    by blast
  from add_attachment_db [OF a "2.prems"(2) r] obtain b where b:
    "same_but_attachments (tb el) (tb el1)" "same_names el el1"
    "Attachments (tb el1) = Attachments (tb el) @ [b]" "at_event_id b = i"
    "attachment_records el b (path, desc)" by blast
  show ?case
    using ns b attachment_records_names [OF b(2)] same_but_trans(2) [OF b(1) ns(4)]
    by (intro exI [of _ "b # ns"]) simp
qed

lemma add_event_full_cases:
  assumes "rtcom_el_add_event_full evp hs atts el0 = Some (i, e, el')" and "is_open el0"
  obtains (rejected) err where "add_event_precheck evp el0 = (Rejected err, el0)"
      and "i = - 1" and "e = Some err" and "el' = el0"
  | (ran) ev s t r e1 el1 where "add_event_precheck evp el0 = (Accepted ev s t, el0)"
      and "in_transaction True (add_event_full_body ev hs atts s t) el0 = Some (r, e1, el1)"
      and "announce_event ev (r, e1, el1) = (i, e, el')"
proof -
  obtain p el where pc: "add_event_precheck evp el0 = (p, el)" by (metis surj_pair)
  with precheck_open [OF assms(2), of evp] have el: "el = el0" by simp
  show ?thesis
  proof (cases p)
    case Crashed
    with assms(1) pc show ?thesis by (simp add: rtcom_el_add_event_full_def)
  next
    case (Rejected err)
    with assms(1) pc el show ?thesis by (intro rejected) (auto simp: rtcom_el_add_event_full_def)
  next
    case (Accepted ev s t)
    with assms(1) pc el obtain r e1 el1 where
      "in_transaction True (add_event_full_body ev hs atts s t) el0 = Some (r, e1, el1)"
      "announce_event ev (r, e1, el1) = (i, e, el')"
      by (auto simp: rtcom_el_add_event_full_def)
    with pc Accepted el show ?thesis by (intro ran) auto
  qed
qed

lemma add_full_body_success:
  assumes body: "add_event_full_body ev hs atts s t d1 = Some (Some i, e2, d2)" and op: "is_open d1"
  shows "i \<noteq> - 1 \<and> (\<exists>rs k tt ns as. (insert_event :: event_row \<Rightarrow> unit stmt) (new_event_row ev s t d1) (tb d1) =
       Inr (rs, Some k, tt) \<and> i = to_gint k \<and>
     Events (tb d2) = Events tt \<and> GroupCache (tb d2) = GroupCache tt \<and>
     Headers (tb d2) = Headers tt @ ns \<and> Attachments (tb d2) = Attachments tt @ as \<and>
     (\<forall>h\<in>set ns. hd_event_id h = i) \<and> (\<forall>a\<in>set as. at_event_id a = i) \<and>
     map (\<lambda>h. (Some (hd_name h), Some (hd_value h))) ns = hs \<and>
     list_all2 (attachment_records d1) as atts)"
proof -
  obtain j e3 d3 where c: "add_event_core ev s t d1 = (j, e3, d3)" by (metis prod_cases3)
  with body obtain e4 d4 where j: "j = i" "i \<noteq> - 1"
    and a: "add_attachments i atts d3 = Some (True, e4, d4)" and h: "add_headers i hs d4 = (True, e2, d2)"
    by (auto simp: add_event_full_body_def split: if_splits option.splits prod.splits)
  from add_event_core_keeps [OF c] j op obtain rs k tt where k: "is_open d3"
    "(insert_event :: event_row \<Rightarrow> unit stmt) (new_event_row ev s t d1) (tb d1) = Inr (rs, Some k, tt)"
    "i = to_gint k" "only_remotes tt (tb d3)" by auto
  from add_attachments_keeps [OF a k(1)] have "is_open d4" by simp
  from add_headers_inserts [OF h this] obtain ns where
    ns: "Headers (tb d2) = Headers (tb d4) @ ns" "\<forall>h\<in>set ns. hd_event_id h = i"
      "map (\<lambda>h. (Some (hd_name h), Some (hd_value h))) ns = hs" "same_but_headers (tb d4) (tb d2)"
    by blast
  from add_attachments_inserts [OF a k(1)] obtain as where
    as: "Attachments (tb d4) = Attachments (tb d3) @ as" "\<forall>a\<in>set as. at_event_id a = i"
      "list_all2 (attachment_records d3) as atts" "same_but_attachments (tb d3) (tb d4)" by blast
  show ?thesis
    using attachment_records_names [OF add_event_core_names [OF c]] j k(2,3) only_remotes_same [OF k(4)] ns as same_but_tables(1) [OF ns(4)]
      same_but_tables(2) [OF as(4)]
    by (intro conjI exI [of _ rs] exI [of _ k] exI [of _ tt] exI [of _ ns] exI [of _ as]) simp_all
qed

lemma add_event_full_failure_atomic_rule:
  assumes "rtcom_el_add_event_full evp hs atts el = Some (- 1, e, el')" and op: "is_open el"
    and j: "journal el \<noteq> JM_OFF"
  shows "durable el' = durable el \<and> journal el' = journal el"
  using assms(1,2)
proof (cases rule: add_event_full_cases)
  case rejected
  then show ?thesis by simp
next
  case (ran ev s t r e1 el1)
  show ?thesis
  proof (cases r)
    case None
    with ran(2,3) add_full_body.failure_keeps_durable [of True ev hs atts s t el e1 el1] j op
    show ?thesis by (auto simp: announce_event_def)
  next
    case (Some i)
    with add_full_body.success_commits [of True ev hs atts s t el i e1 el1] ran(2) op
    obtain e2 d1 d2 where "db.more d1 = db.more el"
      "add_event_full_body ev hs atts s t d1 = Some (Some i, e2, d2)" by auto
    with add_full_body_success [of ev hs atts s t d1 i e2 d2] el_more_eq [of d1 el] op
    have "i \<noteq> - 1" by simp
    with ran(3) Some show ?thesis by (auto simp: announce_event_def)
  qed
qed

text \<open>C3: \<open>rtcom_el_add_event_full\<close> is all or nothing: when it returns \<open>-1\<close>, because of the event,
  of any header, of any attachment or of the commit, the durable tables are unchanged.\<close>

theorem add_event_full_failure_atomic:
  assumes "rtcom_el_add_event_full evp hs atts el = Some (- 1, e, el')" and op: "is_open el"
    and j: "journal el \<noteq> JM_OFF"
  shows "durable el' = durable el \<and> journal el' = journal el"
  using assms by (rule add_event_full_failure_atomic_rule)

text \<open>The same header twice violates UNIQUE(event_id, name) after the event was inserted.\<close>

lemma sample_full_fails:
  "map_option fst (rtcom_el_add_event_full (Some (sample_event ''CALL''))
     [(Some ''a'', Some ''1''), (Some ''a'', Some ''2'')] [] sample_el) = Some (- 1)"
  by code_simp

theorem add_event_full_failure_atomic_witness:
  "\<exists>e el'. rtcom_el_add_event_full (Some (sample_event ''CALL''))
     [(Some ''a'', Some ''1''), (Some ''a'', Some ''2'')] [] sample_el = Some (- 1, e, el') \<and>
     durable el' = sample_tables"
proof -
  from sample_full_fails obtain e el' where run: "rtcom_el_add_event_full
      (Some (sample_event ''CALL'')) [(Some ''a'', Some ''1''), (Some ''a'', Some ''2'')] [] sample_el =
      Some (- 1, e, el')" by auto
  have "is_open sample_el" "journal sample_el \<noteq> JM_OFF" by (simp_all add: sample_el_def)
  from add_event_full_failure_atomic [OF run this] have "durable el' = sample_tables"
    by (simp add: durable_def sample_el_def)
  with run show ?thesis by auto
qed

text \<open>C6: A successful \<open>rtcom_el_add_event_full\<close> on an open database with a journal appends one event,
  whose columns hold the fields of the event given (\<open>row_records\<close>) and whose id is new and, as a 32-bit
  integer, the value returned; all with this id, one header for each entry of the hash table, with its
  name and value, and one attachment for each element of the list, with its description and the path of
  the copy of its file (\<open>attachment_records\<close>), in order.\<close>

theorem add_event_full_inserts:
  assumes run: "rtcom_el_add_event_full (Some ev) hs atts el = Some (i, e, el')" and i: "i \<noteq> - 1"
    and op: "is_open el" and j: "journal el \<noteq> JM_OFF"
  shows "\<exists>row ns as. Events (tb el') = Events (tb el) @ [row] \<and> row_records ev el row \<and>
     e_id row \<notin> e_id ` set (Events (tb el)) \<and> i = to_gint (e_id row) \<and>
     Headers (tb el') = Headers (tb el) @ ns \<and> Attachments (tb el') = Attachments (tb el) @ as \<and>
     (\<forall>h\<in>set ns. hd_event_id h = i) \<and> (\<forall>a\<in>set as. at_event_id a = i) \<and>
     map (\<lambda>h. (Some (hd_name h), Some (hd_value h))) ns = hs \<and>
     list_all2 (attachment_records el) as atts"
  using run op
proof (cases rule: add_event_full_cases)
  case rejected
  with i show ?thesis by simp
next
  case (ran ev1 s t r e1 el1)
  from announce_some [OF ran(3) i] have r: "r = Some i" by auto
  from add_full_body.success_commits [OF ran(2) [unfolded r]] op j
  obtain e2 d1 d2 where d: "tb d1 = tb el" "db.more d1 = db.more el"
    "add_event_full_body ev1 hs atts s t d1 = Some (Some i, e2, d2)" "tb el1 = tb d2" "txn el1 = None"
    "journal el1 = journal el" by auto
  from d(2) op have "is_open d1" using el_more_eq(1) by metis
  from add_full_body_success [OF d(3) this] obtain rs k tt ns as where
    k: "(insert_event :: event_row \<Rightarrow> unit stmt) (new_event_row ev1 s t d1) (tb d1) = Inr (rs, Some k, tt)"
    and b: "i = to_gint k" "Events (tb d2) = Events tt" "Headers (tb d2) = Headers tt @ ns"
    "Attachments (tb d2) = Attachments tt @ as" "\<forall>h\<in>set ns. hd_event_id h = i"
    "\<forall>a\<in>set as. at_event_id a = i" "map (\<lambda>h. (Some (hd_name h), Some (hd_value h))) ns = hs"
    "list_all2 (attachment_records d1) as atts" by blast
  from precheck_accepted [OF ran(1)] have a: "ev1 = rename_event_type ev"
    "lookup_id (services el) (fld_service ev) = Some s"
    "lookup_id (event_types el) (fld_event_type ev1) = Some t" "event_is_set ev F_local_uid" by auto
  let ?row = "stored_row (new_event_row ev1 s t el) (tb el)"
  have rec: "row_records ev el ?row" using new_event_row_records a by (simp add: stored_row_def)
  have new: "e_id ?row \<notin> e_id ` set (Events (tb el))"
    using next_rowid_fresh [of "map e_id (Events (tb el))"] by (simp add: stored_row_def)
  have tabs: "tb el' = tb d2"
    using announce_event_quiet [OF ran(3)] quiet_auto [of el1 el'] d j by simp
  note ins = insert_event_result [OF k]
  have row1: "stored_row (new_event_row ev1 s t d1) (tb d1) = ?row"
    using new_event_row_more [OF d(2)] d(1) by simp
  have "Events (tb el') = Events (tb el) @ [?row]" "i = to_gint (e_id ?row)"
    "Headers (tb el') = Headers (tb el) @ ns" "Attachments (tb el') = Attachments (tb el) @ as"
    using ins b(1-4) d(1) row1 by (simp_all add: tabs)
  moreover have "list_all2 (attachment_records el) as atts"
    using b(8) attachment_records_names [OF more_names [OF d(2)]] by simp
  ultimately show ?thesis
    using rec new b(5-7) by - (rule exI [of _ ?row], rule exI [of _ ns], rule exI [of _ as], intro conjI)
qed

lemma sample_full:
  "map_option fst (rtcom_el_add_event_full (Some (sample_event ''CALL''))
     [(Some ''a'', Some ''1'')] [] sample_el) = Some 4"
  by code_simp

theorem add_event_full_inserts_witness:
  "\<exists>e el' row. rtcom_el_add_event_full (Some (sample_event ''CALL'')) [(Some ''a'', Some ''1'')] []
     sample_el = Some (4, e, el') \<and> length (Headers (tb el')) = 2 \<and>
     Events (tb el') = Events (tb sample_el) @ [row] \<and> e_remote_uid row = Some ''bob''"
proof -
  let ?ev = "sample_event ''CALL''" and ?hs = "[(Some ''a'', Some ''1'')]"
  from sample_full obtain e el' where run: "rtcom_el_add_event_full (Some ?ev) ?hs [] sample_el =
      Some (4, e, el')" by auto
  have op: "is_open sample_el" and j: "journal sample_el \<noteq> JM_OFF" by (simp_all add: sample_el_def)
  have ne: "(4 :: int) \<noteq> - 1" by simp
  from add_event_full_inserts [OF run ne op j] obtain row ns where
    h: "Headers (tb el') = Headers (tb sample_el) @ ns"
      "map (\<lambda>h. (Some (hd_name h), Some (hd_value h))) ns = ?hs"
    and r: "Events (tb el') = Events (tb sample_el) @ [row]" "row_records ?ev sample_el row"
    by (elim exE conjE)
  from h have "length (Headers (tb el')) = 2" by (auto simp: sample_el_def sample_tables_def)
  moreover have "event_is_set ?ev F_remote_uid" "fld_remote_uid ?ev = Some ''bob''" by code_simp+
  ultimately show ?thesis using run r by (simp add: row_records_def)
qed

end
