(* ===== verification/El_Iter_Use.thy ===== *)
theory El_Iter_Use
  imports El_Iter_Props El_Add_Props
begin

text \<open>
  Iterators and the other operations together: an atomic iterator keeps its transaction to
  itself, and what \<open>rtcom_el_add_event\<close> stored is what \<open>rtcom_el_iter_get_full\<close> gives back.
\<close>

section \<open>Atomic iterators\<close>

text \<open>C21: \<open>rtcom_el_get_events_atomic\<close> opens a transaction that unreferencing the iterator closes
  again, with no change to the tables. In between every attempt to add an event on the same object
  fails: it returns -1, and it sets no error when the event itself is acceptable.\<close>

theorem atomic_iterator_brackets:
  assumes "is_open el" and "script el = []" and "txn el = None" and "q_sql query = Some s"
    and "query_rows holds s = Some f" and "f (tb el) = j # js"
  shows "\<exists>it el1 el2. rtcom_el_get_events_atomic holds query el = (Some it, el1) \<and>
     txn el1 = Some (tb el) \<and> tb el1 = tb el \<and>
     (\<forall>evp ev sv ty. fst (add_event_precheck evp el1) = Accepted ev sv ty \<longrightarrow>
        rtcom_el_add_event evp el1 = Some (- 1, None, el1)) \<and>
     rtcom_el_iter_finalize it el1 = Some el2 \<and> txn el2 = None \<and> tb el2 = tb el"
proof -
  let ?el1 = "el\<lparr>txn := Some (tb el), errcode := None\<rparr>"
  have tr: "rtcom_el_db_transaction False el = (True, None, ?el1)"
    using assms(2,3) by (simp add: rtcom_el_db_transaction_def exec_calm)
  let ?it = "iter_on query f True j js ?el1"
  have get: "rtcom_el_get_events_atomic holds query el = (Some ?it, ?el1)"
    using assms tr
    by (simp add: rtcom_el_get_events_atomic_def get_events_core_def sqlite3_step_calm step_row_def
        iter_on_def)
  let ?el2 = "?el1\<lparr>txn := None, script := [], errcode := None\<rparr>"
  have fin: "rtcom_el_iter_finalize ?it ?el1 = Some ?el2"
    using assms(2) by (simp add: rtcom_el_iter_finalize_def rtcom_el_db_commit_def exec_calm)
  have "rtcom_el_add_event evp ?el1 = Some (- 1, None, ?el1)"
    if "fst (add_event_precheck evp ?el1) = Accepted ev sv ty" for evp ev sv ty
  proof -
    from that precheck_open [of ?el1 evp] assms(1) have
      "add_event_precheck evp ?el1 = (Accepted ev sv ty, ?el1)"
      by (cases "add_event_precheck evp ?el1") auto
    then show ?thesis
      by (simp add: rtcom_el_add_event_def in_transaction_def rtcom_el_db_transaction_def
          announce_event_def)
  qed
  with get fin show ?thesis
    by (intro exI [of _ ?it] exI [of _ ?el1] exI [of _ ?el2]) simp
qed

theorem atomic_iterator_brackets_witness:
  "\<exists>it el1. rtcom_el_get_events_atomic where_holds sample_query sample_el = (Some it, el1) \<and>
     rtcom_el_add_event (Some (sample_event ''CALL'')) el1 = Some (- 1, None, el1)"
proof -
  from sample_query_sql obtain s f where q: "q_sql sample_query = Some s"
    "query_rows where_holds s = Some f" and ids: "map (\<lambda>j. e_id (jn_event j)) (f (tb sample_el)) = [2, 1]"
    by (auto simp: sample_open)
  then obtain j j' where "f (tb sample_el) = [j, j']" by auto
  from atomic_iterator_brackets [OF sample_open(1,7,2) q this] obtain it el1 where
    g: "rtcom_el_get_events_atomic where_holds sample_query sample_el = (Some it, el1)"
    and a: "\<forall>evp ev sv ty. fst (add_event_precheck evp el1) = Accepted ev sv ty \<longrightarrow>
        rtcom_el_add_event evp el1 = Some (- 1, None, el1)" by blast
  have "case rtcom_el_get_events_atomic where_holds sample_query sample_el of
      (_, el1) \<Rightarrow> (case fst (add_event_precheck (Some (sample_event ''CALL'')) el1) of
        Accepted ev sv ty \<Rightarrow> True | _ \<Rightarrow> False)" by code_simp
  with g obtain ev sv ty where "fst (add_event_precheck (Some (sample_event ''CALL'')) el1) = Accepted ev sv ty"
    by (auto split: precheck.splits)
  with a g show ?thesis by blast
qed

section \<open>The fields of a row, and of the event made of it\<close>

lemma column_string_text [simp]: "column_string (text_or_null v) = v"
  by (cases v) (simp_all add: column_string_def text_or_null_def)

text \<open>The columns stand in the order of the fields.\<close>

lemma field_values_in_order:
  "field_values j =
     map_of (map2 (\<lambda>(n, ty, c) (c', f). (n, gvalue_of ty (f j))) event_fields columns_of)"
proof -
  have cols: "map (\<lambda>(n, ty, c). c) event_fields = map fst columns_of"
    by (simp add: event_fields_def columns_of_def)
  have dist: "distinct (map fst columns_of)" by (simp add: columns_of_def)
  have "map (\<lambda>(n, ty, c). (n, gvalue_of ty (column_value c j))) event_fields =
      map2 (\<lambda>(n, ty, c) (c', f). (n, gvalue_of ty (f j))) event_fields columns_of"
  proof (rule nth_equalityI)
    show "length (map (\<lambda>(n, ty, c). (n, gvalue_of ty (column_value c j))) event_fields) =
        length (map2 (\<lambda>(n, ty, c) (c', f). (n, gvalue_of ty (f j))) event_fields columns_of)"
      using arg_cong [OF cols, of length] by simp
  next
    fix k
    assume "k < length (map (\<lambda>(n, ty, c). (n, gvalue_of ty (column_value c j))) event_fields)"
    then have k: "k < length event_fields" "k < length columns_of"
      using arg_cong [OF cols, of length] by simp_all
    obtain n ty c where e: "event_fields ! k = (n, ty, c)" by (rule prod_cases3)
    obtain c' f where f: "columns_of ! k = (c', f)" by fastforce
    from arg_cong [OF cols, of "\<lambda>xs. xs ! k"] k e f have "c' = c" by simp
    moreover from nth_mem [OF k(2)] f dist have "map_of columns_of c' = Some f" by simp
    ultimately show "map (\<lambda>(n, ty, c). (n, gvalue_of ty (column_value c j))) event_fields ! k =
        map2 (\<lambda>(n, ty, c) (c', f). (n, gvalue_of ty (f j))) event_fields columns_of ! k"
      using k e f by (simp add: column_value_def)
  qed
  then show ?thesis by (simp add: field_values_def)
qed

lemmas field_values_table =
  field_values_in_order [unfolded event_fields_def columns_of_def, simplified]

lemma field_cells:
  "field_values j ''id'' = Some (GInt (to_gint (e_id (jn_event j))))"
  "field_values j ''service-id'' = Some (GInt (to_gint (e_service_id (jn_event j))))"
  "field_values j ''event-type-id'' = Some (GInt (to_gint (e_event_type_id (jn_event j))))"
  "field_values j ''storage-time'' = Some (GInt (to_gint (e_storage_time (jn_event j))))"
  "field_values j ''start-time'' = Some (GInt (to_gint (e_start_time (jn_event j))))"
  "field_values j ''end-time'' = Some (GInt (to_gint (e_end_time (jn_event j))))"
  "field_values j ''flags'' = Some (GInt (to_gint (e_flags (jn_event j))))"
  "field_values j ''bytes-sent'' = Some (GInt (to_gint (e_bytes_sent (jn_event j))))"
  "field_values j ''bytes-received'' = Some (GInt (to_gint (e_bytes_received (jn_event j))))"
  by (simp_all add: field_values_table column_int_def)

lemma field_strings:
  "field_values j ''service'' = Some (GStr (Some (sv_name (jn_service j))))"
  "field_values j ''event-type'' = Some (GStr (Some (et_name (jn_event_type j))))"
  "field_values j ''local-uid'' = Some (GStr (e_local_uid (jn_event j)))"
  "field_values j ''local-name'' = Some (GStr (e_local_name (jn_event j)))"
  "field_values j ''group-uid'' = Some (GStr (e_group_uid (jn_event j)))"
  "field_values j ''remote-ebook-uid'' = Some (GStr (Option.bind (jn_remote j) rm_abook_uid))"
  "field_values j ''remote-uid'' = Some (GStr (map_option rm_remote_uid (jn_remote j)))"
  "field_values j ''remote-name'' = Some (GStr (Option.bind (jn_remote j) rm_remote_name))"
  "field_values j ''channel'' = Some (GStr (e_channel (jn_event j)))"
  "field_values j ''free-text'' = Some (GStr (e_free_text (jn_event j)))"
  by (simp_all add: field_values_table column_string_def [of "TextVal s" for s])

lemma event_of_columns_cells:
  "fld_id (event_of_columns cols ev) = cell_int (cols ''id'')"
  "fld_start_time (event_of_columns cols ev) = cell_int (cols ''start-time'')"
  "fld_end_time (event_of_columns cols ev) = cell_int (cols ''end-time'')"
  "fld_flags (event_of_columns cols ev) = cell_int (cols ''flags'')"
  "fld_bytes_sent (event_of_columns cols ev) = cell_int (cols ''bytes-sent'')"
  "fld_bytes_received (event_of_columns cols ev) = cell_int (cols ''bytes-received'')"
  "fld_remote_ebook_uid (event_of_columns cols ev) = cell_string (cols ''remote-ebook-uid'')"
  "fld_local_uid (event_of_columns cols ev) = cell_string (cols ''local-uid'')"
  "fld_local_name (event_of_columns cols ev) = cell_string (cols ''local-name'')"
  "fld_remote_uid (event_of_columns cols ev) = cell_string (cols ''remote-uid'')"
  "fld_remote_name (event_of_columns cols ev) = cell_string (cols ''remote-name'')"
  "fld_channel (event_of_columns cols ev) = cell_string (cols ''channel'')"
  "fld_free_text (event_of_columns cols ev) = cell_string (cols ''free-text'')"
  "fld_group_uid (event_of_columns cols ev) = cell_string (cols ''group-uid'')"
  by (simp_all add: event_of_columns_def event_set_field_def Let_def)

text \<open>The fields \<open>rtcom_el_event_equals\<close> compares are not touched by a plugin.\<close>

definition compared_fields where
  "compared_fields e =
     (fld_id e, (fld_start_time e, fld_end_time e, fld_flags e, fld_bytes_sent e, fld_bytes_received e),
      (fld_remote_ebook_uid e, fld_local_uid e, fld_local_name e, fld_remote_uid e),
      (fld_remote_name e, fld_channel e, fld_free_text e, fld_group_uid e))"

lemma compared_fields_set [simp]:
  "compared_fields (event_set_field f (\<lambda>e. e\<lparr>fld_additional_text := v\<rparr>) ev) = compared_fields ev"
  "compared_fields (event_set_field f (\<lambda>e. e\<lparr>fld_icon_name := v\<rparr>) ev) = compared_fields ev"
  "compared_fields (event_set_field f (\<lambda>e. e\<lparr>fld_pango_markup := v\<rparr>) ev) = compared_fields ev"
  by (simp_all add: compared_fields_def event_set_field_def)

lemma get_full_compared:
  assumes "it_columns it = Some cols" and "has_stmt (it_stmt it)"
  shows "\<exists>ev'. rtcom_el_iter_get_full it el ev = (True, ev') \<and>
     compared_fields ev' = compared_fields (event_of_columns cols ev)"
  using assms by (auto simp: rtcom_el_iter_get_full_def Let_def split: option.splits)

section \<open>Comparing an event with what was stored of it\<close>

text \<open>
  An event whose fields can be stored as they are: the ones the library assigns are left out,
  strings are not NULL, numbers fit in 32 bits, and what is said of a contact has a contact.
\<close>

definition fits :: "ev_field \<Rightarrow> (RTComElEvent \<Rightarrow> int) \<Rightarrow> RTComElEvent \<Rightarrow> bool" where
  "fits f fld ev \<longleftrightarrow> (event_is_set ev f \<longrightarrow> to_gint (fld ev) = fld ev)"

definition storable :: "RTComElEvent \<Rightarrow> bool" where
  "storable ev \<longleftrightarrow>
     \<not> event_is_set ev F_id \<and> \<not> event_is_set ev F_service_id \<and>
     \<not> event_is_set ev F_event_type_id \<and> \<not> event_is_set ev F_storage_time \<and> readable ev \<and>
     fits F_start_time fld_start_time ev \<and> fits F_end_time fld_end_time ev \<and>
     fits F_flags fld_flags ev \<and> fits F_bytes_sent fld_bytes_sent ev \<and>
     fits F_bytes_received fld_bytes_received ev \<and>
     (event_is_set ev F_remote_ebook_uid \<or> event_is_set ev F_remote_name \<longrightarrow>
        event_is_set ev F_remote_uid)"

lemma int_test_pass:
  "(event_is_set a f \<Longrightarrow> event_is_set b f \<Longrightarrow> fld a = fld b) \<Longrightarrow> int_test f fld a b rest = rest"
  by (auto simp: int_test_def)

lemma str_test_pass:
  "(event_is_set a f \<Longrightarrow> event_is_set b f \<Longrightarrow> fld a \<noteq> None \<and> fld a = fld b) \<Longrightarrow>
     str_test f fld a b rest = rest"
  by (auto simp: str_test_def strcmp_differs_def split: option.splits)

lemma compared_fields_rename [simp]: "compared_fields (rename_event_type ev) = compared_fields ev"
  by (cases rule: rename_event_type_cases [of ev])
    (simp_all add: set_outgoing_def set_event_type_def event_set_field_def compared_fields_def)

text \<open>The contact \<open>rtcom_el_add_event\<close> stores for an event of a contact it has not seen.\<close>

definition contact_of :: "RTComElEvent \<Rightarrow> remote_row option" where
  "contact_of ev =
     (if event_is_set ev F_remote_uid
      then case (fld_local_uid ev, fld_remote_uid ev) of
             (Some l, Some r) \<Rightarrow>
               Some \<lparr>rm_local_uid = l, rm_remote_uid = r,
                      rm_remote_name = field_or F_remote_name ev (fld_remote_name ev) None,
                      rm_abook_uid = field_or F_remote_ebook_uid ev (fld_remote_ebook_uid ev) None\<rparr>
           | _ \<Rightarrow> None
      else None)"

text \<open>The event read back has the fields of the row.\<close>

lemma compared_of_row:
  assumes "compared_fields ev' = compared_fields (event_of_columns (field_values j) ev0)"
  shows "fld_id ev' = to_gint (e_id (jn_event j))"
    "fld_start_time ev' = to_gint (e_start_time (jn_event j))"
    "fld_end_time ev' = to_gint (e_end_time (jn_event j))"
    "fld_flags ev' = to_gint (e_flags (jn_event j))"
    "fld_bytes_sent ev' = to_gint (e_bytes_sent (jn_event j))"
    "fld_bytes_received ev' = to_gint (e_bytes_received (jn_event j))"
    "fld_local_uid ev' = e_local_uid (jn_event j)" "fld_local_name ev' = e_local_name (jn_event j)"
    "fld_channel ev' = e_channel (jn_event j)" "fld_free_text ev' = e_free_text (jn_event j)"
    "fld_group_uid ev' = e_group_uid (jn_event j)"
    "fld_remote_uid ev' = map_option rm_remote_uid (jn_remote j)"
    "fld_remote_name ev' = Option.bind (jn_remote j) rm_remote_name"
    "fld_remote_ebook_uid ev' = Option.bind (jn_remote j) rm_abook_uid"
  using assms
  by (simp_all add: compared_fields_def event_of_columns_cells field_cells field_strings cell_int_def
      cell_string_def)

lemma row_of_event:
  assumes "jn_event j = (new_event_row (rename_event_type ev) s t el)\<lparr>e_id := k\<rparr>"
  shows "event_is_set ev F_start_time \<Longrightarrow> e_start_time (jn_event j) = to_gint (fld_start_time ev)"
    "event_is_set ev F_end_time \<Longrightarrow> e_end_time (jn_event j) = to_gint (fld_end_time ev)"
    "event_is_set ev F_flags \<Longrightarrow> e_flags (jn_event j) = to_gint (fld_flags ev)"
    "event_is_set ev F_bytes_sent \<Longrightarrow> e_bytes_sent (jn_event j) = to_gint (fld_bytes_sent ev)"
    "event_is_set ev F_bytes_received \<Longrightarrow>
       e_bytes_received (jn_event j) = to_gint (fld_bytes_received ev)"
    "event_is_set ev F_local_uid \<Longrightarrow> e_local_uid (jn_event j) = fld_local_uid ev"
    "event_is_set ev F_local_name \<Longrightarrow> e_local_name (jn_event j) = fld_local_name ev"
    "event_is_set ev F_channel \<Longrightarrow> e_channel (jn_event j) = fld_channel ev"
    "event_is_set ev F_free_text \<Longrightarrow> e_free_text (jn_event j) = fld_free_text ev"
    "event_is_set ev F_group_uid \<Longrightarrow> e_group_uid (jn_event j) = fld_group_uid ev"
  using assms
  by (simp_all add: new_event_row_def event_values_def event_group_def field_or_def rename_is_set)

lemma stored_contact:
  assumes "storable ev" and "event_is_set ev F_local_uid" and rem: "jn_remote j = contact_of ev"
    and "event_is_set ev F_remote_uid \<or> event_is_set ev F_remote_name \<or> event_is_set ev F_remote_ebook_uid"
  shows "map_option rm_remote_uid (jn_remote j) = fld_remote_uid ev"
    and "event_is_set ev F_remote_name \<Longrightarrow> Option.bind (jn_remote j) rm_remote_name = fld_remote_name ev"
    and "event_is_set ev F_remote_ebook_uid \<Longrightarrow>
       Option.bind (jn_remote j) rm_abook_uid = fld_remote_ebook_uid ev"
proof -
  from assms have ru: "event_is_set ev F_remote_uid" by (auto simp: storable_def)
  with assms(1,2) obtain l r where "fld_local_uid ev = Some l" "fld_remote_uid ev = Some r"
    by (auto simp: storable_def readable_def)
  with rem ru show "map_option rm_remote_uid (jn_remote j) = fld_remote_uid ev"
    and "event_is_set ev F_remote_name \<Longrightarrow> Option.bind (jn_remote j) rm_remote_name = fld_remote_name ev"
    and "event_is_set ev F_remote_ebook_uid \<Longrightarrow>
       Option.bind (jn_remote j) rm_abook_uid = fld_remote_ebook_uid ev"
    by (simp_all add: contact_of_def field_or_def)
qed

lemma str_test_same:
  "(event_is_set a f \<Longrightarrow> fld a \<noteq> None) \<Longrightarrow> (event_is_set a f \<Longrightarrow> fld b = fld a) \<Longrightarrow>
     str_test f fld a b rest = rest"
  by (rule str_test_pass) auto

lemma int_test_same: "(event_is_set a f \<Longrightarrow> fld b = fld a) \<Longrightarrow> int_test f fld a b rest = rest"
  by (rule int_test_pass) auto

lemma stored_equals:
  assumes st: "storable ev" and luid: "event_is_set ev F_local_uid"
    and row: "jn_event j = (new_event_row (rename_event_type ev) s t el)\<lparr>e_id := k\<rparr>"
    and rem: "jn_remote j = contact_of ev"
    and cmp: "compared_fields ev' = compared_fields (event_of_columns (field_values j) ev0)"
  shows "rtcom_el_event_equals ev ev' = Some True"
proof -
  note readback = compared_of_row [OF cmp] and row = row_of_event [OF row]
    and contact = stored_contact [OF st luid rem]
  from st have rd: "readable ev" by (simp add: storable_def)
  have u: "int_test f fld ev ev' rest = rest" if "\<not> event_is_set ev f" for f fld rest
    using that by (simp add: int_test_def)
  have ints: "int_test F_start_time fld_start_time ev ev' rest = rest"
    "int_test F_end_time fld_end_time ev ev' rest = rest" "int_test F_flags fld_flags ev ev' rest = rest"
    "int_test F_bytes_sent fld_bytes_sent ev ev' rest = rest"
    "int_test F_bytes_received fld_bytes_received ev ev' rest = rest" for rest
    by (insert st, unfold storable_def fits_def) (rule int_test_same; simp add: readback row)+
  have strs: "str_test F_local_uid fld_local_uid ev ev' rest = rest"
    "str_test F_local_name fld_local_name ev ev' rest = rest"
    "str_test F_channel fld_channel ev ev' rest = rest"
    "str_test F_free_text fld_free_text ev ev' rest = rest"
    "str_test F_group_uid fld_group_uid ev ev' rest = rest"
    "str_test F_remote_uid fld_remote_uid ev ev' rest = rest"
    "str_test F_remote_name fld_remote_name ev ev' rest = rest"
    "str_test F_remote_ebook_uid fld_remote_ebook_uid ev ev' rest = rest" for rest
    by (insert rd, unfold readable_def) (rule str_test_same; simp add: readback row contact)+
  from st show ?thesis
    unfolding rtcom_el_event_equals_def ints strs by (simp add: storable_def u)
qed

end
