(* ===== verification/El_Add_Read.thy ===== *)
theory El_Add_Read
  imports El_Iter_Use
begin

text \<open>
  What \<open>rtcom_el_add_event\<close> stored is what \<open>rtcom_el_get_events\<close> and \<open>rtcom_el_iter_get_full\<close>
  give back.
\<close>

section \<open>The tables after an addition\<close>

definition new_contact :: "RTComElEvent \<Rightarrow> tables \<Rightarrow> bool" where
  "new_contact ev t \<longleftrightarrow>
     \<not> (event_is_set ev F_remote_uid \<and> list_ex (remote_is (fld_remote_uid ev) (fld_local_uid ev)) (Remotes t))"

lemma look_up_remote_new:
  assumes "look_up_remote ev el = (True, ctx, el')" and "new_contact ev (tb el)"
  shows "event_is_set ev F_remote_uid \<longrightarrow> \<not> ctx_exists ctx"
proof (cases "event_is_set ev F_remote_uid")
  case True
  with assms(1) obtain rows e where ex: "rtcom_el_db_exec
      (Stmt (select_remote (fld_remote_uid ev) (fld_local_uid ev))) el = (True, rows, e, el')"
    and ctx: "ctx = fold fetch_remote_data rows
      \<lparr>ctx_exists = False, ctx_abook_uid = None, ctx_remote_name = None\<rparr>"
    by (auto simp: look_up_remote_def Let_def split: prod.splits)
  from exec_stmt_ok [OF ex] have "rows = map (\<lambda>r. (rm_abook_uid r, rm_remote_name r))
      (filter (remote_is (fld_remote_uid ev) (fld_local_uid ev)) (Remotes (tb el)))"
    by (auto simp: select_remote_def)
  with assms(2) True have "rows = []"
    by (auto simp: new_contact_def list_ex_iff filter_empty_conv)
  with ctx show ?thesis by simp
qed simp

lemma store_remote_new:
  assumes "store_remote ev ctx el = (True, el')" and "event_is_set ev F_remote_uid \<longrightarrow> \<not> ctx_exists ctx"
  shows "Remotes (tb el') = Remotes (tb el) @ (case contact_of ev of None \<Rightarrow> [] | Some c \<Rightarrow> [c])"
proof (cases "event_is_set ev F_remote_uid")
  case False
  with assms show ?thesis by (auto simp: store_remote_def Let_def contact_of_def)
next
  case True
  let ?f = "insert_remote (fld_local_uid ev) (fld_remote_uid ev)
    (field_or F_remote_name ev (fld_remote_name ev) None)
    (field_or F_remote_ebook_uid ev (fld_remote_ebook_uid ev) None) :: unit stmt"
  from assms True obtain rows e where "rtcom_el_db_exec (Stmt ?f) el = (True, rows, e, el')"
    by (auto simp: store_remote_def Let_def split: prod.splits)
  from exec_stmt_ok [OF this] obtain k where "?f (tb el) = Inr (rows, k, tb el')" by blast
  then show ?thesis
    using True
    by (auto simp: insert_remote_def contact_of_def split: option.splits if_splits
        dest!: arg_cong [of _ _ Remotes])
qed

lemma core_contact:
  assumes core: "add_event_core ev s t el = (i, e, el')" and "i \<noteq> - 1" and new: "new_contact ev (tb el)"
  shows "Remotes (tb el') = Remotes (tb el) @ (case contact_of ev of None \<Rightarrow> [] | Some c \<Rightarrow> [c])"
proof -
  let ?el = "remember_group ev el"
  obtain ok1 ctx el1 where l: "look_up_remote ev ?el = (ok1, ctx, el1)" by (metis prod_cases3)
  define row where "row = event_values ev s t (field_or F_group_uid ev (fld_group_uid ev)
      (last_group_uid el1)) (now el1)"
  obtain ok2 r2 e2 el2 where x: "rtcom_el_db_exec (Stmt (insert_event row) :: unit sql) el1 =
      (ok2, r2, e2, el2)" by (metis prod_cases4)
  obtain ok3 el3 where st: "store_remote ev ctx el2 = (ok3, el3)" by (metis surj_pair)
  have "(i, e, el') =
      (if \<not> ok1 then (- 1, Some (core_error el1), el1)
       else if \<not> ok2 then (- 1, Some (core_error el2), el2)
       else if \<not> ok3 then (- 1, Some (core_error el3), el3)
       else (to_gint (last_rowid el2), None, el3))"
    using core l x st by (cases ok1; cases ok2) (auto simp: add_event_core_def Let_def row_def)
  with assms(2) have oks: "ok1 = True" "ok2 = True" "ok3 = True" "el' = el3" by (auto split: if_splits)
  from look_up_remote_keeps [OF l] oks have t1: "tb el1 = tb el" by simp
  from exec_stmt_ok [OF x [unfolded oks]] obtain k where
    "(insert_event row :: unit stmt) (tb el1) = Inr (r2, k, tb el2)" by blast
  from insert_event_result [OF this] have "Remotes (tb el2) = Remotes (tb el1)" by simp
  with store_remote_new [of ev ctx el2 el3] look_up_remote_new [of ev ?el ctx el1] l st oks t1 new
  show ?thesis by simp
qed

lemma contact_of_rename [simp]: "contact_of (rename_event_type ev) = contact_of ev"
  by (simp add: contact_of_def field_or_def rename_is_set split: option.split)

lemma new_contact_rename [simp]: "new_contact (rename_event_type ev) t = new_contact ev t"
  by (simp add: new_contact_def rename_is_set)

lemma only_remotes_names:
  "only_remotes t t' \<Longrightarrow> Services t' = Services t \<and> EventTypes t' = EventTypes t"
  by (auto simp: only_remotes_def)

lemma add_event_tables:
  assumes run: "rtcom_el_add_event (Some ev) el = Some (i, e, el')" and "is_open el"
    and "journal el \<noteq> JM_OFF" and "i \<noteq> - 1" and new: "new_contact ev (tb el)"
  shows "\<exists>s t. lookup_id (services el) (fld_service ev) = Some s \<and>
     lookup_id (event_types el) (fld_event_type (rename_event_type ev)) = Some t \<and>
     event_is_set ev F_local_uid \<and> i = to_gint (next_rowid (map e_id (Events (tb el)))) \<and>
     Events (tb el') = Events (tb el) @
       [(new_event_row (rename_event_type ev) s t el)\<lparr>e_id := next_rowid (map e_id (Events (tb el)))\<rparr>] \<and>
     Services (tb el') = Services (tb el) \<and> EventTypes (tb el') = EventTypes (tb el) \<and>
     Headers (tb el') = Headers (tb el) \<and>
     Remotes (tb el') = Remotes (tb el) @ (case contact_of ev of None \<Rightarrow> [] | Some c \<Rightarrow> [c])"
proof -
  from add_event_run [OF run assms(2-4)] obtain ev1 s t e2 d1 d2 where
    r: "add_event_precheck (Some ev) el = (Accepted ev1 s t, el)" "tb d1 = tb el"
      "db.more d1 = db.more el" "add_event_core ev1 s t d1 = (i, e2, d2)" "tb el' = tb d2" by blast
  from precheck_accepted [OF r(1)] have a: "ev1 = rename_event_type ev"
    "lookup_id (services el) (fld_service ev) = Some s"
    "lookup_id (event_types el) (fld_event_type ev1) = Some t" "event_is_set ev F_local_uid" by auto
  have "e2 = None" using add_event_core_keeps [OF r(4)] assms(4) by blast
  with add_event_core_keeps [OF r(4)] r(2) new_event_row_more [OF r(3)] obtain rs k tt where
    k: "(insert_event :: event_row \<Rightarrow> unit stmt) (new_event_row ev1 s t el) (tb el) = Inr (rs, Some k, tt)"
    "i = to_gint k" "only_remotes tt (tb d2)" by auto
  from core_contact [OF r(4) assms(4)] new r(2) a(1) have
    "Remotes (tb el') = Remotes (tb el) @ (case contact_of ev of None \<Rightarrow> [] | Some c \<Rightarrow> [c])"
    using r(5) by simp
  then show ?thesis
    using a r(5) k insert_event_result [OF k(1)] only_remotes_same [OF k(3)] only_remotes_names [OF k(3)]
    by (intro exI [of _ s] exI [of _ t]) (simp add: stored_row_def)
qed

section \<open>The one row of the join\<close>

text \<open>
  The state of the tables the operation is meant for: the ids of the object's hash tables are
  those of one service and one event type, headers belong to events, and ids still fit in 32 bits.
\<close>

definition registered :: "RTComElEvent \<Rightarrow> el \<Rightarrow> bool" where
  "registered ev el \<longleftrightarrow>
     (\<forall>s. lookup_id (services el) (fld_service ev) = Some s \<longrightarrow>
        length (filter (\<lambda>x. sv_id x = s) (Services (tb el))) = 1) \<and>
     (\<forall>t. lookup_id (event_types el) (fld_event_type (rename_event_type ev)) = Some t \<longrightarrow>
        length (filter (\<lambda>x. et_id x = t) (EventTypes (tb el))) = 1)"

definition headers_owned :: "tables \<Rightarrow> bool" where
  "headers_owned t \<longleftrightarrow> hd_event_id ` set (Headers t) \<subseteq> e_id ` set (Events t)"

definition ids_left :: "tables \<Rightarrow> bool" where
  "ids_left t \<longleftrightarrow> 0 < next_rowid (map e_id (Events t)) \<and> next_rowid (map e_id (Events t)) < 2 ^ 31"

lemma join_event_of: "j \<in> set (join_event s e t) \<Longrightarrow> jn_event j = e"
  by (auto simp: join_event_def)

lemma joined_by_id:
  assumes "Events t = es @ [r]" and "e_id r \<notin> e_id ` set es"
  shows "filter (\<lambda>j. e_id (jn_event j) = e_id r) (joined t) = join_event (e_service_id r) r t"
proof -
  have old: "filter (\<lambda>j. e_id (jn_event j) = e_id r) (concat (map (\<lambda>e. join_event (e_service_id e) e t) es)) = []"
  proof -
    have "e_id (jn_event j) \<noteq> e_id r" if "e \<in> set es" "j \<in> set (join_event s e t)" for e s j
      using join_event_of [OF that(2)] that(1) assms(2) by (metis image_eqI)
    then show ?thesis by (auto simp: filter_empty_conv)
  qed
  have new: "filter (\<lambda>j. e_id (jn_event j) = e_id r) (join_event s r t) = join_event s r t" for s
    using join_event_of [of _ s r t] by (simp add: filter_id_conv)
  from assms(1) old new show ?thesis by (simp add: joined_def)
qed

lemma contact_found:
  assumes "new_contact ev t" and "event_is_set ev F_local_uid"
  shows "filter (remote_is (field_or F_remote_uid ev (fld_remote_uid ev) None) (fld_local_uid ev))
       (Remotes t @ (case contact_of ev of None \<Rightarrow> [] | Some c \<Rightarrow> [c])) =
     (case contact_of ev of None \<Rightarrow> [] | Some c \<Rightarrow> [c])"
proof (cases "event_is_set ev F_remote_uid")
  case True
  with assms(1) have "filter (remote_is (fld_remote_uid ev) (fld_local_uid ev)) (Remotes t) = []"
    by (auto simp: new_contact_def list_ex_iff filter_empty_conv)
  with True show ?thesis
    by (auto simp: field_or_def contact_of_def remote_is_def split: option.splits)
next
  case False
  then show ?thesis by (auto simp: field_or_def contact_of_def remote_is_def filter_empty_conv)
qed

lemma or_null_option: "or_null (case c of None \<Rightarrow> [] | Some x \<Rightarrow> [x]) = [c]"
  by (cases c) (simp_all add: or_null_def)

lemma added_row_joined:
  assumes run: "rtcom_el_add_event (Some ev) el = Some (i, e, el')" and "i \<noteq> - 1"
    and "is_open el" and "journal el \<noteq> JM_OFF" and new: "new_contact ev (tb el)"
    and reg: "registered ev el" and own: "headers_owned (tb el)" and ids: "ids_left (tb el)"
  shows "\<exists>s t j. i = next_rowid (map e_id (Events (tb el))) \<and> event_is_set ev F_local_uid \<and>
     filter (\<lambda>j. e_id (jn_event j) = i) (joined (tb el')) = [j] \<and>
     jn_event j = (new_event_row (rename_event_type ev) s t el)\<lparr>e_id := i\<rparr> \<and>
     jn_remote j = contact_of ev"
proof -
  let ?k = "next_rowid (map e_id (Events (tb el)))"
  from add_event_tables [OF run assms(3,4,2) new] obtain s t where
    a: "lookup_id (services el) (fld_service ev) = Some s"
      "lookup_id (event_types el) (fld_event_type (rename_event_type ev)) = Some t"
      "event_is_set ev F_local_uid" "i = to_gint ?k"
    and tabs: "Events (tb el') = Events (tb el) @
         [(new_event_row (rename_event_type ev) s t el)\<lparr>e_id := ?k\<rparr>]"
      "Services (tb el') = Services (tb el)" "EventTypes (tb el') = EventTypes (tb el)"
      "Headers (tb el') = Headers (tb el)"
      "Remotes (tb el') = Remotes (tb el) @ (case contact_of ev of None \<Rightarrow> [] | Some c \<Rightarrow> [c])" by blast
  let ?r = "(new_event_row (rename_event_type ev) s t el)\<lparr>e_id := ?k\<rparr>"
  have fresh: "?k \<notin> e_id ` set (Events (tb el))" using next_rowid_fresh [of "map e_id (Events (tb el))"] by simp
  have i: "i = ?k" using a(4) ids by (simp add: ids_left_def)
  have flds: "e_service_id ?r = s" "e_event_type_id ?r = t" "e_local_uid ?r = fld_local_uid ev"
    "e_remote_uid ?r = field_or F_remote_uid ev (fld_remote_uid ev) None"
    using a(3) by (simp_all add: new_event_row_def event_values_def field_or_def rename_is_set)
  from reg a(1,2) obtain sv ty where one: "filter (\<lambda>x. sv_id x = s) (Services (tb el)) = [sv]"
    "filter (\<lambda>x. et_id x = t) (EventTypes (tb el)) = [ty]"
    using length_1 unfolding registered_def by metis
  have "hd_event_id h \<noteq> ?k" if "h \<in> set (Headers (tb el))" for h
    using own fresh that unfolding headers_owned_def by (metis image_eqI subsetD)
  then have hd: "filter (\<lambda>h. hd_event_id h = ?k \<and> hd_name h = ''message-token'') (Headers (tb el)) = []"
    by (simp add: filter_empty_conv)
  have rem: "or_null (filter (remote_is (field_or F_remote_uid ev (fld_remote_uid ev) None)
      (fld_local_uid ev)) (Remotes (tb el'))) = [contact_of ev]"
    unfolding tabs(5) contact_found [OF new a(3)] by (rule or_null_option)
  have "join_event s ?r (tb el') = [\<lparr>jn_event = ?r, jn_service = sv, jn_event_type = ty,
      jn_remote = contact_of ev, jn_header = None\<rparr>]"
    unfolding join_event_def flds(2-4) rem
    by (simp add: tabs(2-4) one hd) (simp add: or_null_def)
  with joined_by_id [OF tabs(1)] fresh flds(1) i a(3) show ?thesis
    by (intro exI [of _ s] exI [of _ t]) simp
qed

section \<open>Reading it back\<close>

definition by_id :: "int \<Rightarrow> query_arg list" where
  "by_id i = [(''id'', UintArg (word_of_int i), RTCOM_EL_OP_EQUAL)]"

lemma by_id_satisfied: "satisfies (by_id i) j \<longleftrightarrow> e_id (jn_event j) = to_gint i"
proof -
  have "field_column ''id'' = Some ''Events.id''" by (simp add: field_column_def event_fields_def)
  moreover have "column_value ''Events.id'' j = IntVal (e_id (jn_event j))"
    by (simp add: column_value_def columns_of_def)
  ultimately show ?thesis
    by (simp add: satisfies_def by_id_def meant_cond_def to_gint_def)
qed

lemma by_id_rows:
  assumes "rtcom_el_query_prepare (by_id i) (rtcom_el_query_new True) = Some (True, q)"
    and "filter (\<lambda>j. e_id (jn_event j) = to_gint i) (joined t) = [j]"
  shows "\<exists>s f. q_sql q = Some s \<and> query_rows where_holds s = Some f \<and> f t = [j]"
proof -
  have "by_id i \<noteq> []" by (simp add: by_id_def)
  from prepared_holds [OF assms(1) this] obtain w where w: "q_where_clause q = Some w"
    "where_holds w = Some (satisfies (by_id i))" by (auto simp: rtcom_el_query_get_where_clause_def)
  from assms(1) w(1) have "q_sql q = Some \<lparr>sel_group_by = RTCOM_EL_QUERY_GROUP_BY_NONE,
      sel_where = Some w, sel_limit = - 1, sel_offset = 0\<rparr>"
    by (auto simp: rtcom_el_query_prepare_def Let_def by_id_def rtcom_el_query_refresh_def
        rtcom_el_query_new_def query_object_set_def rtcom_el_query_init_def split: clause.splits)
  moreover have "satisfies (by_id i) = (\<lambda>j. e_id (jn_event j) = to_gint i)"
    by (simp add: fun_eq_iff by_id_satisfied)
  ultimately show ?thesis
    using w(2) assms(2) by (simp add: query_rows_def limit_rows_def order_rows_def)
qed

text \<open>C10: An event of a contact that Remotes does not have yet (\<open>new_contact\<close>; an event without a remote
  uid counts as one) can be read back after it was added, if its fields are ones the library stores as they are
  (\<open>storable\<close>: they fit, they are not NULL, and none is assigned by the library), its service and type are
  registered once, headers belong to events, and ids are left: the query for the id
  \<open>rtcom_el_add_event\<close> returned gives an iterator on that event, on any object that sees the same
  tables and that SQLite refuses nothing, and what \<open>rtcom_el_iter_get_full\<close> stores has this id and is equal
  to the event that was added, as \<open>rtcom_el_event_equals\<close> compares them. For a contact that is known,
  the name and the address book uid read back are those remembered (\<open>add_event_skips_abook_update\<close>).\<close>

theorem add_then_read:
  assumes "rtcom_el_add_event (Some ev) el = Some (i, e, el')" and "i \<noteq> - 1"
    and "is_open el" and "journal el \<noteq> JM_OFF" and "new_contact ev (tb el)" and "registered ev el"
    and "headers_owned (tb el)" and "ids_left (tb el)" and "storable ev"
    and "is_open d" and "script d = []" and "tb d = tb el'"
    and "rtcom_el_query_prepare (by_id i) (rtcom_el_query_new True) = Some (True, q)"
  shows "\<exists>it ev'. rtcom_el_get_events where_holds q d = (Some it, d) \<and>
     rtcom_el_iter_get_full it d ev0 = (True, ev') \<and> fld_id ev' = i \<and>
     rtcom_el_event_equals ev ev' = Some True"
proof -
  from added_row_joined [OF assms(1-8)] obtain s t j where
    i: "i = next_rowid (map e_id (Events (tb el)))" and luid: "event_is_set ev F_local_uid"
    and one: "filter (\<lambda>j. e_id (jn_event j) = i) (joined (tb el')) = [j]"
    and row: "jn_event j = (new_event_row (rename_event_type ev) s t el)\<lparr>e_id := i\<rparr>"
    and rem: "jn_remote j = contact_of ev" by blast
  have g: "to_gint i = i" using i assms(8) by (simp add: ids_left_def)
  from by_id_rows [OF assms(13), unfolded g, OF one] assms(12) obtain sl f where
    f: "q_sql q = Some sl" "query_rows where_holds sl = Some f" "f (tb d) = [j]" by auto
  let ?it = "iter_on q f False j [] d"
  from get_events_calm [OF assms(10,11) f(1,2)] f(3) have get:
    "rtcom_el_get_events where_holds q d = (Some ?it, d)" by simp
  from get_full_compared [OF iter_on_columns, of q f False j "[]" d d ev0] obtain ev' where
    full: "rtcom_el_iter_get_full ?it d ev0 = (True, ev')"
    and cmp: "compared_fields ev' = compared_fields (event_of_columns (field_values j) ev0)"
    by (auto simp: has_stmt_def)
  from stored_equals [OF assms(9) luid row rem cmp] compared_of_row(1) [OF cmp] row g get full
  show ?thesis by (intro exI [of _ ?it] exI [of _ ev']) simp
qed

definition fresh_el :: el where
  "fresh_el = sample_el\<lparr>tb := sample_tables\<lparr>Remotes := [], Headers := []\<rparr>\<rparr>"

lemma fresh_add: "map_option fst (rtcom_el_add_event (Some (sample_event ''CALL'')) fresh_el) = Some 4"
  by code_simp

theorem add_then_read_witness:
  "\<exists>e el' q it ev'. rtcom_el_add_event (Some (sample_event ''CALL'')) fresh_el = Some (4, e, el') \<and>
     rtcom_el_get_events where_holds q (fresh_el\<lparr>tb := tb el'\<rparr>) = (Some it, fresh_el\<lparr>tb := tb el'\<rparr>) \<and>
     rtcom_el_iter_get_full it (fresh_el\<lparr>tb := tb el'\<rparr>) rtcom_el_event_new = (True, ev') \<and>
     rtcom_el_event_equals (sample_event ''CALL'') ev' = Some True"
proof -
  let ?ev = "sample_event ''CALL''"
  from fresh_add obtain e el' where run: "rtcom_el_add_event (Some ?ev) fresh_el = Some (4, e, el')" by auto
  have "map_option fst (rtcom_el_query_prepare (by_id 4) (rtcom_el_query_new True)) = Some True"
    by code_simp
  then obtain q where q: "rtcom_el_query_prepare (by_id 4) (rtcom_el_query_new True) = Some (True, q)" by auto
  have "is_open fresh_el" "journal fresh_el \<noteq> JM_OFF" "script fresh_el = []"
    by (simp_all add: fresh_el_def sample_el_def)
  moreover have "new_contact ?ev (tb fresh_el)" "headers_owned (tb fresh_el)"
    by (simp_all add: new_contact_def headers_owned_def fresh_el_def)
  moreover have "ids_left (tb fresh_el)" by code_simp
  moreover have "storable ?ev" by code_simp
  moreover have "registered ?ev fresh_el"
  proof -
    have "lookup_id (services fresh_el) (fld_service ?ev) = Some 1"
      "lookup_id (event_types fresh_el) (fld_event_type (rename_event_type ?ev)) = Some 1"
      "length (filter (\<lambda>x. sv_id x = 1) (Services (tb fresh_el))) = 1"
      "length (filter (\<lambda>x. et_id x = 1) (EventTypes (tb fresh_el))) = 1" by code_simp+
    then show ?thesis by (simp add: registered_def)
  qed
  ultimately show ?thesis
    using add_then_read [OF run, of "fresh_el\<lparr>tb := tb el'\<rparr>" q rtcom_el_event_new] q run by auto
qed

end
