(* ===== verification/El_Bus.thy ===== *)
theory El_Bus
  imports El_Add_Read
begin

text \<open>
  The other end of the bus: \<open>_dbus_filter_callback\<close>, which turns the messages of all processes
  into signals of the object, and the life of an object (\<open>rtcom_el_init\<close>, \<open>rtcom_el_dispose\<close>,
  \<open>rtcom_el_finalize\<close>).
\<close>

section \<open>Messages become signals\<close>

definition dbus_interface :: string where
  "dbus_interface = ''rtcomeventlogger.signal''"

text \<open>The signal a message stands for; \<open>DbReopen\<close> stands for none.\<close>

definition signal_of :: "dbus_message \<Rightarrow> el_signal option" where
  "signal_of msg =
     (let member = dm_member msg;
          event_id = dm_event_id msg; local_uid = dm_local_uid msg; remote_uid = dm_remote_uid msg;
          remote_ebook_uid = dm_remote_ebook_uid msg; group_uid = dm_group_uid msg;
          service = dm_service msg
      in if member = ''NewEvent''
         then Some (NEW_EVENT event_id local_uid remote_uid remote_ebook_uid group_uid service)
         else if member = ''EventUpdated''
         then Some (EVENT_UPDATED event_id local_uid remote_uid remote_ebook_uid group_uid service)
         else if member = ''EventDeleted''
         then Some (EVENT_DELETED event_id local_uid remote_uid remote_ebook_uid group_uid service)
         else if member = ''AllDeleted'' then Some (ALL_DELETED service)
         else if member = ''RefreshHint'' then Some REFRESH_HINT
         else None)"

definition g_signal_emit :: "el_signal \<Rightarrow> el \<Rightarrow> el" where
  "g_signal_emit s el = el\<lparr>emitted := emitted el @ [s]\<rparr>"

text \<open>
  \<open>args_ok\<close> is what \<open>dbus_message_get_args\<close> returns: whether the message has the six arguments of
  the types it is asked for.
\<close>

definition dbus_filter_callback :: "string option \<Rightarrow> bool \<Rightarrow> dbus_message \<Rightarrow> el \<Rightarrow> el" where
  "dbus_filter_callback interface args_ok msg el =
     (if interface = Some dbus_interface \<and> args_ok
      then case signal_of msg of
             Some s \<Rightarrow> g_signal_emit s el
           | None \<Rightarrow>
               if dm_member msg = ''DbReopen'' \<and> \<not> is_open el
               then (case ensure_db False el of
                       (True, el1) \<Rightarrow> g_signal_emit REFRESH_HINT el1
                     | (False, el1) \<Rightarrow> el1)
               else el
      else el)"

section \<open>The life of an object\<close>

text \<open>
  The result tells whether the object listens to the bus; \<open>filter_added\<close> is what
  \<open>dbus_connection_add_filter\<close> returns. Without the bus the database is opened by the first
  operation.
\<close>

definition rtcom_el_init :: "bool \<Rightarrow> el \<Rightarrow> bool \<times> el" where
  "rtcom_el_init filter_added el0 =
     (let el = el0\<lparr>services := None, event_types := None, flags := None, is_open := False,
                   last_group_uid := None, plugins := Map.empty\<rparr>
      in if \<not> bus_up el then (False, el)
         else if \<not> filter_added then (False, el\<lparr>bus_up := False\<rparr>)
         else (True, snd (ensure_db True el)))"

definition rtcom_el_dispose :: "el \<Rightarrow> el" where
  "rtcom_el_dispose el = el\<lparr>bus_up := False\<rparr>"

definition unload_plugins :: "el \<Rightarrow> el" where
  "unload_plugins el = el\<lparr>plugins := Map.empty\<rparr>"

definition free_db_representation :: "el \<Rightarrow> el" where
  "free_db_representation el = el\<lparr>services := None, event_types := None, flags := None\<rparr>"

text \<open>
  \<open>rtcom_el_db_close\<close> asserts that there is a connection: \<open>None\<close> is the abort. Closing rolls an
  open transaction back.
\<close>

definition rtcom_el_db_close :: "el \<Rightarrow> el option" where
  "rtcom_el_db_close el = (if is_open el then Some (undo el) else None)"

definition rtcom_el_finalize :: "el \<Rightarrow> el option" where
  "rtcom_el_finalize el =
     map_option (\<lambda>el1. el1\<lparr>is_open := False\<rparr>)
       (rtcom_el_db_close (free_db_representation (unload_plugins (el\<lparr>last_group_uid := None\<rparr>))))"

section \<open>Nobody answers a message with a message\<close>

lemma lookup_table_sent:
  fixes el :: el
  shows "rtcom_el_db_cache_lookup_table sel el = (r, el') \<Longrightarrow> sent el' = sent el"
  by (auto simp: rtcom_el_db_cache_lookup_table_def split: prod.splits dest: exec_sent)

lemma build_db_representation_sent [simp]: "sent (build_db_representation el) = sent el"
  by (auto simp: build_db_representation_def dest!: lookup_table_sent split: prod.splits)

lemma init_event_types_sent: "sent (snd (init_event_types p ets el)) = sent el"
  by (induction p ets el rule: init_event_types.induct) (auto split: prod.splits dest: exec_sent)

lemma init_flags_sent: "sent (snd (init_flags s fls el)) = sent el"
  by (induction s fls el rule: init_flags.induct) (auto split: prod.splits dest: exec_sent)

lemma init_plugin_error_sent [simp]: "init_plugin_error p el = (i, p', el') \<Longrightarrow> sent el' = sent el"
  by (auto simp: init_plugin_error_def rollback_sent)

lemma init_new_plugin_sent:
  assumes "init_new_plugin name desc service plugin el = (i, p, el')"
  shows "sent el' = sent el"
proof -
  have types: "sent d' = sent d" if "init_event_types pid ets d = (ok, d')" for pid ets d ok d'
    using init_event_types_sent [of pid ets d] that by simp
  have fls: "sent d' = sent d" if "init_flags sid fs d = (ok, d')" for sid fs d ok d'
    using init_flags_sent [of sid fs d] that by simp
  from assms show ?thesis
    by (auto simp: init_new_plugin_def Let_def split: prod.splits if_splits option.splits
        dest!: exec_sent types fls init_plugin_error_sent)
qed

lemma init_plugin_sent:
  assumes "init_plugin plugin el = (i, p, el')"
  shows "sent el' = sent el"
  using assms
  by (auto simp: init_plugin_def Let_def split: prod.splits if_splits option.splits
      dest!: exec_sent init_new_plugin_sent)

lemma load_plugin_sent: "sent (snd (load_plugin file el)) = sent el"
  by (auto simp: load_plugin_def split: option.splits prod.splits dest!: init_plugin_sent)

lemma scan_plugin_files_sent: "sent (snd (scan_plugin_files files ret el)) = sent el"
proof (induction files ret el rule: scan_plugin_files.induct)
  case (2 f fs ret el)
  then show ?case using load_plugin_sent [of f el] by (auto split: prod.splits)
qed simp

lemma load_plugins_sent: "sent (load_plugins el) = sent el"
  by (simp add: load_plugins_def Let_def scan_plugins_dir_def scan_plugin_files_sent split: option.split)

lemma ensure_db_sent: "sent (snd (ensure_db False el)) = sent el"
  by (auto simp: ensure_db_def Let_def load_plugins_sent connect_def split: list.split option.split)

text \<open>C33: Receiving a message never sends one, whatever the message is and in whatever state the
  object is: \<open>DbReopen\<close>, with which \<open>_ensure_db\<close> tells the others that it could open the database
  again, makes them open theirs without a further \<open>DbReopen\<close>. An object whose database is open ignores it,
  and no message changes the tables of an open database.\<close>

theorem bus_no_echo:
  "sent (dbus_filter_callback interface args_ok msg el) = sent el \<and>
   (is_open el \<longrightarrow> tb (dbus_filter_callback interface args_ok msg el) = tb el)"
proof -
  have "sent el1 = sent el" if "ensure_db False el = (ok, el1)" for ok el1
    using ensure_db_sent [of el] that by simp
  then show ?thesis
    by (auto simp: dbus_filter_callback_def g_signal_emit_def split: prod.splits bool.splits option.splits)
qed

theorem bus_no_echo_witness:
  "sent (dbus_filter_callback (Some dbus_interface) True
     \<lparr>dm_member = ''DbReopen'', dm_event_id = - 1, dm_local_uid = [], dm_remote_uid = [],
      dm_remote_ebook_uid = [], dm_group_uid = [], dm_service = []\<rparr> sample_el) = [] \<and>
   tb (dbus_filter_callback (Some dbus_interface) True
     \<lparr>dm_member = ''DbReopen'', dm_event_id = - 1, dm_local_uid = [], dm_remote_uid = [],
      dm_remote_ebook_uid = [], dm_group_uid = [], dm_service = []\<rparr> sample_el) = tb sample_el"
proof -
  have "sent sample_el = []" "is_open sample_el" by (simp_all add: sample_el_def)
  with bus_no_echo [of "Some dbus_interface" True _ sample_el] show ?thesis by simp
qed

section \<open>What one process adds, the others hear\<close>

lemma exec_script:
  assumes "rtcom_el_db_exec q d = (ok, rows, e, d')" and "script d = []"
  shows "script d' = []"
  using assms by (auto simp: exec_calm split: sum.splits prod.splits)

lemma transaction_script:
  assumes "rtcom_el_db_transaction excl d = (ok, e, d')" and "script d = []"
  shows "script d' = []"
  using assms by (auto simp: rtcom_el_db_transaction_def split: if_splits prod.splits dest: exec_script)

lemma commit_script:
  assumes "rtcom_el_db_commit d = (ok, e, d')" and "script d = []"
  shows "script d' = []"
  using assms by (auto simp: rtcom_el_db_commit_def split: if_splits prod.splits dest: exec_script)

lemma look_up_remote_script:
  assumes "look_up_remote ev el = (ok, ctx, el')" and "script el = []"
  shows "script el' = []"
  using assms by (auto simp: look_up_remote_def Let_def split: if_splits prod.splits dest: exec_script)

lemma store_remote_script:
  assumes "store_remote ev ctx el = (ok, el')" and "script el = []"
  shows "script el' = []"
  using assms
  by (auto simp: store_remote_def Let_def split: if_splits prod.splits dest!: exec_script)

lemma add_event_core_script:
  assumes "add_event_core ev s t el = (i, e, el')" and "script el = []"
  shows "script el' = []"
  using assms
  by (auto simp: add_event_core_def Let_def split: if_splits prod.splits
      dest!: look_up_remote_script exec_script store_remote_script)

lemma add_body_script:
  assumes "in_transaction True (add_event_body ev s t) el = Some (Some i, e, el')" and "script el = []"
  shows "script el' = []"
proof -
  obtain ok1 e1 d1 where t: "rtcom_el_db_transaction True el = (ok1, e1, d1)" by (metis prod_cases3)
  obtain i2 e2 d2 where c: "add_event_core ev s t d1 = (i2, e2, d2)" by (metis prod_cases3)
  obtain ok3 e3 d3 where k: "rtcom_el_db_commit d2 = (ok3, e3, d3)" by (metis prod_cases3)
  from assms(1) t c k have "el' = d3"
    by (cases ok1; cases ok3) (auto simp: in_transaction_def add_event_body_def split: if_splits)
  with transaction_script [OF t assms(2)] add_event_core_script [OF c] commit_script [OF k]
  show ?thesis by simp
qed

lemma added_before_announced:
  assumes run: "in_transaction True (add_event_body ev s t) el = Some (Some i, e, el')"
    and j: "journal el \<noteq> JM_OFF"
  shows "txn el' = None \<and> journal el' \<noteq> JM_OFF \<and> sent el' = sent el \<and> bus_up el' = bus_up el"
proof -
  from add_body.success_commits [OF run] j obtain e2 d1 d2 where
    d: "db.more d1 = db.more el" "add_event_body ev s t d1 = Some (Some i, e2, d2)"
      "txn el' = None" "db.more el' = db.more d2" "journal el' = journal el" by auto
  from d(2) obtain e3 where c: "add_event_core ev s t d1 = (i, e3, d2)"
    by (auto simp: add_event_body_def split: prod.splits if_splits)
  from add_event_core_sent [OF c] add_event_core_keeps [OF c] el_more_eq(8,9) [OF d(1)]
    el_more_eq(8,9) [OF d(4)] d(3,5) j show ?thesis by simp
qed

lemma emit_dbus_calm:
  assumes "script el = []" and "0 < i" and "bus_up el" and "dbus_data_rows i (tb el) = [(l, r, eb, g)]"
    and "m \<noteq> ''EventDeleted''"
  shows "sent (emit_dbus m i service el) = sent el @
     [\<lparr>dm_member = m, dm_event_id = i, dm_local_uid = or_empty l, dm_remote_uid = or_empty r,
       dm_remote_ebook_uid = or_empty eb, dm_group_uid = or_empty g, dm_service = or_empty service\<rparr>]"
  using assms by (simp add: emit_dbus_def get_events_dbus_data_def)

lemma added_row_data:
  assumes run: "rtcom_el_add_event (Some ev) el = Some (i, e, el')" and "i \<noteq> - 1"
    and "is_open el" and "journal el \<noteq> JM_OFF" and new: "new_contact ev (tb el)"
    and ids: "ids_left (tb el)"
  shows "dbus_data_rows i (tb el') =
     [(map_option rm_local_uid (contact_of ev), field_or F_remote_uid ev (fld_remote_uid ev) None,
       Option.bind (contact_of ev) rm_abook_uid, event_group ev el)]"
proof -
  let ?k = "next_rowid (map e_id (Events (tb el)))"
  from add_event_tables [OF run assms(3,4,2) new] obtain s t where
    luid: "event_is_set ev F_local_uid" and k: "i = to_gint ?k"
    and ev: "Events (tb el') = Events (tb el) @
         [(new_event_row (rename_event_type ev) s t el)\<lparr>e_id := ?k\<rparr>]"
    and rm: "Remotes (tb el') = Remotes (tb el) @ (case contact_of ev of None \<Rightarrow> [] | Some c \<Rightarrow> [c])" by blast
  let ?r = "(new_event_row (rename_event_type ev) s t el)\<lparr>e_id := ?k\<rparr>"
  have i: "i = ?k" using k ids by (simp add: ids_left_def)
  have "?k \<notin> set (map e_id (Events (tb el)))" by (rule next_rowid_fresh)
  then have old: "filter (\<lambda>e. e_id e = i) (Events (tb el)) = []"
    unfolding filter_empty_conv i set_map by (metis image_eqI)
  have flds: "e_local_uid ?r = fld_local_uid ev" "e_group_uid ?r = event_group ev el"
    "e_remote_uid ?r = field_or F_remote_uid ev (fld_remote_uid ev) None"
    using luid by (simp_all add: new_event_row_def event_values_def field_or_def rename_is_set event_group_def)
  have one: "filter (\<lambda>e. e_id e = i) (Events (tb el')) = [?r]" unfolding ev filter_append old by (simp add: i)
  show ?thesis
    unfolding dbus_data_rows_def one
    by (simp only: list.map concat.simps append_Nil2 flds rm contact_found [OF new luid])
      (cases "contact_of ev"; simp)
qed

text \<open>C18: When \<open>rtcom_el_add_event\<close> of one process succeeds, on an open database with a journal, with SQLite
  refusing nothing, the bus there, ids left, and a contact Remotes does not have yet (\<open>new_contact\<close>; an event without
  a remote uid counts as one), then exactly one message is sent, and every other process that receives it
  emits the signal new-event with the id and the service of the event, its remote uid, its group (or the last group
  of the adding object), and the local uid and the address book uid of the contact that was added to Remotes: empty
  strings stand for what there is not. The local uid is not the event's: without a remote uid there is no
  contact, and it is empty although the event has one.\<close>

theorem add_event_heard:
  assumes "rtcom_el_add_event (Some ev) a = Some (i, e, a')" and "i \<noteq> - 1"
    and "is_open a" and "journal a \<noteq> JM_OFF" and "script a = []" and "bus_up a"
    and "new_contact ev (tb a)" and "ids_left (tb a)"
  shows "\<exists>m. sent a' = sent a @ [m] \<and>
     emitted (dbus_filter_callback (Some dbus_interface) True m b) = emitted b @
       [NEW_EVENT i (or_empty (map_option rm_local_uid (contact_of ev)))
          (or_empty (field_or F_remote_uid ev (fld_remote_uid ev) None))
          (or_empty (Option.bind (contact_of ev) rm_abook_uid))
          (or_empty (event_group ev a)) (or_empty (fld_service ev))]"
  using assms(1,3)
proof (cases rule: add_event_cases)
  case rejected
  with assms(2) show ?thesis by simp
next
  case (ran ev1 s t r e1 el1)
  from announce_some [OF ran(3) assms(2)] have r: "r = Some i" by simp
  from add_body_script [OF ran(2) [unfolded r] assms(5)] have calm: "script el1 = []" .
  from precheck_accepted [OF ran(1)] have ev1: "ev1 = rename_event_type ev" by auto
  from add_event_tables [OF assms(1,3,4,2,7)] assms(8) have pos: "0 < i" by (auto simp: ids_left_def)
  have a': "a' = emit_dbus ''NewEvent'' i (fld_service ev1) el1"
    using ran(3) r pos by (simp add: announce_event_def)
  note before = added_before_announced [OF ran(2) [unfolded r] assms(4)]
  have tabs: "tb el1 = tb a'" "sent el1 = sent a" "bus_up el1"
    using before assms(6) quiet_auto [OF emit_dbus_quiet, of el1 "''NewEvent''" i "fld_service ev1"] a'
    by simp_all
  from added_row_data [OF assms(1,2,3,4,7,8)] have data: "dbus_data_rows i (tb el1) =
     [(map_option rm_local_uid (contact_of ev), field_or F_remote_uid ev (fld_remote_uid ev) None,
       Option.bind (contact_of ev) rm_abook_uid, event_group ev a)]" by (simp add: tabs)
  have service: "fld_service (rename_event_type ev) = fld_service ev"
    by (cases rule: rename_event_type_cases [of ev])
      (simp_all add: set_event_type_def set_outgoing_def event_set_field_def)
  from emit_dbus_calm [OF calm pos tabs(3) data, of "''NewEvent''" "fld_service ev1"] tabs(2) a'
  show ?thesis by (simp add: dbus_filter_callback_def signal_of_def g_signal_emit_def ev1 service)
qed

theorem add_event_heard_witness:
  "\<exists>e a' m. rtcom_el_add_event (Some (sample_event ''CALL'')) fresh_el = Some (4, e, a') \<and>
     sent a' = [m] \<and>
     emitted (dbus_filter_callback (Some dbus_interface) True m sample_el) =
       [NEW_EVENT 4 ''me'' ''bob'' [] ''g'' ''CALL'']"
proof -
  let ?ev = "sample_event ''CALL''"
  from fresh_add obtain e a' where run: "rtcom_el_add_event (Some ?ev) fresh_el = Some (4, e, a')" by auto
  have st: "is_open fresh_el" "journal fresh_el \<noteq> JM_OFF" "script fresh_el = []" "bus_up fresh_el"
    "sent fresh_el = []" "emitted sample_el = []"
    by (simp_all add: fresh_el_def sample_el_def)
  have new: "new_contact ?ev (tb fresh_el)" by (simp add: new_contact_def fresh_el_def)
  have ids: "ids_left (tb fresh_el)" by code_simp
  have ne: "(4 :: int) \<noteq> - 1" by simp
  have vals: "map_option rm_local_uid (contact_of ?ev) = Some ''me''"
    "field_or F_remote_uid ?ev (fld_remote_uid ?ev) None = Some ''bob''"
    "Option.bind (contact_of ?ev) rm_abook_uid = None" "event_group ?ev fresh_el = Some ''g''"
    "fld_service ?ev = Some ''CALL''" by code_simp+
  from add_event_heard [OF run ne st(1-4) new ids, of sample_el] run show ?thesis
    by (simp add: vals st or_empty_def)
qed

end
