(* ===== verification/El_Steady.thy ===== *)
theory El_Steady
  imports El_Plugin_Props El_Bus El_Delete_Props
begin

text \<open>
  What opening a database and registering its plugins leaves alone, so that a database that was opened is
  where it was: its events, its group cache and its journal.
\<close>

section \<open>Steps that keep the events\<close>

text \<open>Outside a transaction and with a journal, such a step writes neither events nor the group cache.\<close>

definition keeps_events :: "tables \<Rightarrow> tables \<Rightarrow> bool" where
  "keeps_events t t' \<longleftrightarrow> Events t' = Events t \<and> GroupCache t' = GroupCache t"

definition plugin_dirs :: "el \<Rightarrow> plugin_file list option list" where
  "plugin_dirs el = [env_plugins el, system_plugins el, user_plugins el]"

definition steady :: "el \<Rightarrow> el \<Rightarrow> bool" where
  "steady el el' \<longleftrightarrow>
     is_open el' = is_open el \<and> plugin_dirs el' = plugin_dirs el \<and>
     (txn el = None \<and> journal el \<noteq> JM_OFF \<longrightarrow>
        txn el' = None \<and> journal el' = journal el \<and> keeps_events (tb el) (tb el'))"

lemma keeps_events_refl [simp]: "keeps_events t t"
  by (simp add: keeps_events_def)

lemma steady_refl [simp]: "steady el el"
  by (simp add: steady_def)

lemma steady_trans [trans]: "steady a b \<Longrightarrow> steady b c \<Longrightarrow> steady a c"
  by (auto simp: steady_def keeps_events_def)

text \<open>Changes of the object's own fields.\<close>

lemma steady_fields [simp]:
  "steady el (el'\<lparr>services := s\<rparr>) = steady el el'" "steady el (el'\<lparr>event_types := s\<rparr>) = steady el el'"
  "steady el (el'\<lparr>flags := s\<rparr>) = steady el el'" "steady el (el'\<lparr>plugins := ps\<rparr>) = steady el el'"
  "steady el (el'\<lparr>emitted := es\<rparr>) = steady el el'"
  by (simp_all add: steady_def plugin_dirs_def)

lemma plugin_dirs_more:
  fixes d d' :: el
  assumes "db.more d' = db.more d"
  shows "plugin_dirs d' = plugin_dirs d"
  using assms by (cases d; cases d') (simp add: plugin_dirs_def)

lemma steady_exec:
  fixes el :: el
  assumes "rtcom_el_db_exec (Stmt f) el = (ok, rows, e, el')"
    and "\<And>rs i t'. f (tb el) = Inr (rs, i, t') \<Longrightarrow> keeps_events (tb el) t'"
  shows "steady el el'"
  using exec_stmt_auto [OF assms(1)] exec_el(1) [OF assms(1)] plugin_dirs_more [OF exec_more [OF assms(1)]]
    assms(2)
  by (cases ok) (auto simp: steady_def)

lemma steady_inserts:
  "insert_plugin n d t = Inr (rs, i, t') \<Longrightarrow> keeps_events t t'"
  "insert_service n p c t = Inr (rs, i, t') \<Longrightarrow> keeps_events t t'"
  "insert_eventtype n p c t = Inr (rs, i, t') \<Longrightarrow> keeps_events t t'"
  "insert_flag p n v c t = Inr (rs, i, t') \<Longrightarrow> keeps_events t t'"
  "insert_header j hk hv t = Inr (rs, i, t') \<Longrightarrow> keeps_events t t'"
  "select_rows q t = Inr (rows, i, t') \<Longrightarrow> keeps_events t t'"
  by (auto simp: insert_plugin_def insert_service_def insert_eventtype_def insert_flag_def insert_header_def
      select_rows_def keeps_events_def Let_def split: if_splits option.splits)

lemma steady_statements:
  fixes el :: el
  shows "rtcom_el_db_exec (Stmt (insert_plugin n d) :: unit sql) el = (ok, rs, e, el') \<Longrightarrow> steady el el'"
    "rtcom_el_db_exec (Stmt (insert_service n p c) :: unit sql) el = (ok, rs, e, el') \<Longrightarrow> steady el el'"
    "rtcom_el_db_exec (Stmt (insert_eventtype n p c) :: unit sql) el = (ok, rs, e, el') \<Longrightarrow> steady el el'"
    "rtcom_el_db_exec (Stmt (insert_flag p n v c) :: unit sql) el = (ok, rs, e, el') \<Longrightarrow> steady el el'"
    "rtcom_el_db_exec (Stmt (insert_header j hk hv) :: unit sql) el = (ok, rs, e, el') \<Longrightarrow> steady el el'"
    "rtcom_el_db_exec (Stmt (select_rows q)) el = (ok, rows, e, el') \<Longrightarrow> steady el el'"
  by (erule steady_exec, erule steady_inserts)+

section \<open>Registering a plugin\<close>

lemma init_event_types_steady: "steady el (snd (init_event_types p ets el))"
proof (induction p ets el rule: init_event_types.induct)
  case (2 p et ets el)
  obtain ok rows e el1 where x: "rtcom_el_db_exec
      (Stmt (insert_eventtype (evt_name et) p (evt_desc et)) :: unit sql) el = (ok, rows, e, el1)"
    by (rule prod_cases4)
  note s = steady_statements(3) [OF x]
  show ?case
  proof (cases "in_table (event_types el) (evt_name et) \<or> \<not> ok")
    case True
    with x s show ?thesis by auto
  next
    case False
    let ?d = "el1\<lparr>event_types := table_insert (evt_name et) (to_gint (last_rowid el1)) (event_types el1)\<rparr>"
    from False x "2.IH" have "steady ?d (snd (init_event_types p ets ?d))" by auto
    moreover from s have "steady el ?d" by simp
    ultimately have "steady el (snd (init_event_types p ets ?d))" by (rule steady_trans [rotated])
    with False x show ?thesis by simp
  qed
qed simp

lemma init_flags_steady: "steady el (snd (init_flags s fls el))"
proof (induction s fls el rule: init_flags.induct)
  case (2 s fl fls el)
  obtain ok rows e el1 where x: "rtcom_el_db_exec
      (Stmt (insert_flag s (flg_name fl) (to_gint (flg_value fl)) (flg_desc fl)) :: unit sql) el =
      (ok, rows, e, el1)" by (rule prod_cases4)
  note s = steady_statements(4) [OF x]
  show ?case
  proof (cases "in_table (flags el) (flg_name fl) \<or> \<not> ok")
    case True
    with x s show ?thesis by auto
  next
    case False
    let ?d = "el1\<lparr>flags := table_insert (flg_name fl) (to_gint (last_rowid el1)) (flags el1)\<rparr>"
    from False x "2.IH" have "steady ?d (snd (init_flags s fls ?d))" by auto
    moreover from s have "steady el ?d" by simp
    ultimately have "steady el (snd (init_flags s fls ?d))" by (rule steady_trans [rotated])
    with False x show ?thesis by simp
  qed
qed simp

lemma init_plugin_error_steady: "steady el (snd (snd (init_plugin_error plugin el)))"
proof -
  obtain ok e el' where r: "rtcom_el_db_rollback el = (ok, e, el')" by (metis prod_cases3)
  from el_more_eq(1) [OF rollback_more [OF r]] plugin_dirs_more [OF rollback_more [OF r]]
  have "steady el el'" using r by (auto simp: steady_def rtcom_el_db_rollback_def)
  with r show ?thesis by (simp add: init_plugin_error_def)
qed

lemma init_new_plugin_steady:
  assumes "init_new_plugin name desc service plugin el = (i, p, el')"
  shows "steady el el'"
proof -
  have err: "steady d d'" if "init_plugin_error q d = (j, q', d')" for q d j q' d'
    using init_plugin_error_steady [of d q] that by simp
  have types: "steady d d'" if "init_event_types pid ets d = (ok, d')" for pid ets d ok d'
    using init_event_types_steady [of d pid ets] that by simp
  have fls: "steady d d'" if "init_flags sid fs d = (ok, d')" for sid fs d ok d'
    using init_flags_steady [of d sid fs] that by simp
  have own: "steady (d\<lparr>services := s\<rparr>) d' \<longleftrightarrow> steady d d'" for d d' :: el and s
    by (simp add: steady_def plugin_dirs_def)
  from assms show ?thesis
    by (auto simp: init_new_plugin_def Let_def own split: prod.splits if_splits option.splits
        dest!: steady_statements(1,2) types fls err) (meson steady_trans)+
qed

text \<open>A plugin's own code runs between the statements; it is trusted not to write events.\<close>

definition harmless_init :: "(tables \<Rightarrow> tables) option \<Rightarrow> bool" where
  "harmless_init f \<longleftrightarrow> (\<forall>g t. f = Some g \<longrightarrow> keeps_events t (g t))"

lemma init_plugin_steady:
  assumes "init_plugin plugin el = (i, p, el')" and "harmless_init (pg_init plugin)"
  shows "steady el el'"
proof -
  define d where "d = (case pg_init plugin of None \<Rightarrow> el | Some f \<Rightarrow> el\<lparr>tb := f (tb el)\<rparr>)"
  from assms(2) have "steady el d"
    by (auto simp: d_def steady_def plugin_dirs_def harmless_init_def split: option.split)
  moreover from assms(1) have "steady d el'"
    by (auto simp: init_plugin_def Let_def d_def [symmetric] split: prod.splits if_splits option.splits
        dest!: steady_statements(6) init_new_plugin_steady intro: steady_trans)
  ultimately show ?thesis by (rule steady_trans)
qed

section \<open>Loading plugins and opening\<close>

definition harmless_file :: "plugin_file \<Rightarrow> bool" where
  "harmless_file file \<longleftrightarrow> (\<forall>m. pf_module file = Some m \<longrightarrow> harmless_init (sym_init m))"

definition harmless_dir :: "plugin_file list option \<Rightarrow> bool" where
  "harmless_dir dir \<longleftrightarrow> (\<forall>files. dir = Some files \<longrightarrow> list_all harmless_file files)"

lemma load_plugin_steady:
  assumes "load_plugin file el = (ok, el')" and "harmless_file file"
  shows "steady el el'"
  using assms
  by (auto simp: load_plugin_def harmless_file_def split: option.splits prod.splits if_splits
      dest!: init_plugin_steady)

lemma scan_plugin_files_steady:
  "list_all harmless_file files \<Longrightarrow> steady el (snd (scan_plugin_files files ret el))"
proof (induction files ret el rule: scan_plugin_files.induct)
  case (2 f fs ret el)
  obtain ok el1 where l: "load_plugin f el = (ok, el1)" by (metis surj_pair)
  with load_plugin_steady [OF l] 2 show ?case
    by (cases "pf_regular f \<and> has_module_suffix (pf_name f)") (auto intro: steady_trans)
qed simp

lemma scan_plugins_dir_steady: "harmless_dir dir \<Longrightarrow> steady el (snd (scan_plugins_dir dir el))"
  by (auto simp: scan_plugins_dir_def harmless_dir_def scan_plugin_files_steady split: option.split)

lemma load_plugins_steady:
  assumes "list_all harmless_dir (plugin_dirs el)"
  shows "steady el (load_plugins el)"
proof -
  let ?d = "snd (scan_plugins_dir (system_plugins el) el)"
  from assms have sys: "steady el ?d"
    by (intro scan_plugins_dir_steady) (simp add: plugin_dirs_def)
  then have "user_plugins ?d = user_plugins el" by (simp add: steady_def plugin_dirs_def)
  with assms have "steady ?d (snd (scan_plugins_dir (user_plugins ?d) ?d))"
    by (intro scan_plugins_dir_steady) (simp add: plugin_dirs_def)
  from steady_trans [OF sys this] assms show ?thesis
    by (simp add: load_plugins_def Let_def scan_plugins_dir_steady plugin_dirs_def)
qed

lemma build_db_representation_steady: "steady el (build_db_representation el)"
proof -
  have look: "steady d d'" if "rtcom_el_db_cache_lookup_table sel d = (r, d')"
    for sel and d d' :: el and r
    using that by (auto simp: rtcom_el_db_cache_lookup_table_def split: prod.splits
        dest!: steady_statements(6))
  show ?thesis
    by (auto simp: build_db_representation_def split: prod.splits dest!: look intro: steady_trans)
qed

text \<open>
  What is asked of the files an attempt finds: the group cache is sound, and the conversion left no transaction open.
\<close>

definition sound_attempt :: "open_attempt \<Rightarrow> bool" where
  "sound_attempt a \<longleftrightarrow> (\<forall>t x. op_opened a = Some (t, x) \<longrightarrow> x = None \<and> cache_ok t)"

lemma ensure_db_opens:
  assumes run: "ensure_db reopen el = (ok, el')" and "\<not> is_open el"
    and a: "list_all sound_attempt (attempts el)" and p: "list_all harmless_dir (plugin_dirs el)"
  shows "if is_open el' then txn el' = None \<and> journal el' = JM_TRUNCATE \<and> cache_ok (tb el') else \<not> ok"
proof (cases "\<exists>a rest t x. attempts el = a # rest \<and> op_dir a \<and> op_converted a \<and> op_opened a = Some (t, x)")
  case False
  with assms show ?thesis by (auto simp: ensure_db_def Let_def split: list.splits if_splits option.splits)
next
  case True
  then obtain a rest t x where
    op: "attempts el = a # rest" "op_dir a" "op_converted a" "op_opened a = Some (t, x)" by blast
  with a have t: "x = None" "cache_ok t" by (auto simp: sound_attempt_def)
  let ?d = "connect (t, x) (el\<lparr>attempts := rest\<rparr>)"
  let ?e = "load_plugins (build_db_representation ?d)"
  have d: "txn ?d = None" "journal ?d = JM_TRUNCATE" "is_open ?d" "tb ?d = t" "plugin_dirs ?d = plugin_dirs el"
    by (simp_all add: connect_def plugin_dirs_def t)
  from build_db_representation_steady [of ?d] d have
    "list_all harmless_dir (plugin_dirs (build_db_representation ?d))" by (simp add: steady_def p)
  from steady_trans [OF build_db_representation_steady load_plugins_steady [OF this]] d
  have e: "txn ?e = None" "journal ?e = JM_TRUNCATE" "is_open ?e" "keeps_events t (tb ?e)"
    by (simp_all add: steady_def)
  then have ne: "journal ?e \<noteq> JM_OFF" by simp
  from e(4) cache_ok_cong [of "tb ?e" t] t(2) have "cache_ok (tb ?e)" by (simp add: keeps_events_def)
  with run op assms(2) e emit_dbus_auto [OF e(1) ne] show ?thesis
    by (auto simp: ensure_db_def Let_def split: if_splits)
qed

end
