(* ===== verification/El_Read.thy ===== *)
theory El_Read
  imports El_Update_Props
begin

text \<open>
  The queries of src/eventlogger.c that answer from the tables: headers, remote contacts,
  the group cache and counts.
\<close>

section \<open>Headers\<close>

text \<open>The hash table of \<open>rtcom_el_fetch_event_headers\<close>; \<open>None\<close> is NULL.\<close>

definition rtcom_el_fetch_event_headers :: "int \<Rightarrow> el \<Rightarrow> (string \<rightharpoonup> string) option \<times> el" where
  "rtcom_el_fetch_event_headers event_id el0 =
     (case ensure_db True el0 of (opened, el) \<Rightarrow>
      if \<not> opened then (None, el)
      else case rtcom_el_db_exec (Stmt (select_rows (\<lambda>t.
              map (\<lambda>h. (hd_name h, hd_value h)) (filter (\<lambda>h. hd_event_id h = event_id) (Headers t))))) el of
             (ok, rows, _, el1) \<Rightarrow>
               (if ok then Some (fold (\<lambda>(n, v) m. m(n \<mapsto> v)) rows Map.empty) else None, el1))"

text \<open>The array of ids ends with -1.\<close>

definition rtcom_el_get_events_by_header ::
    "string option \<Rightarrow> string option \<Rightarrow> el \<Rightarrow> int list option \<times> el" where
  "rtcom_el_get_events_by_header key val el0 =
     (if key = None \<or> val = None then (None, el0)
      else case ensure_db True el0 of (opened, el) \<Rightarrow>
        if \<not> opened then (None, el)
        else case rtcom_el_db_exec (Stmt (select_rows (\<lambda>t.
                map (\<lambda>h. Some (hd_event_id h))
                  (filter (\<lambda>h. Some (hd_name h) = key \<and> Some (hd_value h) = val) (Headers t))))) el of
               (ok, rows, _, el1) \<Rightarrow>
                 (if ok then Some (map sqlite3_column_int rows @ [- 1]) else None, el1))"

section \<open>Remote contacts\<close>

text \<open>
  \<open>SELECT DISTINCT col FROM Remotes WHERE col IS NOT NULL\<close>; the list is built in reverse and
  reversed. There is no \<open>_ensure_db\<close> here: a NULL database fails the assertion of
  \<open>rtcom_el_db_exec_printf\<close>, which is the outer \<open>None\<close>.
\<close>

definition unique_remote_col ::
    "(remote_row \<Rightarrow> string option) \<Rightarrow> el \<Rightarrow> (string option list \<times> el) option" where
  "unique_remote_col col el =
     (if \<not> is_open el then None
      else Some (case rtcom_el_db_exec (Stmt (select_rows (\<lambda>t.
                scan_order el (remdups (filter (\<lambda>x. x \<noteq> None) (map col (Remotes t))))))) el of
              (ok, rows, _, el1) \<Rightarrow> (if ok then rev (rev rows) else [], el1)))"

definition rtcom_el_get_unique_remote_ebook_uids :: "el \<Rightarrow> (string option list \<times> el) option" where
  "rtcom_el_get_unique_remote_ebook_uids = unique_remote_col rm_abook_uid"

definition rtcom_el_get_unique_remote_uids :: "el \<Rightarrow> (string option list \<times> el) option" where
  "rtcom_el_get_unique_remote_uids = unique_remote_col (\<lambda>r. Some (rm_remote_uid r))"

definition rtcom_el_get_unique_remote_names :: "el \<Rightarrow> (string option list \<times> el) option" where
  "rtcom_el_get_unique_remote_names = unique_remote_col rm_remote_name"

section \<open>Groups\<close>

text \<open>The callback runs on every row; \<open>vars\<close> are total events, unread events, flags.\<close>

definition get_group_info_slave :: "int \<times> int \<times> int \<Rightarrow> int \<times> int \<times> int \<Rightarrow> int \<times> int \<times> int" where
  "get_group_info_slave row vars =
     (case row of (tot, read, fl) \<Rightarrow>
        (sqlite3_column_int (Some tot),
         to_gint (sqlite3_column_int (Some tot) - sqlite3_column_int (Some read)),
         sqlite3_column_int (Some fl)))"

definition rtcom_el_get_group_info :: "string option \<Rightarrow> el \<Rightarrow> bool \<times> (int \<times> int \<times> int) option \<times> el" where
  "rtcom_el_get_group_info group_uid el0 =
     (if group_uid = None then (False, None, el0)
      else case ensure_db True el0 of (opened, el) \<Rightarrow>
        if \<not> opened then (False, None, el)
        else case rtcom_el_db_exec (Stmt (select_rows (\<lambda>t.
                map (\<lambda>c. (gc_total_events c, gc_read_events c, gc_flags c))
                  (filter (\<lambda>c. Some (gc_group_uid c) = group_uid) (GroupCache t))))) el of
               (ok, rows, _, el1) \<Rightarrow>
                 if \<not> ok then (False, None, el1)
                 else (True, Some (fold get_group_info_slave rows (0, 0, 0)), el1))"

text \<open>An aggregate without rows is one row that holds NULL.\<close>

definition max_id :: "event_row list \<Rightarrow> int option" where
  "max_id es = (if es = [] then None else Some (fold max (map e_id (tl es)) (e_id (hd es))))"

text \<open>The early return after a failed \<open>_ensure_db\<close> is \<open>FALSE\<close>, that is 0.\<close>

definition rtcom_el_get_group_most_recent_event_id :: "string option \<Rightarrow> el \<Rightarrow> int \<times> el" where
  "rtcom_el_get_group_most_recent_event_id group_uid el0 =
     (if group_uid = None then (- 1, el0)
      else case ensure_db True el0 of (opened, el) \<Rightarrow>
        if \<not> opened then (0, el)
        else case rtcom_el_db_exec (Stmt (select_rows (\<lambda>t.
                [max_id (filter (\<lambda>e. e_group_uid e = group_uid) (Events t))]))) el of
               (ok, rows, _, el1) \<Rightarrow>
                 (if ok then rtcom_el_db_single_int rows (- 1) else - 1, el1))"

section \<open>Counts\<close>

text \<open>
  The format string of \<open>rtcom_el_get_contacts_events_n\<close> contains \<open>%;\<close>, which is no conversion
  of \<open>sqlite3_vmprintf\<close>: its output ends there, at \<open>remote_ebook_uid=\<close>, and does not compile.
\<close>

definition rtcom_el_get_contacts_events_n :: "string option \<Rightarrow> el \<Rightarrow> int \<times> el" where
  "rtcom_el_get_contacts_events_n remote_ebook_uid el0 =
     (if remote_ebook_uid = None then (- 1, el0)
      else case ensure_db True el0 of (opened, el) \<Rightarrow>
        if \<not> opened then (- 1, el)
        else case rtcom_el_db_exec (MALFORMED :: int option sql) el of
               (ok, rows, _, el1) \<Rightarrow> (if ok then rtcom_el_db_single_int rows 0 else - 1, el1))"

definition rtcom_el_get_local_remote_uid_events_n ::
    "string option \<Rightarrow> string option \<Rightarrow> el \<Rightarrow> int \<times> el" where
  "rtcom_el_get_local_remote_uid_events_n local_uid remote_uid el0 =
     (if local_uid = None \<or> remote_uid = None then (- 1, el0)
      else case ensure_db True el0 of (opened, el) \<Rightarrow>
        if \<not> opened then (- 1, el)
        else case rtcom_el_db_exec (Stmt (select_rows (\<lambda>t.
                [Some (int (length (filter (\<lambda>e. e_local_uid e = local_uid \<and> e_remote_uid e = remote_uid)
                   (Events t))))]))) el of
               (ok, rows, _, el1) \<Rightarrow>
                 (if ok then rtcom_el_db_single_int rows (- 1) else - 1, el1))"

text \<open>Without a service the query looks for the service id \<open>-1\<close> the variable starts with.\<close>

definition count_events_of :: "int \<Rightarrow> el \<Rightarrow> int \<times> el" where
  "count_events_of service_id el =
     (case rtcom_el_db_exec (Stmt (select_rows (\<lambda>t.
              [Some (int (length (filter (\<lambda>e. e_service_id e = service_id) (Events t))))]))) el of
        (ok, rows, _, el1) \<Rightarrow> (if ok then rtcom_el_db_single_int rows 0 else - 1, el1))"

definition rtcom_el_count_by_service :: "string option \<Rightarrow> el \<Rightarrow> (int \<times> el) option" where
  "rtcom_el_count_by_service service el0 =
     (case ensure_db True el0 of (opened, el) \<Rightarrow>
      if \<not> opened then Some (- 1, el)
      else case service of
             None \<Rightarrow> Some (count_events_of (- 1) el)
           | Some _ \<Rightarrow>
               (case rtcom_el_get_service_id service el of
                  None \<Rightarrow> None
                | Some service_id \<Rightarrow>
                    if service_id = - 1 then Some (0, el) else Some (count_events_of service_id el)))"

definition rtcom_el_get_last_group_uid :: "el \<Rightarrow> string option" where
  "rtcom_el_get_last_group_uid el = last_group_uid el"

section \<open>Lemmas\<close>

lemma to_gint_diff: "to_gint (to_gint a - to_gint b) = to_gint (a - b)"
  by (simp add: to_gint_def)

text \<open>A query that succeeds answers from the tables; the tables stay.\<close>

lemma group_info_row:
  assumes "cache_ok t"
  shows "filter (\<lambda>c. Some (gc_group_uid c) = Some g) (GroupCache t) = [] \<and> group_events t g = [] \<or>
     (\<exists>c. filter (\<lambda>c. Some (gc_group_uid c) = Some g) (GroupCache t) = [c] \<and> c \<in> set (GroupCache t) \<and>
        gc_group_uid c = g)"
proof (cases "g \<in> gc_group_uid ` set (GroupCache t)")
  case True
  then obtain c where c: "c \<in> set (GroupCache t)" "gc_group_uid c = g" by auto
  with filter_key_unique [OF cache_okD(2) [OF assms] c(1)] show ?thesis by auto
next
  case False
  then have "filter (\<lambda>c. Some (gc_group_uid c) = Some g) (GroupCache t) = []"
    by (auto simp: filter_empty_conv)
  moreover have "group_events t g = []"
    using cache_okD(4) [OF assms] False by (fastforce simp: group_events_def filter_empty_conv)
  ultimately show ?thesis by simp
qed

text \<open>
  C9: With a sound group cache, a successful \<open>rtcom_el_get_group_info\<close> on an open database returns what
  counting the events of the group would: the number of events, and this number less the sum of the
  events' is_read columns as unread, narrowed to 32 bits. The flags are those of the group's cache row; they
  are the OR of the events' flags where the cache has it (\<open>flags_ok\<close>), which clearing a flag may end.
  A group that is not in the cache has 0 of each.\<close>

theorem get_group_info_counts:
  assumes "rtcom_el_get_group_info (Some g) el = (True, r, el')"
    and "is_open el" and "cache_ok (tb el)"
  shows "\<exists>fl. r = Some (to_gint (int (length (group_events (tb el) g))),
       to_gint (int (length (group_events (tb el) g)) - sum_list (map e_is_read (group_events (tb el) g))),
       fl) \<and>
     (if g \<in> gc_group_uid ` set (GroupCache (tb el))
      then \<exists>c\<in>set (GroupCache (tb el)). gc_group_uid c = g \<and> fl = to_gint (gc_flags c)
      else group_events (tb el) g = [] \<and> fl = 0) \<and>
     (flags_ok (tb el) \<longrightarrow> fl = to_gint (or_flags (group_events (tb el) g)))"
proof -
  let ?rows = "map (\<lambda>c. (gc_total_events c, gc_read_events c, gc_flags c))
    (filter (\<lambda>c. Some (gc_group_uid c) = Some g) (GroupCache (tb el)))"
  from assms(1,2) have r: "r = Some (fold get_group_info_slave ?rows (0, 0, 0))"
    by (auto simp: rtcom_el_get_group_info_def split: prod.splits if_splits dest: exec_select_rows)
  from group_info_row [OF assms(3), of g] show ?thesis
  proof (elim disjE exE conjE)
    assume none: "filter (\<lambda>c. Some (gc_group_uid c) = Some g) (GroupCache (tb el)) = []"
      and "group_events (tb el) g = []"
    moreover from none have "g \<notin> gc_group_uid ` set (GroupCache (tb el))"
      by (auto simp: filter_empty_conv)
    ultimately show ?thesis using r by (simp add: or_flags_def)
  next
    fix c assume "filter (\<lambda>c. Some (gc_group_uid c) = Some g) (GroupCache (tb el)) = [c]"
      and c: "c \<in> set (GroupCache (tb el))" "gc_group_uid c = g"
    with r cache_okD(3) [OF assms(3), of c]
    have row: "r = Some (to_gint (int (length (group_events (tb el) g))),
        to_gint (int (length (group_events (tb el) g)) - sum_list (map e_is_read (group_events (tb el) g))),
        to_gint (gc_flags c))"
      by (simp add: get_group_info_slave_def sqlite3_column_int_def to_gint_diff cache_row_ok_def)
    from c have "g \<in> gc_group_uid ` set (GroupCache (tb el))" by auto
    with row c show ?thesis by (auto simp: flags_ok_def)
  qed
qed

lemma sample_group_info: "fst (rtcom_el_get_group_info (Some ''g'') sample_el) = True"
  by code_simp

theorem get_group_info_counts_witness:
  "\<exists>el'. rtcom_el_get_group_info (Some ''g'') sample_el = (True, Some (2, 2, 1), el')"
proof -
  obtain r el' where run: "rtcom_el_get_group_info (Some ''g'') sample_el = (True, r, el')"
    using sample_group_info by (metis prod.collapse)
  have fl: "flags_ok (tb sample_el)" using sample_flags_ok by (simp add: sample_open)
  from get_group_info_counts [OF run sample_open(1,4)] fl have "r = Some (2, 2, 1)"
    by (auto simp: sample_open group_events_def sample_tables_def sample_row_def or_flags_def)
  with run show ?thesis by simp
qed

text \<open>\<open>rtcom_el_get_group_most_recent_event_id\<close> of a group with events is the largest id of its
  events; of a group without events it is 0, since MAX over no rows is NULL.\<close>

theorem most_recent_event_id_is_max:
  assumes "rtcom_el_get_group_most_recent_event_id (Some g) el = (i, el')" and "i \<noteq> - 1"
    and "is_open el" and "\<forall>e\<in>set (Events (tb el)). 0 \<le> e_id e \<and> e_id e < 2 ^ 31"
  shows "if group_events (tb el) g = [] then i = 0
     else i \<in> e_id ` set (group_events (tb el) g) \<and> (\<forall>e\<in>set (group_events (tb el) g). e_id e \<le> i)"
proof -
  let ?es = "group_events (tb el) g"
  from assms(1-3) have "i = rtcom_el_db_single_int [max_id ?es] (- 1)"
    by (auto simp: rtcom_el_get_group_most_recent_event_id_def group_events_def
        split: prod.splits if_splits dest: exec_select_rows)
  then have i: "i = sqlite3_column_int (max_id ?es)" by (simp add: rtcom_el_db_single_int_def)
  show ?thesis
  proof (cases ?es)
    case Nil
    with i show ?thesis by (simp add: max_id_def sqlite3_column_int_def)
  next
    case (Cons a as)
    have mx: "fold max xs m \<in> insert m (set xs) \<and> (\<forall>x\<in>insert m (set xs). x \<le> fold max xs m)"
      for xs and m :: int
      by (induction xs arbitrary: m) (fastforce simp: max_def)+
    let ?m = "fold max (map e_id as) (e_id a)"
    have m: "?m \<in> e_id ` set ?es" "\<forall>e\<in>set ?es. e_id e \<le> ?m"
      using mx [of "map e_id as" "e_id a"] unfolding Cons by auto
    then have "0 \<le> ?m \<and> ?m < 2 ^ 31" using assms(4) by auto
    then have "i = ?m" using i Cons by (simp add: max_id_def sqlite3_column_int_def)
    with m show ?thesis by (simp add: Cons)
  qed
qed

lemma sample_most_recent: "fst (rtcom_el_get_group_most_recent_event_id (Some ''g'') sample_el) = 2"
  by code_simp

theorem most_recent_event_id_is_max_witness:
  "\<exists>el'. rtcom_el_get_group_most_recent_event_id (Some ''g'') sample_el = (2, el') \<and>
     (\<forall>e\<in>set (group_events sample_tables ''g''). e_id e \<le> 2)"
proof -
  obtain el' where run: "rtcom_el_get_group_most_recent_event_id (Some ''g'') sample_el = (2, el')"
    using sample_most_recent by (metis prod.collapse)
  have b: "\<forall>e\<in>set (Events (tb sample_el)). 0 \<le> e_id e \<and> e_id e < 2 ^ 31"
    by (simp add: sample_open sample_tables_def sample_row_def)
  have ne: "(2 :: int) \<noteq> - 1" by simp
  have "group_events sample_tables ''g'' \<noteq> []"
    by (simp add: group_events_def sample_tables_def sample_row_def)
  with most_recent_event_id_is_max [OF run ne sample_open(1) b] run show ?thesis
    by (simp add: sample_open)
qed

text \<open>\<open>rtcom_el_count_by_service\<close> counts the events of a known service; called without a service
  it counts those of the service id -1, of which there are none, instead of all.\<close>

theorem count_by_service_counts:
  assumes "script el = []" and "is_open el"
    and "service \<noteq> None \<longrightarrow> rtcom_el_get_service_id service el = Some s \<and> s \<noteq> - 1"
    and "service = None \<longrightarrow> (\<forall>e\<in>set (Events (tb el)). e_service_id e \<noteq> - 1)"
  shows "map_option fst (rtcom_el_count_by_service service el) =
     Some (if service = None then 0
           else to_gint (int (length (filter (\<lambda>e. e_service_id e = s) (Events (tb el))))))"
proof (cases service)
  case None
  with assms(4) have "filter (\<lambda>e. e_service_id e = - 1) (Events (tb el)) = []"
    by (simp add: filter_empty_conv)
  with assms None show ?thesis
    by (simp add: rtcom_el_count_by_service_def count_events_of_def exec_select_calm
        rtcom_el_db_single_int_def sqlite3_column_int_def)
next
  case (Some x)
  with assms show ?thesis
    by (simp add: rtcom_el_count_by_service_def count_events_of_def exec_select_calm
        rtcom_el_db_single_int_def sqlite3_column_int_def)
qed

theorem count_by_service_counts_witness:
  "map_option fst (rtcom_el_count_by_service (Some ''CALL'') sample_el) = Some 3 \<and>
   map_option fst (rtcom_el_count_by_service None sample_el) = Some 0"
proof
  have "rtcom_el_get_service_id (Some ''CALL'') sample_el = Some 1" by code_simp
  with count_by_service_counts [OF sample_open(7,1), of "Some ''CALL''" 1]
  show "map_option fst (rtcom_el_count_by_service (Some ''CALL'') sample_el) = Some 3"
    by (simp add: sample_open sample_tables_def sample_row_def)
  show "map_option fst (rtcom_el_count_by_service None sample_el) = Some 0"
    using count_by_service_counts [OF sample_open(7,1), of None 0]
    by (simp add: sample_open sample_tables_def sample_row_def)
qed

text \<open>\<open>rtcom_el_get_contacts_events_n\<close> returns -1 whatever it is asked: its format string ends
  in \<open>%;\<close>, so that the statement never compiles.\<close>

theorem contacts_events_n_fails: "fst (rtcom_el_get_contacts_events_n uid el) = - 1"
proof -
  have "\<not> fst (rtcom_el_db_exec (MALFORMED :: int option sql) d)" for d :: el
    by (auto simp: rtcom_el_db_exec_def split: list.splits answer.splits)
  then show ?thesis
    by (auto simp: rtcom_el_get_contacts_events_n_def split: prod.splits) (metis fst_conv)
qed

end
