(* ===== verification/El_Reads.thy ===== *)
theory El_Reads
  imports El_Steady El_Iter_Use El_Read
begin

text \<open>
  The operations that only read: queries and iterators. Whatever SQLite answers them, and in or out of a
  transaction, the durable tables and the journal stay as they are.
\<close>

definition unharmed :: "el \<Rightarrow> el \<Rightarrow> bool" where
  "unharmed el el' \<longleftrightarrow> is_open el' = is_open el \<and>
     (journal el \<noteq> JM_OFF \<longrightarrow> journal el' = journal el \<and> durable el' = durable el)"

lemma unharmed_refl [simp]: "unharmed el el"
  by (simp add: unharmed_def)

lemma unharmed_trans: "unharmed a b \<Longrightarrow> unharmed b c \<Longrightarrow> unharmed a c"
  by (simp add: unharmed_def)

lemma unharmed_script [simp]:
  "unharmed el (el'\<lparr>script := as\<rparr>) = unharmed el el'"
  "unharmed el (el'\<lparr>errcode := c\<rparr>) = unharmed el el'"
  "unharmed (el'\<lparr>script := as\<rparr>) el = unharmed el' el"
  by (simp_all add: unharmed_def)

lemma quiet_unharmed: "quiet el el' \<Longrightarrow> unharmed el el'"
  by (simp add: quiet_def unharmed_def)

section \<open>Statements and transactions\<close>

lemma exec_failed_unharmed:
  fixes el :: el
  assumes "rtcom_el_db_exec q el = (False, rows, e, el')"
  shows "unharmed el el'"
  using exec_failed_journaled [OF assms] exec_el(1) [OF assms] by (simp add: unharmed_def)

lemma select_unharmed:
  fixes el :: el
  assumes "rtcom_el_db_exec (Stmt (select_rows q)) el = (ok, rows, e, el')"
  shows "unharmed el el'"
proof (cases ok)
  case False
  with assms exec_failed_unharmed show ?thesis by simp
next
  case True
  with assms have x: "rtcom_el_db_exec (Stmt (select_rows q)) el = (True, rows, e, el')" by simp
  from exec_stmt_ok [OF x] have "tb el' = tb el" "txn el' = txn el" "journal el' = journal el"
    by (auto simp: select_rows_def)
  with exec_el(1) [OF x] durable_same [of el' el] show ?thesis by (simp add: unharmed_def)
qed

lemma malformed_unharmed:
  fixes el :: el
  assumes "rtcom_el_db_exec (MALFORMED :: 'r sql) el = (ok, rows, e, el')"
  shows "unharmed el el'"
proof (cases ok)
  case False
  with assms exec_failed_unharmed show ?thesis by simp
next
  case True
  with assms have "rtcom_el_db_exec (MALFORMED :: 'r sql) el = (True, rows, e, el')" by simp
  then show ?thesis by (rule exec_ok) simp
qed

lemma transaction_unharmed:
  fixes el :: el
  assumes "rtcom_el_db_transaction excl el = (ok, e, el')"
  shows "unharmed el el'"
proof (cases ok)
  case True
  with assms transaction_ok [of excl el e el'] transaction_el(1) [OF assms] show ?thesis
    by (auto simp: unharmed_def durable_def)
next
  case False
  with assms transaction_failed [of excl el e el'] transaction_el(1) [OF assms] show ?thesis
    by (auto simp: unharmed_def)
qed

lemma rollback_unharmed: "unharmed (el :: el) (snd (snd (rtcom_el_db_rollback el)))"
proof -
  obtain ok e el' where r: "rtcom_el_db_rollback el = (ok, e, el')" by (metis prod_cases3)
  with rollback_journaled [OF r] el_more_eq(1) [OF rollback_more [OF r]] show ?thesis
    by (simp add: unharmed_def)
qed

text \<open>The COMMIT of a transaction in which nothing was written.\<close>

lemma commit_unharmed:
  fixes el :: el
  assumes "tb el = durable el"
  shows "unharmed el (snd (snd (rtcom_el_db_commit el)))"
proof -
  obtain ok e el' where c: "rtcom_el_db_commit el = (ok, e, el')" by (metis prod_cases3)
  have more: "is_open el' = is_open el" by (rule el_more_eq(1) [OF commit_more [OF c]])
  show ?thesis
  proof (cases ok)
    case True
    with c commit_ok [of el e el'] more assms show ?thesis by (auto simp: unharmed_def durable_def)
  next
    case False
    with c commit_failed [of el e el'] more show ?thesis by (auto simp: unharmed_def)
  qed
qed

lemma refused_unharmed: "unharmed el (refused c rb el new)"
  using refused_cases(1) [of el] el_more_eq(1) [OF more_refused, of c rb el new]
  by (simp add: unharmed_def journal_refused)

section \<open>Iterators\<close>

lemma step_row_unharmed: "step_row cur el = (r, cur', el') \<Longrightarrow> el' = el"
  by (auto simp: step_row_def split: list.splits)

lemma sqlite3_step_unharmed: "sqlite3_step cur el = (r, cur', el') \<Longrightarrow> unharmed el el'"
  by (auto simp: sqlite3_step_def refused_unharmed split: list.splits answer.splits
      dest!: step_row_unharmed)

lemma iterate_stmt_unharmed: "iterate_stmt cur el = (r, cur', el') \<Longrightarrow> unharmed el el'"
  by (auto simp: iterate_stmt_def refused_unharmed split: prod.splits step_result.splits
      dest!: step_row_unharmed)

lemma sqlite3_prepare_unharmed: "sqlite3_prepare q el = (r, el') \<Longrightarrow> unharmed el el'"
  by (auto simp: sqlite3_prepare_def split: list.splits answer.splits)

lemma get_events_core_unharmed:
  assumes "get_events_core holds query atomic el = (it, el')" and "is_open el"
  shows "unharmed el el'"
proof -
  have rb: "unharmed d (snd (snd (rtcom_el_db_rollback d')))" if "unharmed d d'" for d d'
    using unharmed_trans [OF that rollback_unharmed] .
  from assms show ?thesis
    by (auto simp: get_events_core_def split: prod.splits option.splits stepped.splits if_splits bool.splits
        dest!: sqlite3_prepare_unharmed transaction_unharmed sqlite3_step_unharmed
        intro: unharmed_trans intro!: rb)
qed

lemma iter_next_unharmed: "rtcom_el_iter_next it el = Some (r, it', el') \<Longrightarrow> unharmed el el'"
  by (auto simp: rtcom_el_iter_next_def split: cursor.splits prod.splits stepped.splits
      dest!: iterate_stmt_unharmed)

lemma iter_first_unharmed: "rtcom_el_iter_first it el = Some (r, it', el') \<Longrightarrow> unharmed el el'"
  by (auto simp: rtcom_el_iter_first_def split: cursor.splits dest!: iter_next_unharmed)

lemma iter_finalize_unharmed:
  assumes "rtcom_el_iter_finalize it el = Some el'" and "tb el = durable el"
  shows "unharmed el el'"
  using assms(1) commit_unharmed [OF assms(2)]
  by (auto simp: rtcom_el_iter_finalize_def Let_def split: cursor.splits if_splits)

lemma attach_iter_next_unharmed:
  "rtcom_el_attach_iter_next it el = Some (r, it', el') \<Longrightarrow> unharmed el el'"
  by (auto simp: rtcom_el_attach_iter_next_def split: cursor.splits prod.splits stepped.splits
      dest!: iterate_stmt_unharmed)

section \<open>The operations that read\<close>

text \<open>One call of such an operation on an open database, with any arguments.\<close>

inductive reads :: "el \<Rightarrow> el \<Rightarrow> bool" where
  read_headers: "rtcom_el_fetch_event_headers j el = (hs, el') \<Longrightarrow> reads el el'"
| read_by_header: "rtcom_el_get_events_by_header k v el = (ids, el') \<Longrightarrow> reads el el'"
| read_unique: "unique_remote_col col el = Some (xs, el') \<Longrightarrow> reads el el'"
| read_group_info: "rtcom_el_get_group_info g el = (ok, info, el') \<Longrightarrow> reads el el'"
| read_most_recent: "rtcom_el_get_group_most_recent_event_id g el = (i, el') \<Longrightarrow> reads el el'"
| read_contact_events: "rtcom_el_get_contacts_events_n u el = (n, el') \<Longrightarrow> reads el el'"
| read_uid_events: "rtcom_el_get_local_remote_uid_events_n lu ru el = (n, el') \<Longrightarrow> reads el el'"
| read_count: "rtcom_el_count_by_service sv el = Some (n, el') \<Longrightarrow> reads el el'"
| read_flag_value: "rtcom_el_get_flag_value fl el = (n, el') \<Longrightarrow> reads el el'"
| read_events: "rtcom_el_get_events holds q el = (it, el') \<Longrightarrow> reads el el'"
| read_atomic: "rtcom_el_get_events_atomic holds q el = (it, el') \<Longrightarrow> reads el el'"
| read_next: "rtcom_el_iter_next it el = Some (b, it', el') \<Longrightarrow> reads el el'"
| read_first: "rtcom_el_iter_first it el = Some (b, it', el') \<Longrightarrow> reads el el'"
| read_header_raw: "rtcom_el_iter_get_header_raw it k el = (v, el') \<Longrightarrow> reads el el'"
| read_attachments: "rtcom_el_iter_get_attachments it el = (ai, el') \<Longrightarrow> reads el el'"
| read_attach_next: "rtcom_el_attach_iter_next ai el = Some (b, ai', el') \<Longrightarrow> reads el el'"
| read_attach_first: "rtcom_el_attach_iter_first ai el = Some (b, ai', el') \<Longrightarrow> reads el el'"
| read_fire: "rtcom_el_fire_event_updated j el = (r, el') \<Longrightarrow> reads el el'"

lemma count_events_of_unharmed: "count_events_of sid el = (n, el') \<Longrightarrow> unharmed el el'"
  by (auto simp: count_events_of_def split: prod.splits dest!: select_unharmed)

lemma reads_unharmed:
  assumes "reads el el'" and "is_open el"
  shows "unharmed el el'"
  using assms
proof (induction rule: reads.induct)
  case (read_headers j el hs el')
  then show ?case
    by (auto simp: rtcom_el_fetch_event_headers_def split: prod.splits dest!: select_unharmed)
next
  case (read_by_header k v el ids el')
  then show ?case
    by (auto simp: rtcom_el_get_events_by_header_def split: prod.splits if_splits dest!: select_unharmed)
next
  case (read_unique col el xs el')
  then show ?case by (auto simp: unique_remote_col_def split: prod.splits dest!: select_unharmed)
next
  case (read_group_info g el ok info el')
  then show ?case
    by (auto simp: rtcom_el_get_group_info_def split: prod.splits if_splits dest!: select_unharmed)
next
  case (read_most_recent g el i el')
  then show ?case
    by (auto simp: rtcom_el_get_group_most_recent_event_id_def split: prod.splits if_splits
        dest!: select_unharmed)
next
  case (read_contact_events u el n el')
  then show ?case
    by (auto simp: rtcom_el_get_contacts_events_n_def split: prod.splits if_splits
        dest!: malformed_unharmed)
next
  case (read_uid_events lu ru el n el')
  then show ?case
    by (auto simp: rtcom_el_get_local_remote_uid_events_n_def split: prod.splits if_splits
        dest!: select_unharmed)
next
  case (read_count sv el n el')
  then show ?case
    by (auto simp: rtcom_el_count_by_service_def split: prod.splits if_splits option.splits
        dest!: count_events_of_unharmed)
next
  case (read_flag_value fl el n el')
  from quiet_unharmed [OF get_flag_value_quiet [OF this]] show ?case .
next
  case (read_events holds q el it el')
  then show ?case by (simp add: rtcom_el_get_events_def get_events_core_unharmed)
next
  case (read_atomic holds q el it el')
  then show ?case by (simp add: rtcom_el_get_events_atomic_def get_events_core_unharmed)
next
  case (read_header_raw it k el v el')
  then show ?case
    by (auto simp: rtcom_el_iter_get_header_raw_def split: prod.splits option.splits stepped.splits
        dest!: sqlite3_prepare_unharmed sqlite3_step_unharmed intro: unharmed_trans)
next
  case (read_attachments it el ai el')
  then show ?case
    by (auto simp: rtcom_el_iter_get_attachments_def split: prod.splits option.splits stepped.splits if_splits
        dest!: sqlite3_prepare_unharmed iterate_stmt_unharmed intro: unharmed_trans)
next
  case (read_attach_first ai el b ai' el')
  then show ?case
    by (auto simp: rtcom_el_attach_iter_first_def split: cursor.splits dest!: attach_iter_next_unharmed)
next
  case (read_fire j el r el')
  then show ?case
    by (auto simp: rtcom_el_fire_event_updated_def quiet_unharmed [OF emit_dbus_quiet] split: if_splits)
qed (auto dest: iter_next_unharmed iter_first_unharmed attach_iter_next_unharmed)

end
