(* ===== verification/El_System.thy ===== *)
theory El_System
  imports El_Reads
begin

text \<open>
  The operations together: what holds in every state an event logger can reach, whatever
  operations its clients call in whatever order.
\<close>

section \<open>The open database stays open\<close>

lemma in_transaction_open:
  fixes el :: el
  assumes body: "\<And>d r e d'. is_open d \<Longrightarrow> body d = Some (r, e, d') \<Longrightarrow> is_open d'"
    and run: "in_transaction excl body el = Some (r, e, el')" and "is_open el"
  shows "is_open el'"
proof -
  obtain ok1 e1 d1 where t: "rtcom_el_db_transaction excl el = (ok1, e1, d1)" by (metis prod_cases3)
  have o1: "is_open d1" using transaction_el(1) [OF t] assms(3) by simp
  show ?thesis
  proof (cases ok1)
    case False
    with run t o1 show ?thesis by (simp add: in_transaction_def)
  next
    case True
    with run t obtain r2 e2 d2 where b: "body d1 = Some (r2, e2, d2)"
      by (cases "body d1") (auto simp: in_transaction_def)
    from body [OF o1 b] have o2: "is_open d2" .
    obtain ok4 e4 d4 where rb: "rtcom_el_db_rollback d2 = (ok4, e4, d4)" by (metis prod_cases3)
    obtain ok3 e3 d3 where c: "rtcom_el_db_commit d2 = (ok3, e3, d3)" by (metis prod_cases3)
    obtain ok5 e5 d5 where rb3: "rtcom_el_db_rollback d3 = (ok5, e5, d5)" by (metis prod_cases3)
    have "is_open d4" "is_open d3" "is_open d5"
      using el_more_eq(1) [OF rollback_more [OF rb]] el_more_eq(1) [OF commit_more [OF c]]
        el_more_eq(1) [OF rollback_more [OF rb3]] o2 by simp_all
    with run t True b rb c rb3 show ?thesis
      by (cases r2; cases ok3) (auto simp: in_transaction_def)
  qed
qed

lemma quiet_open: "quiet el el' \<Longrightarrow> is_open el' = is_open el"
  unfolding quiet_def by blast

lemma add_event_open:
  assumes "rtcom_el_add_event evp el = Some (i, e, el')" and "is_open el"
  shows "is_open el'"
  using assms
proof (cases rule: add_event_cases)
  case rejected
  with assms show ?thesis by simp
next
  case (ran ev s t r e1 el1)
  have "is_open d'" if "is_open d" "add_event_body ev s t d = Some (r, e, d')" for d r e d'
    using that add_event_core_keeps [of ev s t d] by (auto simp: add_event_body_def split: prod.splits)
  from in_transaction_open [OF this ran(2) assms(2)] quiet_open [OF announce_event_quiet [OF ran(3)]]
  show ?thesis by simp
qed

lemma add_event_full_open:
  assumes "rtcom_el_add_event_full evp hs atts el = Some (i, e, el')" and "is_open el"
  shows "is_open el'"
  using assms
proof (cases rule: add_event_full_cases)
  case rejected
  with assms show ?thesis by simp
next
  case (ran ev s t r e1 el1)
  have "is_open d'" if op: "is_open d" and b: "add_event_full_body ev hs atts s t d = Some (r, e, d')"
    for d r e d'
  proof -
    obtain j e2 d1 where c: "add_event_core ev s t d = (j, e2, d1)" by (metis prod_cases3)
    from add_event_core_keeps [OF c] op have o1: "is_open d1" by simp
    show ?thesis
    proof (cases "j = - 1")
      case True
      with b c o1 show ?thesis by (simp add: add_event_full_body_def)
    next
      case False
      with b c obtain ok3 e3 d3 where a: "add_attachments j atts d1 = Some (ok3, e3, d3)"
        by (auto simp: add_event_full_body_def split: option.splits)
      from add_attachments_keeps [OF a o1] have o3: "is_open d3" by simp
      obtain ok4 e4 d4 where h: "add_headers j hs d3 = (ok4, e4, d4)" by (metis prod_cases3)
      from add_headers_keeps [OF h o3] have "is_open d4" by simp
      with b c False a o3 h show ?thesis by (auto simp: add_event_full_body_def split: if_splits)
    qed
  qed
  from in_transaction_open [OF this ran(2) assms(2)] quiet_open [OF announce_event_quiet [OF ran(3)]]
  show ?thesis by simp
qed

lemma update_remotes_op_open:
  assumes "update_remotes_op stmts el = Some (r, e, el')" and "is_open el"
  shows "is_open el'"
proof -
  have "is_open d'" if "is_open d" "exec_all stmts d = Some (r, e, d')" for d r e d'
    using that
  proof (induction stmts d rule: exec_all.induct)
    case (2 f rest d)
    obtain ok rows x d1 where ex: "rtcom_el_db_exec (Stmt f) d = (ok, rows, x, d1)"
      using that by (rule prod_cases4)
    from exec_el(1) [OF ex] "2.prems" ex "2.IH" [OF ex [symmetric] refl refl] show ?case
      by (auto split: if_splits)
  qed simp
  note body = this
  from assms obtain r1 e1 el1 where t: "in_transaction False (exec_all stmts) el = Some (r1, e1, el1)"
    and "el' = el1 \<or> el' = emit_dbus ''RefreshHint'' (- 1) None el1"
    by (auto simp: update_remotes_op_def split: option.splits)
  with in_transaction_open [OF body t assms(2)] quiet_open [OF emit_dbus_quiet] show ?thesis by auto
qed

section \<open>Steps\<close>

text \<open>
  An object can open its database when the files it will find are sound and the plugins there do not write
  events.
\<close>

definition openable :: "el \<Rightarrow> bool" where
  "openable el \<longleftrightarrow> list_all sound_attempt (attempts el) \<and> list_all harmless_dir (plugin_dirs el)"

text \<open>
  One call of an operation that writes, with no transaction open, with any arguments and any result. The
  deletions are there where SQLite goes ahead and no group contains a quote.
\<close>

inductive writes :: "el \<Rightarrow> el \<Rightarrow> bool" where
  write_add: "txn el = None \<Longrightarrow> rtcom_el_add_event evp el = Some (i, e, el') \<Longrightarrow> writes el el'"
| write_add_full: "txn el = None \<Longrightarrow> rtcom_el_add_event_full evp hs atts el = Some (i, e, el') \<Longrightarrow>
    writes el el'"
| write_set_read: "txn el = None \<Longrightarrow> rtcom_el_set_read_event j rd el = (r, e, el') \<Longrightarrow> writes el el'"
| write_header: "txn el = None \<Longrightarrow> rtcom_el_add_header j k v el = (i, e, el') \<Longrightarrow> writes el el'"
| write_attachment: "txn el = None \<Longrightarrow> rtcom_el_add_attachment j path desc el = Some (i, e, el') \<Longrightarrow>
    writes el el'"
| write_set_reads: "txn el = None \<Longrightarrow> rtcom_el_set_read_events js rd el = (r, e, el') \<Longrightarrow> writes el el'"
| write_set_flag: "txn el = None \<Longrightarrow> rtcom_el_set_event_flag j fl el = (r, e, el') \<Longrightarrow> writes el el'"
| write_unset_flag: "txn el = None \<Longrightarrow> rtcom_el_unset_event_flag j fl el = (r, e, el') \<Longrightarrow> writes el el'"
| write_end_time: "txn el = None \<Longrightarrow> rtcom_el_set_end_time j t el = (ok, e, el') \<Longrightarrow> writes el el'"
| write_contacts: "txn el = None \<Longrightarrow> rtcom_el_update_remote_contacts cs el = Some (ok, e, el') \<Longrightarrow>
    writes el el'"
| write_abook: "txn el = None \<Longrightarrow> rtcom_el_remove_abook_uids us el = Some (ok, e, el') \<Longrightarrow> writes el el'"
| write_delete: "txn el = None \<Longrightarrow> script el = [] \<Longrightarrow> plain_groups el \<Longrightarrow>
    rtcom_el_delete_event holds j el = Some (r, e, el') \<Longrightarrow> writes el el'"
| write_delete_query: "txn el = None \<Longrightarrow> script el = [] \<Longrightarrow> plain_groups el \<Longrightarrow>
    rtcom_el_delete_events holds (Some w) el = Some (True, e, el') \<Longrightarrow> writes el el'"
| write_delete_service: "txn el = None \<Longrightarrow> script el = [] \<Longrightarrow>
    rtcom_el_delete_by_service sv el = Some (ok, el') \<Longrightarrow> writes el el'"
| write_delete_groups: "txn el = None \<Longrightarrow> script el = [] \<Longrightarrow>
    rtcom_el_delete_by_group_uids (Some gs) el = Some (ok, el') \<Longrightarrow> writes el el'"

text \<open>
  Where an object's state comes from and goes to: an operation that writes; one that only reads, or a step of an iterator,
  also inside a transaction; the end of an iterator, if nothing was written in its transaction; the opening of the
  database, by the first operation or by a message from the bus; a message; the creation and the end of the object;
  or a change around the object, of the answers SQLite and the C library will give, of the clock, the bus and
  the files. While a transaction is open, which an atomic iterator or a failed ROLLBACK may have left, no
  operation that writes is a step.
\<close>

inductive el_step :: "el \<Rightarrow> el \<Rightarrow> bool" where
  step_writes: "is_open el \<Longrightarrow> writes el el' \<Longrightarrow> el_step el el'"
| step_reads: "is_open el \<Longrightarrow> reads el el' \<Longrightarrow> el_step el el'"
| step_iter_end: "is_open el \<Longrightarrow> tb el = durable el \<Longrightarrow> rtcom_el_iter_finalize it el = Some el' \<Longrightarrow>
    el_step el el'"
| step_open: "\<not> is_open el \<Longrightarrow> openable el \<Longrightarrow> ensure_db reopen el = (ok, el') \<Longrightarrow> el_step el el'"
| step_message: "is_open el \<or> openable el \<Longrightarrow> el_step el (dbus_filter_callback interface args_ok msg el)"
| step_init: "openable el \<Longrightarrow> rtcom_el_init added el = (listens, el') \<Longrightarrow> el_step el el'"
| step_dispose: "el_step el (rtcom_el_dispose el)"
| step_finalize: "rtcom_el_finalize el = Some el' \<Longrightarrow> el_step el el'"
| step_world: "el_step el (el\<lparr>script := s, io := a, now := t, bus_up := b, attempts := ats,
    env_plugins := p1, system_plugins := p2, user_plugins := p3, env_path_exists := ex\<rparr>)"

inductive_cases writesE: "writes el el'"
inductive_cases el_stepE: "el_step el el'"

inductive reachable :: "el \<Rightarrow> el \<Rightarrow> bool" for start :: el where
  here: "reachable start start"
| further: "reachable start el \<Longrightarrow> el_step el el' \<Longrightarrow> reachable start el'"

section \<open>The invariant\<close>

definition sound :: "el \<Rightarrow> bool" where
  "sound el \<longleftrightarrow> is_open el \<and> journal el \<noteq> JM_OFF \<and> cache_ok (durable el)"

lemma sound_auto: "txn el = None \<Longrightarrow> sound el \<longleftrightarrow> is_open el \<and> journal el \<noteq> JM_OFF \<and> cache_ok (tb el)"
  by (simp add: sound_def durable_def)

lemma durable_auto: "txn el = None \<Longrightarrow> durable el = tb el"
  by (simp add: durable_def)

lemma sound_update:
  assumes "sound el" and "txn el = None" and "updates_event i f ok el el'" and "keeps_keys f"
  shows "sound el'"
  using assms update_event_cache_ok [OF _ assms(4), of "tb el"]
  by (auto simp: sound_auto updates_event_def split: if_splits)

lemma add_event_sound:
  assumes "rtcom_el_add_event evp el = Some (i, e, el')" and "txn el = None" and "sound el"
  shows "sound el'"
proof -
  from assms(2,3) have pre: "is_open el" "journal el \<noteq> JM_OFF" "cache_ok (tb el)"
    by (simp_all add: sound_auto)
  have op: "is_open el'" by (rule add_event_open [OF assms(1) pre(1)])
  show ?thesis
  proof (cases "i = - 1")
    case True
    with add_event_failure_atomic_rule [of evp el e el'] assms(1,3) pre op show ?thesis
      by (simp add: sound_def)
  next
    case False
    from add_event_success [OF assms(1) pre(1,2) False] have "txn el' = None" "journal el' = journal el"
      by blast+
    with add_event_cache_ok_rule [OF assms(1) False pre] op pre show ?thesis by (simp add: sound_auto)
  qed
qed

lemma add_event_full_success:
  assumes run: "rtcom_el_add_event_full evp hs atts el = Some (i, e, el')" and op: "is_open el"
    and j: "journal el \<noteq> JM_OFF" and i: "i \<noteq> - 1" and ok: "cache_ok (tb el)"
  shows "txn el' = None \<and> journal el' = journal el \<and> cache_ok (tb el')"
  using run op
proof (cases rule: add_event_full_cases)
  case rejected
  with i show ?thesis by simp
next
  case (ran ev s t r e1 el1)
  from announce_some [OF ran(3) i] have r: "r = Some i" by auto
  from add_full_body.success_commits [OF ran(2) [unfolded r]] op j
  obtain e2 d1 d2 where d: "tb d1 = tb el" "db.more d1 = db.more el"
    "add_event_full_body ev hs atts s t d1 = Some (Some i, e2, d2)" "tb el1 = tb d2" "txn el1 = None"
    "journal el1 = journal el" by auto
  from d(2) op have "is_open d1" using el_more_eq(1) by metis
  from add_full_body_success [OF d(3) this] obtain rs k tt where
    k: "(insert_event :: event_row \<Rightarrow> unit stmt) (new_event_row ev s t d1) (tb d1) = Inr (rs, Some k, tt)"
    and b: "Events (tb d2) = Events tt" "GroupCache (tb d2) = GroupCache tt" by blast
  from ok d(1) have "cache_ok (tb d1)" by simp
  from insert_event_cache_ok [OF this k] cache_ok_cong [OF b] have "cache_ok (tb d2)" by simp
  moreover have "tb el' = tb d2" "txn el' = None" "journal el' = journal el"
    using announce_event_quiet [OF ran(3)] quiet_auto [of el1 el'] quiet_journal [of el1 el'] d j
    by simp_all
  ultimately show ?thesis by simp
qed

lemma add_event_full_sound:
  assumes "rtcom_el_add_event_full evp hs atts el = Some (i, e, el')" and "txn el = None" and "sound el"
  shows "sound el'"
proof -
  from assms(2,3) have pre: "is_open el" "journal el \<noteq> JM_OFF" "cache_ok (tb el)"
    by (simp_all add: sound_auto)
  have op: "is_open el'" by (rule add_event_full_open [OF assms(1) pre(1)])
  show ?thesis
  proof (cases "i = - 1")
    case True
    with add_event_full_failure_atomic_rule [of evp hs atts el e el'] assms(1,3) pre op show ?thesis
      by (simp add: sound_def)
  next
    case False
    from add_event_full_success [OF assms(1) pre(1,2) False pre(3)] op pre show ?thesis
      by (simp add: sound_auto)
  qed
qed

lemma update_remotes_op_sound:
  assumes run: "update_remotes_op (map stmt xs) el = Some (ok, e, el')" and "txn el = None" and "sound el"
    and st: "\<And>x. x \<in> set xs \<Longrightarrow>
       \<exists>P f. stmt x = update_remotes P f \<and> (\<forall>r. upd x r = (if P r then f r else r))"
  shows "sound el'"
proof -
  from assms(2,3) have pre: "is_open el" "journal el \<noteq> JM_OFF" "cache_ok (tb el)"
    by (simp_all add: sound_auto)
  have op: "is_open el'" by (rule update_remotes_op_open [OF run pre(1)])
  show ?thesis
  proof (cases ok)
    case False
    with update_remotes_op_failed [of "map stmt xs" el e el'] run pre op assms(3) show ?thesis
      by (simp add: sound_def)
  next
    case True
    with run have run: "update_remotes_op (map stmt xs) el = Some (True, e, el')" by simp
    from update_remotes_op_done [OF run pre(1,2) st]
    have t: "tb el' = (tb el)\<lparr>Remotes := map (fold upd xs) (Remotes (tb el))\<rparr>" "txn el' = None" by auto
    have "cache_ok (tb el') = cache_ok (tb el)" by (rule cache_ok_cong) (simp_all add: t(1))
    moreover have "journal el' = journal el"
    proof -
      from run pre(1) obtain u e1 el1 where i: "in_transaction False (exec_all (map stmt xs)) el =
          Some (Some u, e1, el1)" and el': "el' = emit_dbus ''RefreshHint'' (- 1) None el1"
        by (auto simp: update_remotes_op_def split: option.splits prod.splits)
      from exec_all.success_commits [OF i TrueI] pre(2) have "journal el1 = journal el" by auto
      with quiet_journal [OF emit_dbus_quiet, of el1] pre(2) show ?thesis by (simp add: el')
    qed
    ultimately show ?thesis using t(2) op pre by (simp add: sound_auto)
  qed
qed

lemma deletion_sound:
  assumes "txn el1 = None" and "journal el1 = JM_TRUNCATE" and "cache_ok (tb el1)" and "is_open el1"
  shows "sound (emit_dbus s i x el1)"
  using deletion_announced [OF assms(1,2), of s i x] assms(3,4) quiet_open [OF emit_dbus_quiet [of el1 s i x]]
  by (simp add: sound_auto)

text \<open>Where a deletion that returns is known to have run to its end.\<close>

lemma delete_event_sound:
  assumes run: "rtcom_el_delete_event holds j el = Some (r, e, el')" and "txn el = None" and "sound el"
    and "script el = []" and "plain_groups el"
  shows "sound el'"
proof (cases "1 \<le> j")
  case False
  with run assms(2,3) show ?thesis by (auto simp: rtcom_el_delete_event_def sound_auto)
next
  case True
  from assms(2,3) have pre: "is_open el" "cache_ok (tb el)" by (simp_all add: sound_auto)
  let ?d = "el\<lparr>journal := JM_OFF, txn := Some (tb el), errcode := None\<rparr>"
  have d: "script ?d = []" "plain_groups ?d" "events_wf (tb ?d)"
    using assms(4,5) cache_okD(1) [OF pre(2)] by simp_all
  obtain d' where b: "delete_event_body holds j ?d = Some (True, d')"
    using delete_event_body_total [OF d(1) True d(2,3)] by blast
  have calm: "script d' = [] \<and> txn d' = Some (tb el)"
    if "delete_event_body holds j ?d = Some (True, d')" for d'
    using delete_event_body_calm [OF d(1) True d(2) that] by simp
  obtain el1 where x: "run_deletion (delete_event_body holds j) el = Some (True, el1)"
    using run_deletion_calm [OF assms(4,2) calm] b by blast
  with run pre True have el': "el' = emit_dbus ''EventDeleted'' j None el1"
    by (simp add: rtcom_el_delete_event_def)
  from delete_event.run_effect [OF assms(4,2) _ x] assms(5) True pre show ?thesis
    unfolding el' by (intro deletion_sound) auto
qed

lemma run_deletion_total:
  assumes "script el = []" and "txn el = None"
    and b: "body (el\<lparr>journal := JM_OFF, txn := Some (tb el), errcode := None\<rparr>) = Some (True, d')"
    and "script d' = []" and "txn d' = Some (tb el)"
  shows "\<exists>el1. run_deletion body el = Some (True, el1)"
proof -
  have "script d'' = [] \<and> txn d'' = Some (tb el)"
    if "body (el\<lparr>journal := JM_OFF, txn := Some (tb el), errcode := None\<rparr>) = Some (True, d'')" for d''
    using that assms(3-5) by simp
  from run_deletion_calm [OF assms(1,2) this] b show ?thesis by blast
qed

lemma delete_by_service_sound:
  assumes run: "rtcom_el_delete_by_service sv el = Some (ok, el')" and "txn el = None" and "sound el"
    and "script el = []"
  shows "sound el'"
proof -
  from assms(2,3) have pre: "is_open el" "cache_ok (tb el)" by (simp_all add: sound_auto)
  show ?thesis
  proof (cases "\<exists>s. rtcom_el_get_service_id sv el = Some s \<and> s \<noteq> - 1")
    case False
    with run pre have "el' = el"
      by (auto simp: rtcom_el_delete_by_service_def split: option.splits if_splits)
    with assms(3) show ?thesis by simp
  next
    case True
    then obtain s where s: "rtcom_el_get_service_id sv el = Some s" "s \<noteq> - 1" by blast
    let ?d = "el\<lparr>journal := JM_OFF, txn := Some (tb el), errcode := None\<rparr>"
    have d: "script ?d = []" using assms(4) by simp
    obtain ok d' where b: "delete_by_service_body s ?d = Some (ok, d')"
      unfolding delete_by_service_body_def by (metis surj_pair)
    from delete_by_service_calm [OF d b] have "ok" "script d' = []" "txn d' = Some (tb el)" by simp_all
    with run_deletion_total [OF assms(4,2), of _ d'] b obtain el1 where
      x: "run_deletion (delete_by_service_body s) el = Some (True, el1)" by auto
    with run pre s have el': "el' = emit_dbus ''AllDeleted'' (- 1) sv el1"
      by (simp add: rtcom_el_delete_by_service_def)
    from delete_by_service.run_effect [OF assms(4,2) TrueI x] pre show ?thesis
      unfolding el' by (intro deletion_sound) auto
  qed
qed

lemma delete_by_group_uids_sound:
  assumes run: "rtcom_el_delete_by_group_uids (Some gs) el = Some (ok, el')" and "txn el = None"
    and "sound el" and "script el = []"
  shows "sound el'"
proof -
  from assms(2,3) have pre: "is_open el" "cache_ok (tb el)" by (simp_all add: sound_auto)
  let ?d = "el\<lparr>journal := JM_OFF, txn := Some (tb el), errcode := None\<rparr>"
  have d: "script ?d = []" using assms(4) by simp
  obtain ok1 d' where b: "delete_groups gs ?d = (ok1, d')" by (metis surj_pair)
  from delete_groups_calm [OF d b] have "ok1" "script d' = []" "txn d' = Some (tb el)" by simp_all
  with run_deletion_total [OF assms(4,2), of "delete_by_group_uids_body gs" d'] b obtain el1 where
    x: "run_deletion (delete_by_group_uids_body gs) el = Some (True, el1)"
    by (auto simp: delete_by_group_uids_body_def)
  with run pre have el': "el' = emit_dbus ''RefreshHint'' (- 1) None el1"
    by (simp add: rtcom_el_delete_by_group_uids_def)
  from delete_by_group_uids.run_effect [OF assms(4,2) TrueI x] pre show ?thesis
    unfolding el' by (intro deletion_sound) auto
qed

lemma set_read_loop_sound:
  "set_read_loop ids rd r0 el = (r, e, el') \<Longrightarrow> txn el = None \<Longrightarrow> sound el \<Longrightarrow> sound el'"
proof (induction ids rd r0 el arbitrary: r e el' rule: set_read_loop.induct)
  case (2 i ids rd r0 el)
  obtain r1 e1 el1 where x: "rtcom_el_set_read_event i rd el = (r1, e1, el1)" by (metis prod_cases3)
  from set_read_updates [OF x] "2.prems"(2,3) have u: "updates_event i
      (\<lambda>e. e\<lparr>e_is_read := (if rd = 1 then 1 else 0)\<rparr>) (r1 \<noteq> - 1) el el1" by (simp add: sound_auto)
  from sound_update [OF "2.prems"(3,2) u keeps_keys_fields(1)] u
  have "sound el1" "txn el1 = None" by (simp_all add: updates_event_def)
  with "2.IH" [OF _ x [symmetric] refl] "2.prems" x show ?case by (auto split: if_splits)
qed simp

lemma steady_sound:
  assumes "steady el el'" and "txn el = None" and "sound el"
  shows "sound el'"
proof -
  from assms have s: "txn el' = None" "journal el' = journal el" "is_open el' = is_open el"
    "keeps_events (tb el) (tb el')" by (auto simp: steady_def sound_def)
  with cache_ok_cong [of "tb el'" "tb el"] assms(2,3) show ?thesis
    by (simp add: sound_auto keeps_events_def)
qed

lemma add_header_steady:
  assumes "rtcom_el_add_header j k v el = (i, e, el')" and "is_open el"
  shows "steady el el'"
  using assms
  by (auto simp: rtcom_el_add_header_def split: prod.splits if_splits dest!: steady_statements(5))

text \<open>An attachment is work on files and then, at most, one statement.\<close>

lemma add_attachment_end:
  assumes run: "rtcom_el_add_attachment j path desc el = Some (i, e, el')" and op: "is_open el"
  obtains "same_db el el'"
  | d p ok rows x where "same_db el d"
      and "rtcom_el_db_exec (Stmt (insert_attachment j p desc) :: unit sql) d = (ok, rows, x, el')"
proof (cases "j < 0 \<or> path = None")
  case True
  with run op that(1) show ?thesis by (auto simp: rtcom_el_add_attachment_def split: if_splits)
next
  case False
  then obtain p where p: "path = Some p" "\<not> j < 0" by auto
  let ?dir = "attachments_dir el"
  obtain ok1 el1 where m1: "(if fs el ?dir = None then g_mkdir ?dir el else (True, el)) = (ok1, el1)"
    by (metis surj_pair)
  have s1: "same_db el el1" using m1 g_mkdir_same [of el ?dir] by (auto split: if_splits)
  show ?thesis
  proof (cases ok1)
    case False
    with run op p m1 s1 that(1) show ?thesis by (auto simp: rtcom_el_add_attachment_def)
  next
    case ok1: True
    with run op p m1 obtain u where u: "build_unique_dirname ?dir el1 = Some u"
      by (auto simp: rtcom_el_add_attachment_def Let_def split: option.splits)
    obtain ok2 el2 where m2: "g_mkdir u el1 = (ok2, el2)" by (metis surj_pair)
    with s1 g_mkdir_same [of el1 u] have s2: "same_db el el2" by (auto intro: same_db_trans)
    let ?dest = "build_filename u (basename el2 p)"
    obtain ok3 el3 where c: "copy_file p ?dest el2 = (ok3, el3)" by (metis surj_pair)
    with s2 copy_file_same [of el2 p ?dest] have s3: "same_db el el3" by (auto intro: same_db_trans)
    obtain ok4 rows x el4 where ex:
      "rtcom_el_db_exec (Stmt (insert_attachment j ?dest desc) :: unit sql) el3 = (ok4, rows, x, el4)"
      by (rule prod_cases4)
    have "el' \<in> {el2, el3, el4}"
      using run op p m1 ok1 u m2 c ex
      by (auto simp: rtcom_el_add_attachment_def Let_def split: if_splits)
    then consider "el' = el2" | "el' = el3" | "el' = el4" by blast
    then show ?thesis
    proof cases
      case 1
      with s2 that(1) show ?thesis by simp
    next
      case 2
      with s3 that(1) show ?thesis by simp
    next
      case 3
      with that(2) [OF s3] ex show ?thesis by simp
    qed
  qed
qed

lemma add_attachment_sound:
  assumes run: "rtcom_el_add_attachment j path desc el = Some (i, e, el')" and "txn el = None" and "sound el"
  shows "sound el'"
proof -
  from assms(3) have "is_open el" by (simp add: sound_def)
  with run show ?thesis
  proof (cases rule: add_attachment_end)
    case 1
    with assms(2,3) show ?thesis by (simp add: sound_auto same_db_def)
  next
    case (2 d p ok rows x)
    from 2(1) assms(2,3) have d: "txn d = None" "sound d" by (simp_all add: sound_auto same_db_def)
    have "steady d el'"
      by (rule steady_exec [OF 2(2)]) (auto simp: insert_attachment_def keeps_events_def Let_def)
    from steady_sound [OF this d] show ?thesis .
  qed
qed

lemma writes_sound:
  assumes "writes el el'" and "sound el"
  shows "sound el'"
  using assms
proof (induction rule: writes.induct)
  case (write_add el evp i e el')
  note s = write_add(3)
  with add_event_sound write_add(1,2) show ?case by blast
next
  case (write_add_full el evp hs atts i e el')
  note s = write_add_full(3)
  with add_event_full_sound write_add_full(1,2) show ?case by blast
next
  case (write_set_read el j rd r e el')
  note s = write_set_read(3)
  from set_read_updates [OF write_set_read(2)] s write_set_read(1) have "updates_event j
      (\<lambda>e. e\<lparr>e_is_read := (if rd = 1 then 1 else 0)\<rparr>) (r \<noteq> - 1) el el'" by (simp add: sound_auto)
  from sound_update [OF s write_set_read(1) this keeps_keys_fields(1)] show ?case .
next
  case (write_set_flag el j fl r e el')
  note s = write_set_flag(3)
  from change_event_flag_updates [OF write_set_flag(2) [unfolded rtcom_el_set_event_flag_def]] s write_set_flag(1)
  have "updates_event j (\<lambda>e. e\<lparr>e_flags := e_flags e OR stored_flag_value fl (tb el)\<rparr>) (r \<noteq> - 1) el el'"
    by (simp add: sound_auto)
  from sound_update [OF s write_set_flag(1) this keeps_keys_fields(2)] show ?case .
next
  case (write_unset_flag el j fl r e el')
  note s = write_unset_flag(3)
  from change_event_flag_updates [OF write_unset_flag(2) [unfolded rtcom_el_unset_event_flag_def]] s write_unset_flag(1)
  have "updates_event j (\<lambda>e. e\<lparr>e_flags := e_flags e AND NOT (stored_flag_value fl (tb el))\<rparr>)
      (r \<noteq> - 1) el el'" by (simp add: sound_auto)
  from sound_update [OF s write_unset_flag(1) this keeps_keys_fields(2)] show ?case .
next
  case (write_end_time el j t ok e el')
  note s = write_end_time(3)
  from set_end_time_updates [OF write_end_time(2)] s write_end_time(1) have "updates_event j (new_end_time t) ok el el'"
    by (simp add: sound_auto)
  from sound_update [OF s write_end_time(1) this] show ?case by (simp add: keeps_keys_def new_end_time_def)
next
  case (write_contacts el cs ok e el')
  note s = write_contacts(3)
  show ?case
  proof (cases "cs = []")
    case True
    with write_contacts(2) s show ?thesis by (simp add: rtcom_el_update_remote_contacts_def)
  next
    case False
    with write_contacts(2) have "update_remotes_op (map update_contact cs) el = Some (ok, e, el')"
      by (simp add: rtcom_el_update_remote_contacts_def)
    then show ?thesis
      by (rule update_remotes_op_sound [OF _ write_contacts(1) s, where upd = "\<lambda>c r.
          if remote_is (rc_remote_uid c) (rc_local_uid c) r
          then r\<lparr>rm_abook_uid := rc_abook_uid c, rm_remote_name := rc_remote_name c\<rparr> else r"])
        (auto simp: update_contact_def intro!: exI)
  qed
next
  case (write_abook el us ok e el')
  note s = write_abook(3)
  show ?case
  proof (cases "us = []")
    case True
    with write_abook(2) s show ?thesis by (simp add: rtcom_el_remove_abook_uids_def)
  next
    case False
    with write_abook(2) have "update_remotes_op (map forget_abook_uid us) el = Some (ok, e, el')"
      by (simp add: rtcom_el_remove_abook_uids_def)
    then show ?thesis
      by (rule update_remotes_op_sound [OF _ write_abook(1) s, where upd = drop_uid])
        (auto simp: forget_abook_uid_def drop_uid_def intro!: exI)
  qed
next
  case (write_delete el holds j r e el')
  note s = write_delete(5)
  with delete_event_sound write_delete(1-4) show ?case by blast
next
  case (write_delete_query el holds w e el')
  note s = write_delete_query(5)
  from write_delete_query(1) s have pre: "is_open el" "cache_ok (tb el)" by (simp_all add: sound_auto)
  with write_delete_query(4) obtain el1 where r: "run_deletion (delete_events_body holds w) el = Some (True, el1)"
    and el': "el' = emit_dbus ''RefreshHint'' (- 1) None el1"
    by (auto simp: rtcom_el_delete_events_def split: if_splits)
  from delete_events.run_effect [OF write_delete_query(2,1,3) r] pre show ?case
    unfolding el' by (intro deletion_sound) auto
next
  case (write_delete_service el sv ok el')
  note s = write_delete_service(4)
  with delete_by_service_sound write_delete_service(1-3) show ?case by blast
next
  case (write_delete_groups el gs ok el')
  note s = write_delete_groups(4)
  with delete_by_group_uids_sound write_delete_groups(1-3) show ?case by blast
next
  case (write_header el j k v i e el')
  from write_header(3) have "is_open el" by (simp add: sound_def)
  from steady_sound [OF add_header_steady [OF write_header(2) this] write_header(1,3)] show ?case .
next
  case (write_attachment el j path desc i e el')
  from add_attachment_sound [OF write_attachment(2,1,3)] show ?case .
next
  case (write_set_reads el js rd r e el')
  from set_read_loop_sound [of _ rd "- 1" el r e el'] write_set_reads show ?case
    by (auto simp: rtcom_el_set_read_events_def split: option.splits if_splits)
qed

lemma unharmed_sound: "unharmed el el' \<Longrightarrow> sound el \<Longrightarrow> sound el'"
  by (simp add: unharmed_def sound_def)

text \<open>What holds of every object: if its database is open, it is sound.\<close>

definition settled :: "el \<Rightarrow> bool" where
  "settled el \<longleftrightarrow> (is_open el \<longrightarrow> sound el)"

lemma ensure_db_settled:
  assumes "ensure_db reopen el = (ok, el')" and "\<not> is_open el" and "openable el"
  shows "settled el'"
  using ensure_db_opens [OF assms(1,2)] assms(3)
  by (auto simp: settled_def sound_def openable_def durable_def split: if_splits)

lemma message_settled:
  assumes "settled el" and "is_open el \<or> openable el"
  shows "settled (dbus_filter_callback interface args_ok msg el)"
proof -
  have emit: "settled (g_signal_emit s d) = settled d" for s d
    by (simp add: settled_def sound_def g_signal_emit_def durable_def cong: option.case_cong)
  obtain ok el1 where "ensure_db False el = (ok, el1)" by (metis surj_pair)
  with ensure_db_settled [OF this] assms show ?thesis
    by (auto simp: dbus_filter_callback_def emit split: option.splits bool.splits)
qed

lemma init_settled:
  assumes "rtcom_el_init added el = (listens, el')" and "openable el"
  shows "settled el'"
proof -
  let ?d = "el\<lparr>services := None, event_types := None, flags := None, is_open := False,
      last_group_uid := None, plugins := Map.empty\<rparr>"
  have "openable ?d" using assms(2) by (simp add: openable_def plugin_dirs_def)
  moreover obtain ok el1 where e: "ensure_db True ?d = (ok, el1)" by (metis surj_pair)
  ultimately have "settled el1" by (intro ensure_db_settled [OF e]) simp_all
  with assms(1) e show ?thesis
    by (auto simp: rtcom_el_init_def Let_def settled_def split: if_splits)
qed

lemma step_settled:
  assumes "el_step el el'" and "settled el"
  shows "settled el'"
  using assms
proof (induction rule: el_step.induct)
  case (step_writes el el')
  with writes_sound show ?case by (auto simp: settled_def)
next
  case (step_reads el el')
  with unharmed_sound [OF reads_unharmed] show ?case by (auto simp: settled_def)
next
  case (step_iter_end el it el')
  with unharmed_sound [OF iter_finalize_unharmed] show ?case by (auto simp: settled_def)
next
  case (step_open el reopen ok el')
  with ensure_db_settled show ?case by blast
next
  case (step_message el interface args_ok msg)
  with message_settled show ?case by blast
next
  case (step_init el added listens el')
  with init_settled show ?case by blast
next
  case (step_dispose el)
  then show ?case by (simp add: settled_def sound_def rtcom_el_dispose_def durable_def cong: option.case_cong)
next
  case (step_finalize el el')
  then show ?case by (auto simp: settled_def rtcom_el_finalize_def)
next
  case (step_world el s a t b ats p1 p2 p3 ex)
  then show ?case by (simp add: settled_def sound_def durable_def cong: option.case_cong)
qed

text \<open>C1: The group cache is sound in every state an object reaches by the steps above. These are: the
  opening of its database, also a repair and an opening after a message, of files with a sound cache and with plugins
  that write no events; additions of events, headers and attachments, updates, queries, iterators and messages,
  whatever SQLite refuses in them; the deletions by id, by query (one that returns TRUE), by service and by
  groups, when SQLite refuses nothing in them and, in the first two, no group uid contains a quote; no operation
  that writes while a transaction is open. In every such state the durable tables of an open database have a sound
  cache and there is a journal. A deletion with a refusal and \<open>rtcom_el_delete_all\<close> are no steps:
  they may leave a cache that is wrong (\<open>delete_event_ignores_lookup_error\<close>, \<open>delete_all_leaves_cache\<close>).\<close>

theorem reachable_sound:
  assumes "reachable start el" and "is_open el"
    and "is_open start \<Longrightarrow> journal start \<noteq> JM_OFF \<and> cache_ok (durable start)"
  shows "journal el \<noteq> JM_OFF \<and> cache_ok (durable el)"
proof -
  from assms(1) have "settled el"
  proof (induction rule: reachable.induct)
    case here
    from assms(3) show ?case by (simp add: settled_def sound_def)
  next
    case (further el el')
    then show ?case using step_settled by blast
  qed
  with assms(2) show ?thesis by (simp add: settled_def sound_def)
qed

text \<open>A logger whose database is closed: it opens it and adds an event.\<close>

definition closed_el :: el where
  "closed_el = sample_el\<lparr>is_open := False,
     attempts := [\<lparr>op_dir = True, op_converted = True, op_opened = Some (sample_tables, None)\<rparr>]\<rparr>"

lemma closed_el_adds:
  "map_option fst (rtcom_el_add_event (Some (sample_event ''CALL'')) (snd (ensure_db True closed_el))) = Some 4"
  by code_simp

theorem reachable_sound_witness:
  "\<exists>el e. reachable closed_el el \<and> rtcom_el_add_event (Some (sample_event ''CALL''))
     (snd (ensure_db True closed_el)) = Some (4, e, el) \<and> cache_ok (durable el)"
proof -
  obtain ok el1 where op: "ensure_db True closed_el = (ok, el1)" by (metis surj_pair)
  with closed_el_adds obtain e el where
    run: "rtcom_el_add_event (Some (sample_event ''CALL'')) el1 = Some (4, e, el)" by auto
  have c: "\<not> is_open closed_el" "openable closed_el"
    using sample_open(4,5) by (simp_all add: closed_el_def openable_def sound_attempt_def plugin_dirs_def
      sample_el_def harmless_dir_def)
  from step_open [OF c op] have r: "reachable closed_el el1" by (rule further [OF here])
  have "is_open (snd (ensure_db True closed_el))" "txn (snd (ensure_db True closed_el)) = None" by code_simp+
  with op have o: "is_open el1" "txn el1 = None" by simp_all
  from step_writes [OF o(1) write_add [OF o(2) run]] have r: "reachable closed_el el"
    by (rule further [OF r])
  from reachable_sound [OF r add_event_open [OF run o(1)]] c(1) r run op show ?thesis by auto
qed

end
