(* ===== verification/El_Client.thy ===== *)
theory El_Client
  imports El_Bus El_Delete_Props El_Read
begin

text \<open>
  The command line client, src/client/el-client.c: \<open>main\<close> after the options were parsed, from the creation of
  the object to its end.
\<close>

section \<open>Options and output\<close>

text \<open>The variables the options are stored in: \<open>None\<close> (NULL) or 0 where one is not given.\<close>

record client_args =
  arg_command :: "string option"
  arg_service :: "string option"
  arg_event_type :: "string option"
  arg_remote_ebook_uid :: "string option"
  arg_local_uid :: "string option"
  arg_local_name :: "string option"
  arg_remote_uid :: "string option"
  arg_remote_name :: "string option"
  arg_channel :: "string option"
  arg_free_text :: "string option"
  arg_group_uid :: "string option"
  arg_start_time :: int
  arg_end_time :: int
  arg_flags :: int
  arg_event_id :: int
  arg_flag_value :: "string option"
  arg_vcard_field :: "string option"

datatype client_output =
    ARGUMENT_REQUIRED string
  | EVENT_ADDED int
  | ERROR_ADDING_EVENT
  | ACTION_SUCCEEDED bool
  | NUMBER_OF_EVENTS "string option" int

text \<open>The exit status, what is printed, and the object's database; \<open>None\<close>: the process was aborted.\<close>

type_synonym client_result = "(int \<times> client_output list \<times> el) option"

definition argument_required :: "string \<Rightarrow> el \<Rightarrow> client_result" where
  "argument_required name el = Some (- 1, [ARGUMENT_REQUIRED name], el)"

text \<open>The last reference is dropped: \<open>dispose\<close> and \<open>finalize\<close>.\<close>

definition g_object_unref :: "el \<Rightarrow> el option" where
  "g_object_unref el = rtcom_el_finalize (rtcom_el_dispose el)"

definition finish :: "client_output list \<Rightarrow> el \<Rightarrow> client_result" where
  "finish out el = map_option (\<lambda>el1. (0, out, el1)) (g_object_unref el)"

section \<open>The commands\<close>

definition set_text ::
    "ev_field \<Rightarrow> (string option \<Rightarrow> RTComElEvent \<Rightarrow> RTComElEvent) \<Rightarrow> string option
      \<Rightarrow> RTComElEvent \<Rightarrow> RTComElEvent" where
  "set_text f store v ev = (if v \<noteq> None then event_set_field f (store v) ev else ev)"

definition client_event :: "client_args \<Rightarrow> RTComElEvent" where
  "client_event args =
     (let ev = rtcom_el_event_new;
          ev = event_set_field F_service (\<lambda>e. e\<lparr>fld_service := arg_service args\<rparr>) ev;
          ev = event_set_field F_event_type (\<lambda>e. e\<lparr>fld_event_type := arg_event_type args\<rparr>) ev;
          ev = event_set_field F_flags (\<lambda>e. e\<lparr>fld_flags := arg_flags args\<rparr>) ev;
          ev = set_text F_remote_ebook_uid (\<lambda>v e. e\<lparr>fld_remote_ebook_uid := v\<rparr>) (arg_remote_ebook_uid args) ev;
          ev = set_text F_local_uid (\<lambda>v e. e\<lparr>fld_local_uid := v\<rparr>) (arg_local_uid args) ev;
          ev = set_text F_local_name (\<lambda>v e. e\<lparr>fld_local_name := v\<rparr>) (arg_local_name args) ev;
          ev = (if arg_start_time args \<noteq> 0
                then event_set_field F_start_time (\<lambda>e. e\<lparr>fld_start_time := arg_start_time args\<rparr>) ev else ev);
          ev = (if arg_end_time args \<noteq> 0
                then event_set_field F_end_time (\<lambda>e. e\<lparr>fld_end_time := arg_end_time args\<rparr>) ev else ev);
          ev = set_text F_remote_uid (\<lambda>v e. e\<lparr>fld_remote_uid := v\<rparr>) (arg_remote_uid args) ev;
          ev = set_text F_remote_name (\<lambda>v e. e\<lparr>fld_remote_name := v\<rparr>) (arg_remote_name args) ev;
          ev = set_text F_channel (\<lambda>v e. e\<lparr>fld_channel := v\<rparr>) (arg_channel args) ev;
          ev = set_text F_free_text (\<lambda>v e. e\<lparr>fld_free_text := v\<rparr>) (arg_free_text args) ev
      in set_text F_group_uid (\<lambda>v e. e\<lparr>fld_group_uid := v\<rparr>) (arg_group_uid args) ev)"

definition client_add :: "client_args \<Rightarrow> el \<Rightarrow> client_result" where
  "client_add args el =
     (if arg_service args = None then argument_required ''service'' el
      else if arg_event_type args = None then argument_required ''event_type'' el
      else case rtcom_el_add_event (Some (client_event args)) el of
             None \<Rightarrow> None
           | Some (event_id, _, el1) \<Rightarrow>
               if 0 < event_id
               then (let el2 = (if arg_vcard_field args \<noteq> None
                                then snd (snd (rtcom_el_add_header event_id (Some ''vcard-field'')
                                                 (arg_vcard_field args) el1))
                                else el1)
                     in finish [EVENT_ADDED event_id] el2)
               else Some (- 1, [ERROR_ADDING_EVENT], el1))"

text \<open>The results of the three functions are stored in one \<open>gboolean\<close>.\<close>

definition client_delete :: "where_meaning \<Rightarrow> client_args \<Rightarrow> el \<Rightarrow> client_result" where
  "client_delete holds args el =
     (case (if 0 < arg_event_id args
            then map_option (\<lambda>(i, _, el1). (i, el1)) (rtcom_el_delete_event holds (arg_event_id args) el)
            else if arg_service args \<noteq> None
            then map_option (\<lambda>(ok, el1). (of_bool ok, el1)) (rtcom_el_delete_by_service (arg_service args) el)
            else map_option (\<lambda>(ok, el1). (of_bool ok, el1)) (rtcom_el_delete_all el)) of
        None \<Rightarrow> None
      | Some (ret, el1) \<Rightarrow> finish [ACTION_SUCCEEDED (ret \<noteq> (0 :: int))] el1)"

definition client_flag ::
    "(int \<Rightarrow> string option \<Rightarrow> el \<Rightarrow> int \<times> RTComElError option \<times> el) \<Rightarrow> client_args \<Rightarrow> el \<Rightarrow> client_result"
where
  "client_flag change args el =
     (if arg_event_id args = 0 then argument_required ''event_id'' el
      else if arg_flag_value args = None then argument_required ''flag_value'' el
      else finish [] (snd (snd (change (arg_event_id args) (arg_flag_value args) el))))"

definition client_count :: "client_args \<Rightarrow> el \<Rightarrow> client_result" where
  "client_count args el =
     (case rtcom_el_count_by_service (arg_service args) el of
        None \<Rightarrow> None
      | Some (n, el1) \<Rightarrow> finish [NUMBER_OF_EVENTS (arg_service args) n] el1)"

definition client_main :: "where_meaning \<Rightarrow> bool \<Rightarrow> client_args \<Rightarrow> el \<Rightarrow> client_result" where
  "client_main holds filter_added args el0 =
     (case arg_command args of
        None \<Rightarrow> argument_required ''command'' el0
      | Some command \<Rightarrow>
          let el = snd (rtcom_el_init filter_added el0)
          in if command = ''add'' then client_add args el
             else if command = ''delete'' then client_delete holds args el
             else if command = ''set-flag'' then client_flag rtcom_el_set_event_flag args el
             else if command = ''unset-flag'' then client_flag rtcom_el_unset_event_flag args el
             else if command = ''count'' then client_count args el
             else finish [] el)"

section \<open>The end of the object\<close>

lemma unref_closed:
  assumes "is_open el" and "txn el = None"
  shows "\<exists>el'. g_object_unref el = Some el' \<and> tb el' = tb el \<and> \<not> is_open el'"
  using assms
  by (simp add: g_object_unref_def rtcom_el_finalize_def rtcom_el_dispose_def rtcom_el_db_close_def
      free_db_representation_def unload_plugins_def undo_def)

text \<open>C34: The client's delete command reports the opposite of what it did: \<open>rtcom_el_delete_event\<close> returns 0 for
  success and -1 for an error, and the client takes that for a boolean. A deletion that SQLite goes ahead
  with removes exactly the event that was named, leaves a sound group cache, and is reported as
  failed.\<close>

theorem client_delete_reports_failure:
  assumes "arg_command args = Some ''delete''" and "1 \<le> arg_event_id args"
    and "rtcom_el_init filter_added el0 = (listens, el)" and "is_open el" and "script el = []"
    and "txn el = None" and "plain_groups el" and "cache_ok (tb el)"
  shows "\<exists>el'. client_main holds filter_added args el0 = Some (0, [ACTION_SUCCEEDED False], el') \<and>
     Events (tb el') = filter (\<lambda>e. e_id e \<noteq> arg_event_id args) (Events (tb el)) \<and> cache_ok (tb el')"
proof -
  from delete_event_done [OF assms(4-8,2), of holds] obtain el1 where
    d: "rtcom_el_delete_event holds (arg_event_id args) el = Some (0, None, el1)" "is_open el1" "txn el1 = None"
      "Events (tb el1) = filter (\<lambda>e. e_id e \<noteq> arg_event_id args) (Events (tb el))" "cache_ok (tb el1)" by blast
  from unref_closed [OF d(2,3)] obtain el2 where "g_object_unref el1 = Some el2" "tb el2 = tb el1" by blast
  with d assms(1-3) show ?thesis by (simp add: client_main_def client_delete_def finish_def)
qed

definition client_el :: el where
  "client_el = sample_el\<lparr>attempts :=
     [\<lparr>op_dir = True, op_converted = True, op_opened = Some (sample_tables, None)\<rparr>]\<rparr>"

lemma client_starts:
  "\<exists>el. rtcom_el_init True client_el = (True, el) \<and> is_open el \<and> script el = [] \<and> txn el = None \<and>
     tb el = sample_tables \<and> scan_order el = (\<lambda>xs. xs)"
  by (simp add: rtcom_el_init_def client_el_def sample_el_def ensure_db_def connect_def Let_def
      build_db_representation_def rtcom_el_db_cache_lookup_table_def exec_calm select_rows_def
      load_plugins_def scan_plugins_dir_def emit_dbus_def)

theorem client_delete_reports_failure_witness:
  "\<exists>el'. client_main (\<lambda>w. None) True
       \<lparr>arg_command = Some ''delete'', arg_service = None, arg_event_type = None, arg_remote_ebook_uid = None,
        arg_local_uid = None, arg_local_name = None, arg_remote_uid = None, arg_remote_name = None,
        arg_channel = None, arg_free_text = None, arg_group_uid = None, arg_start_time = 0, arg_end_time = 0,
        arg_flags = 0, arg_event_id = 2, arg_flag_value = None, arg_vcard_field = None\<rparr> client_el =
      Some (0, [ACTION_SUCCEEDED False], el') \<and> map e_id (Events (tb el')) = [1, 3]"
    (is "\<exists>el'. client_main _ _ ?args _ = _ \<and> _")
proof -
  from client_starts obtain el where el: "rtcom_el_init True client_el = (True, el)" "is_open el" "script el = []"
    "txn el = None" "tb el = sample_tables" "scan_order el = (\<lambda>xs. xs)" by blast
  have "tb el = tb sample_el" "scan_order el = scan_order sample_el" by (simp_all add: el sample_el_def)
  then have "plain_groups el" "cache_ok (tb el)"
    using sample_plain sample_open(4) by (simp_all add: plain_groups_def)
  moreover have "arg_command ?args = Some ''delete''" "1 \<le> arg_event_id ?args" by simp_all
  ultimately obtain el' where "client_main (\<lambda>w. None) True ?args client_el =
      Some (0, [ACTION_SUCCEEDED False], el')" "Events (tb el') = filter (\<lambda>e. e_id e \<noteq> 2) (Events sample_tables)"
    using client_delete_reports_failure [of ?args True client_el True el "\<lambda>w. None"] el by auto
  then show ?thesis
    by (intro exI [of _ el']) (simp add: sample_tables_def sample_row_def)
qed

end
