(* ===== verification/El_Open.thy ===== *)
theory El_Open
  imports El_Db
begin

text \<open>
  Database files: the schema of src/db.c as the list of its statements, \<open>_internal_open\<close> with
  the creation of the schema and the repair of a corrupted file, \<open>rtcom_el_db_open\<close>.
\<close>

section \<open>Schema objects\<close>

text \<open>
  Of a table, index or trigger only the name counts here, and whether its definition is the
  one of \<open>db_schema_sql\<close> (an older version may have left another under the same name).
\<close>

type_synonym schema = "string \<rightharpoonup> bool"

datatype schema_stmt =
    SET_USER_VERSION int
  | CREATE_IF_NOT_EXISTS string
  | DROP_TRIGGER_IF_EXISTS string

definition db_schema_sql :: "schema_stmt list" where
  "db_schema_sql =
     [SET_USER_VERSION 1,
      CREATE_IF_NOT_EXISTS ''Services'', CREATE_IF_NOT_EXISTS ''idx_srv_plugin_id'',
      CREATE_IF_NOT_EXISTS ''EventTypes'', CREATE_IF_NOT_EXISTS ''idx_et_plugin_id'',
      CREATE_IF_NOT_EXISTS ''Flags'', CREATE_IF_NOT_EXISTS ''Plugins'',
      CREATE_IF_NOT_EXISTS ''Attachments'', CREATE_IF_NOT_EXISTS ''idx_att_event_id'',
      CREATE_IF_NOT_EXISTS ''Headers'', CREATE_IF_NOT_EXISTS ''idx_hdr_event_id'',
      CREATE_IF_NOT_EXISTS ''Remotes'', CREATE_IF_NOT_EXISTS ''Events'',
      CREATE_IF_NOT_EXISTS ''GroupCache'',
      CREATE_IF_NOT_EXISTS ''idx_ev_service_id'', CREATE_IF_NOT_EXISTS ''idx_ev_event_type_id'',
      CREATE_IF_NOT_EXISTS ''idx_ev_group_uid'', CREATE_IF_NOT_EXISTS ''idx_ev_remote_uid'',
      CREATE_IF_NOT_EXISTS ''idx_gc_group_uid'',
      CREATE_IF_NOT_EXISTS ''fkd_services_event_types_plugin_id'',
      CREATE_IF_NOT_EXISTS ''fkd_flags_service_id'',
      CREATE_IF_NOT_EXISTS ''fkd_headers_atts_event_id'',
      CREATE_IF_NOT_EXISTS ''gc_update_ev_add1'',
      DROP_TRIGGER_IF_EXISTS ''gc_update_ev_add2'', DROP_TRIGGER_IF_EXISTS ''gc_update_ev_add3'',
      DROP_TRIGGER_IF_EXISTS ''gc_update_ev_update'',
      CREATE_IF_NOT_EXISTS ''gc_update_ev_add4'', CREATE_IF_NOT_EXISTS ''gc_update_ev_update'']"

definition rtcom_el_db_schema_get_sql :: "schema_stmt list" where
  "rtcom_el_db_schema_get_sql = db_schema_sql"

text \<open>REQUIRED_USER_VERSION.\<close>

definition required_user_version :: int where
  "required_user_version = 1"

section \<open>Files and connections\<close>

text \<open>
  A file is no database (or its image is malformed), or it has a schema, a user version and
  the rows of its tables. \<open>answers\<close> are those of SQLite to the calls to come, \<open>unlinks\<close> the results
  of \<open>g_unlink\<close> and \<open>g_rename\<close> (none left: they work), \<open>tearing\<close> is the \<open>torn\<close> of the connections.
\<close>

datatype db_file = NotADatabase | Database schema int tables

record disk =
  files :: "string \<rightharpoonup> db_file"
  answers :: "answer list"
  unlinks :: "bool list"
  tearing :: "tables \<Rightarrow> tables \<Rightarrow> tables"

text \<open>
  A connection to a file. \<open>before\<close> is what ROLLBACK restores; \<open>damaged\<close>: SQLite reports every
  statement as one on a file that is no database.
\<close>

record conn = db +
  schema_objects :: schema
  user_version :: int
  before :: "schema \<times> int"
  damaged :: bool

definition new_conn :: "disk \<Rightarrow> schema \<Rightarrow> int \<Rightarrow> tables \<Rightarrow> bool \<Rightarrow> conn" where
  "new_conn w objs v t dam =
     \<lparr>tb = t, txn = None, journal = JM_DELETE, script = tl (answers w), last_rowid = 0, errcode = None,
      torn = tearing w, jm_fixed = True, schema_objects = objs, user_version = v,
      before = (objs, v), damaged = dam\<rparr>"

definition sqlite3_open :: "string \<Rightarrow> disk \<Rightarrow> sqlite_error + conn" where
  "sqlite3_open fname w =
     (case answers w of
        Refuse c t rb # as \<Rightarrow> Inl c
      | _ \<Rightarrow>
          Inr (case files w fname of
                 None \<Rightarrow> new_conn w Map.empty 0 empty_tables False
               | Some NotADatabase \<Rightarrow> new_conn w Map.empty 0 empty_tables True
               | Some (Database objs v t) \<Rightarrow> new_conn w objs v t False))"

text \<open>What a connection leaves in its file: an open transaction is rolled back.\<close>

definition on_disk :: "conn \<Rightarrow> db_file" where
  "on_disk c =
     (if damaged c then NotADatabase
      else case txn c of
             None \<Rightarrow> Database (schema_objects c) (user_version c) (tb c)
           | Some sv \<Rightarrow> Database (fst (before c)) (snd (before c)) (tb (undo c)))"

text \<open>The file once more, with the answers the connection did not use.\<close>

definition sync :: "string \<Rightarrow> conn \<Rightarrow> disk \<Rightarrow> disk" where
  "sync fname c w = w\<lparr>files := (files w)(fname \<mapsto> on_disk c), answers := script c\<rparr>"

section \<open>Statements\<close>

definition rolled_back :: "conn \<Rightarrow> conn \<Rightarrow> conn" where
  "rolled_back c c1 =
     (if txn c \<noteq> None \<and> txn c1 = None
      then c1\<lparr>schema_objects := fst (before c), user_version := snd (before c)\<rparr> else c1)"

definition exec_sql :: "'r sql \<Rightarrow> conn \<Rightarrow> bool \<times> 'r list \<times> RTComElError option \<times> conn" where
  "exec_sql q c =
     (if damaged c then (False, [], Some RTCOM_EL_DATABASE_CORRUPTED, c)
      else case rtcom_el_db_exec q c of
             (ok, rows, e, c1) \<Rightarrow> (ok, rows, e, if ok then c1 else rolled_back c c1))"

text \<open>A statement that reads, or a PRAGMA that only sets a mode not modelled here.\<close>

definition nothing :: "unit sql" where
  "nothing = Stmt (\<lambda>t. Inr ([], None, t))"

fun schema_effect :: "schema_stmt \<Rightarrow> conn \<Rightarrow> conn" where
  "schema_effect (SET_USER_VERSION v) c = c\<lparr>user_version := v\<rparr>"
| "schema_effect (CREATE_IF_NOT_EXISTS n) c =
     (if schema_objects c n = None then c\<lparr>schema_objects := (schema_objects c)(n \<mapsto> True)\<rparr> else c)"
| "schema_effect (DROP_TRIGGER_IF_EXISTS n) c = c\<lparr>schema_objects := (schema_objects c)(n := None)\<rparr>"

definition exec_schema :: "schema_stmt \<Rightarrow> conn \<Rightarrow> bool \<times> RTComElError option \<times> conn" where
  "exec_schema s c =
     (case exec_sql nothing c of
        (ok, _, e, c1) \<Rightarrow> (ok, e, if ok then schema_effect s c1 else c1))"

definition begin_exclusive :: "conn \<Rightarrow> bool \<times> RTComElError option \<times> conn" where
  "begin_exclusive c =
     (if damaged c then (False, Some RTCOM_EL_DATABASE_CORRUPTED, c)
      else case rtcom_el_db_transaction True c of
             (ok, e, c1) \<Rightarrow>
               (ok, e, if ok then c1\<lparr>before := (schema_objects c, user_version c)\<rparr> else c1))"

definition commit_conn :: "conn \<Rightarrow> bool \<times> RTComElError option \<times> conn" where
  "commit_conn c =
     (case rtcom_el_db_commit c of (ok, e, c1) \<Rightarrow> (ok, e, if ok then c1 else rolled_back c c1))"

definition rollback_conn :: "conn \<Rightarrow> conn" where
  "rollback_conn c = rolled_back c (snd (snd (rtcom_el_db_rollback c)))"

section \<open>Opening\<close>

datatype attempt = Ready conn | GaveUp conn | Corrupted conn

text \<open>What follows an error: the jump to \<open>db_schema_ready\<close> while the file is locked.\<close>

definition schema_failed :: "RTComElError option \<Rightarrow> conn \<Rightarrow> attempt" where
  "schema_failed e c =
     (if e = Some RTCOM_EL_TEMPORARY_ERROR then Ready c
      else if e = Some RTCOM_EL_DATABASE_CORRUPTED then Corrupted c
      else GaveUp c)"

fun install_schema :: "schema_stmt list \<Rightarrow> conn \<Rightarrow> attempt" where
  "install_schema [] c =
     (case commit_conn c of (ok, _, c1) \<Rightarrow> if ok then Ready c1 else GaveUp c1)"
| "install_schema (s # ss) c =
     (case exec_schema s c of
        (True, _, c1) \<Rightarrow> install_schema ss c1
      | (False, e, c1) \<Rightarrow> schema_failed e c1)"

definition create_schema :: "conn \<Rightarrow> attempt" where
  "create_schema c =
     (case exec_sql (PRAGMA_JOURNAL JM_MEMORY :: unit sql) c of
        (_, _, _, c1) \<Rightarrow>
          (case begin_exclusive c1 of
             (True, _, c2) \<Rightarrow> install_schema rtcom_el_db_schema_get_sql c2
           | (False, e, c2) \<Rightarrow> schema_failed e c2))"

text \<open>The label \<open>db_schema_ready\<close>.\<close>

definition schema_ready :: "conn \<Rightarrow> conn" where
  "schema_ready c =
     (case exec_sql (PRAGMA_JOURNAL JM_TRUNCATE :: unit sql) c of
        (_, _, _, c1) \<Rightarrow> snd (snd (snd (exec_sql nothing c1))))"

text \<open>\<open>_internal_open\<close> on a file that could be opened.\<close>

definition check_and_create :: "conn \<Rightarrow> attempt" where
  "check_and_create c =
     (case exec_sql nothing c of
        (False, _, e, c1) \<Rightarrow>
          if e = Some RTCOM_EL_DATABASE_CORRUPTED then Corrupted c1 else GaveUp c1
      | (True, _, _, c1) \<Rightarrow>
          (case exec_sql (Stmt (select_rows (\<lambda>t. [Some (user_version c1)]))) c1 of
             (_, rows, _, c2) \<Rightarrow>
               (case (if rtcom_el_db_single_int rows 0 < required_user_version then create_schema c2
                      else Ready c2) of
                  Ready c3 \<Rightarrow> Ready (schema_ready c3)
                | GaveUp c3 \<Rightarrow> GaveUp c3
                | Corrupted c3 \<Rightarrow> Corrupted c3)))"

definition g_unlink :: "string \<Rightarrow> disk \<Rightarrow> bool \<times> disk" where
  "g_unlink fname w =
     (case unlinks w of
        False # us \<Rightarrow> (False, w\<lparr>unlinks := us\<rparr>)
      | _ \<Rightarrow> (files w fname \<noteq> None, w\<lparr>files := (files w)(fname := None), unlinks := tl (unlinks w)\<rparr>))"

definition handle_corrupted ::
    "(string \<Rightarrow> disk \<Rightarrow> conn option \<times> disk) \<Rightarrow> string \<Rightarrow> bool \<Rightarrow> disk \<Rightarrow> conn option \<times> disk" where
  "handle_corrupted reopen fname try_repairing w =
     (case g_unlink fname w of
        (ok, w1) \<Rightarrow> if try_repairing \<and> ok then reopen fname w1 else (None, w1))"

definition open_with ::
    "(string \<Rightarrow> disk \<Rightarrow> conn option \<times> disk) \<Rightarrow> string \<Rightarrow> bool \<Rightarrow> disk \<Rightarrow> conn option \<times> disk" where
  "open_with reopen fname try_repairing w =
     (case sqlite3_open fname w of
        Inl c \<Rightarrow>
          let w1 = w\<lparr>answers := tl (answers w)\<rparr>
          in if c \<in> {SQLITE_CORRUPT, SQLITE_FORMAT, SQLITE_NOTADB}
             then handle_corrupted reopen fname try_repairing w1 else (None, w1)
      | Inr c \<Rightarrow>
          (case check_and_create c of
             Ready c1 \<Rightarrow> (Some c1, sync fname c1 w)
           | GaveUp c1 \<Rightarrow> (None, sync fname c1 w)
           | Corrupted c1 \<Rightarrow> handle_corrupted reopen fname try_repairing (sync fname c1 w)))"

text \<open>
  The recursion of \<open>_internal_open\<close> and \<open>_handle_corrupted\<close> ends after one step: the second time
  \<open>try_repairing\<close> is FALSE, and the file is not opened again.
\<close>

definition internal_open :: "string \<Rightarrow> bool \<Rightarrow> disk \<Rightarrow> conn option \<times> disk" where
  "internal_open fname try_repairing =
     open_with (\<lambda>f. open_with (\<lambda>_ w. (None, w)) f False) fname try_repairing"

definition rtcom_el_db_open :: "string \<Rightarrow> disk \<Rightarrow> conn option \<times> disk" where
  "rtcom_el_db_open fname = internal_open fname True"

end
