(* ===== verification/El_Convert.thy ===== *)
theory El_Convert
  imports El_Open El_Text
begin

text \<open>
  The conversion of a version 0 database, src/db.c: \<open>_internal_convert_v0\<close>, which changes the
  tables, and \<open>rtcom_el_db_convert_from_db0\<close>, which works on a copy of the old file and then renames it.
\<close>

section \<open>Statements that may fail\<close>

text \<open>A step of the conversion: \<open>None\<close> is the jump to \<open>err\<close>.\<close>

type_synonym 'x step = "conn \<Rightarrow> 'x option \<times> conn"

definition andthen :: "'x step \<Rightarrow> ('x \<Rightarrow> 'y step) \<Rightarrow> 'y step" where
  "andthen m f c = (case m c of (None, c1) \<Rightarrow> (None, c1) | (Some x, c1) \<Rightarrow> f x c1)"

definition runsql :: "'r sql \<Rightarrow> 'r list step" where
  "runsql q c = (case exec_sql q c of (ok, rows, _, c1) \<Rightarrow> (if ok then Some rows else None, c1))"

definition ignore :: "'x step \<Rightarrow> unit step" where
  "ignore m c = (Some (), snd (m c))"

definition require :: "bool \<Rightarrow> unit step" where
  "require b c = (if b then Some () else None, c)"

fun all_steps :: "unit step list \<Rightarrow> unit step" where
  "all_steps [] = Pair (Some ())"
| "all_steps (m # ms) = andthen m (\<lambda>_. all_steps ms)"

definition runschema :: "schema_stmt \<Rightarrow> unit step" where
  "runschema s c = (case exec_schema s c of (ok, _, c1) \<Rightarrow> (if ok then Some () else None, c1))"

section \<open>The statements\<close>

text \<open>
  ALTER TABLE Events ADD COLUMN fails without the table (a copy that was not made) and where the
  column exists: in a file whose user version is not 0.
\<close>

definition alter_events :: "(event_row \<Rightarrow> event_row) \<Rightarrow> unit step" where
  "alter_events f c =
     andthen (runsql (Stmt (\<lambda>t.
        if schema_objects c ''Events'' = None \<or> user_version c \<noteq> 0 then Inl SQLITE_ERROR
        else Inr ([], None, t\<lparr>Events := map f (Events t)\<rparr>)) :: unit sql)) (\<lambda>_. Pair (Some ())) c"

text \<open>
  UPDATE Events fires the triggers of the old file, whatever they are: \<open>trg\<close> is what they do to
  GroupCache.
\<close>

type_synonym old_trigger = "event_row \<Rightarrow> event_row \<Rightarrow> cache_row list \<Rightarrow> cache_row list"

definition update_v0 :: "old_trigger \<Rightarrow> (tables \<Rightarrow> event_row \<Rightarrow> bool) \<Rightarrow> (event_row \<Rightarrow> event_row) \<Rightarrow> unit stmt"
where
  "update_v0 trg P f t =
     Inr ([], None, t\<lparr>Events := map (\<lambda>e. if P t e then f e else e) (Events t),
       GroupCache := fold (\<lambda>e gc. if P t e then trg e (f e) gc else gc) (Events t) (GroupCache t)\<rparr>)"

definition of_outbound_type :: "tables \<Rightarrow> event_row \<Rightarrow> bool" where
  "of_outbound_type t e \<longleftrightarrow>
     e_event_type_id e \<in> et_id ` set (filter (\<lambda>r. like ''%_OUTBOUND'' (et_name r)) (EventTypes t))"

definition set_outgoing_v0 :: "old_trigger \<Rightarrow> unit stmt" where
  "set_outgoing_v0 trg = update_v0 trg of_outbound_type (\<lambda>e. e\<lparr>e_outgoing := 1\<rparr>)"

definition map_type :: "old_trigger \<Rightarrow> int \<Rightarrow> int \<Rightarrow> unit stmt" where
  "map_type trg new old =
     update_v0 trg (\<lambda>t e. e_event_type_id e = old) (\<lambda>e. e\<lparr>e_event_type_id := new\<rparr>)"

definition type_ids :: "string \<Rightarrow> int option sql" where
  "type_ids name =
     Stmt (select_rows (\<lambda>t. map (\<lambda>r. Some (et_id r)) (filter (\<lambda>r. et_name r = name) (EventTypes t))))"

definition rename_type :: "string \<Rightarrow> string \<Rightarrow> unit stmt" where
  "rename_type old new t =
     (if old \<in> et_name ` set (EventTypes t) \<and> new \<noteq> old \<and> new \<in> et_name ` set (EventTypes t)
      then Inl SQLITE_CONSTRAINT
      else Inr ([], None, t\<lparr>EventTypes :=
             map (\<lambda>r. if et_name r = old then r\<lparr>et_name := new\<rparr> else r) (EventTypes t)\<rparr>))"

definition delete_type :: "string \<Rightarrow> unit stmt" where
  "delete_type name t =
     Inr ([], None, t\<lparr>EventTypes := filter (\<lambda>r. et_name r \<noteq> name) (EventTypes t)\<rparr>)"

section \<open>The conversion\<close>

definition inbound :: "string \<Rightarrow> string" where
  "inbound service = ''RTCOM_EL_EVENTTYPE_'' @ service @ ''_INBOUND''"

definition outbound :: "string \<Rightarrow> string" where
  "outbound service = ''RTCOM_EL_EVENTTYPE_'' @ service @ ''_OUTBOUND''"

definition message :: "string \<Rightarrow> string" where
  "message service =
     ''RTCOM_EL_EVENTTYPE_'' @ service @ (if service \<noteq> ''CALL'' then ''_MESSAGE'' else [])"

text \<open>\<open>services\<close>, \<open>eventtypes\<close> and \<open>flags\<close> of the function.\<close>

definition v0_services :: "string list" where
  "v0_services = [''CHAT'', ''CALL'', ''SMS'']"

definition v1_eventtypes :: "(string \<times> string) list" where
  "v1_eventtypes =
     [(''RTCOM_EL_EVENTTYPE_CHAT_NOTICE'', ''Notice''),
      (''RTCOM_EL_EVENTTYPE_CHAT_ACTION'', ''Action message''),
      (''RTCOM_EL_EVENTTYPE_CHAT_AUTOREPLY'', ''Autoreply message''),
      (''RTCOM_EL_EVENTTYPE_CHAT_JOIN'', ''Group chat joined''),
      (''RTCOM_EL_EVENTTYPE_CHAT_LEAVE'', ''Group chat leave''),
      (''RTCOM_EL_EVENTTYPE_CHAT_TOPIC'', ''Group chat topic change'')]"

definition v1_flags :: "(string \<times> int \<times> string) list" where
  "v1_flags =
     [(''RTCOM_EL_FLAG_CHAT_GROUP'', 1, ''Groupchat message''),
      (''RTCOM_EL_FLAG_CHAT_ROOM'', 2, ''Groupchat is room with channel_id''),
      (''RTCOM_EL_FLAG_CHAT_OPAQUE'', 4, ''Channel identifier is opaque''),
      (''RTCOM_EL_FLAG_CHAT_OFFLINE'', 8, ''Offline message'')]"

text \<open>The result of the DELETE is not looked at.\<close>

definition convert_service :: "old_trigger \<Rightarrow> string \<Rightarrow> unit step" where
  "convert_service trg service =
     andthen (runsql (type_ids (inbound service))) (\<lambda>rows.
       let i = rtcom_el_db_single_int rows 0
       in andthen (require (i \<noteq> 0)) (\<lambda>_.
          andthen (runsql (type_ids (outbound service))) (\<lambda>rows.
            let old = rtcom_el_db_single_int rows 0
            in andthen (require (old \<noteq> 0)) (\<lambda>_.
               andthen (runsql (Stmt (map_type trg i old))) (\<lambda>_.
               andthen (runsql (Stmt (rename_type (inbound service) (message service)))) (\<lambda>_.
               ignore (runsql (Stmt (delete_type (outbound service))))))))))"

definition add_eventtype :: "int \<Rightarrow> string \<times> string \<Rightarrow> unit step" where
  "add_eventtype plugin ty =
     andthen (runsql (Stmt (insert_eventtype (fst ty) plugin (Some (snd ty))) :: unit sql))
       (\<lambda>_. Pair (Some ()))"

definition add_flag :: "int \<Rightarrow> string \<times> int \<times> string \<Rightarrow> unit step" where
  "add_flag service fl =
     andthen (runsql (Stmt (insert_flag service (fst fl) (fst (snd fl)) (Some (snd (snd fl)))) :: unit sql))
       (\<lambda>_. Pair (Some ()))"

text \<open>The results of the statements on triggers are not looked at either.\<close>

definition v1_triggers :: "schema_stmt list" where
  "v1_triggers =
     [DROP_TRIGGER_IF_EXISTS ''gc_update_ev_add2'', DROP_TRIGGER_IF_EXISTS ''gc_update_ev_add3'',
      DROP_TRIGGER_IF_EXISTS ''gc_update_ev_update'',
      CREATE_IF_NOT_EXISTS ''gc_update_ev_add4'', CREATE_IF_NOT_EXISTS ''gc_update_ev_update'']"

definition conversion :: "old_trigger \<Rightarrow> unit step" where
  "conversion trg =
     andthen (alter_events (\<lambda>e. e\<lparr>e_outgoing := 0\<rparr>)) (\<lambda>_.
     andthen (alter_events id) (\<lambda>_.
     andthen (runsql (Stmt (set_outgoing_v0 trg))) (\<lambda>_.
     andthen (all_steps (map (convert_service trg) v0_services)) (\<lambda>_.
     andthen (runsql (Stmt (select_rows (\<lambda>t. take 1 (map (\<lambda>r. Some (et_plugin_id r))
               (filter (\<lambda>r. et_name r = message ''CHAT'') (EventTypes t))))))) (\<lambda>rows.
       let plugin = rtcom_el_db_single_int rows 0
       in andthen (require (plugin \<noteq> 0)) (\<lambda>_.
          andthen (all_steps (map (add_eventtype plugin) v1_eventtypes)) (\<lambda>_.
          andthen (runsql (Stmt (select_rows (\<lambda>t. map (\<lambda>r. Some (sv_id r))
                    (filter (\<lambda>r. sv_plugin_id r = plugin) (Services t)))))) (\<lambda>rows.
            let service = rtcom_el_db_single_int rows 0
            in andthen (require (service \<noteq> 0)) (\<lambda>_.
               andthen (all_steps (map (add_flag service) v1_flags)) (\<lambda>_.
               andthen (all_steps (map (ignore \<circ> runschema) v1_triggers)) (\<lambda>_.
               runschema (SET_USER_VERSION 1))))))))))))"

definition internal_convert_v0 :: "old_trigger \<Rightarrow> conn \<Rightarrow> bool \<times> conn" where
  "internal_convert_v0 trg c =
     (case andthen (conversion trg) (\<lambda>_ c1.
         case commit_conn c1 of (ok, _, c2) \<Rightarrow> (if ok then Some () else None, c2)) c of
        (Some _, c1) \<Rightarrow> (True, c1)
      | (None, c1) \<Rightarrow> (False, rollback_conn c1))"

section \<open>Copying and renaming\<close>

text \<open>
  The values of \<open>RTComElError\<close>; \<open>err->code\<close> is compared with SQLite's codes CORRUPT, FORMAT, NOTADB,
  ABORT and INTERRUPT, of which one is the value of RTCOM_EL_DATABASE_CORRUPTED.
\<close>

fun error_code :: "RTComElError \<Rightarrow> int" where
  "error_code RTCOM_EL_INTERNAL_ERROR = 0"
| "error_code RTCOM_EL_INVALID_ARGUMENT_ERROR = 1"
| "error_code RTCOM_EL_TEMPORARY_ERROR = 2"
| "error_code RTCOM_EL_DATABASE_FULL = 3"
| "error_code RTCOM_EL_DATABASE_CORRUPTED = 4"

definition temp_unusable :: "RTComElError \<Rightarrow> bool" where
  "temp_unusable e \<longleftrightarrow> error_code e \<in> {11, 24, 26, 4, 9}"

text \<open>
  The loop over \<open>sqlite3_backup_step\<close>: whether \<open>sqlite3_backup_finish\<close> returns SQLITE_OK, which
  it does unless a step failed for another reason than a lock, and whether the copy was made.
\<close>

fun backup_steps :: "nat \<Rightarrow> answer list \<Rightarrow> bool \<times> bool \<times> answer list" where
  "backup_steps 0 as = (True, False, as)"
| "backup_steps (Suc n) as =
     (case as of
        Refuse c t rb # as' \<Rightarrow> if is_busy c then backup_steps n as' else (False, False, as')
      | _ \<Rightarrow> (True, True, tl as))"

text \<open>
  From \<open>sqlite3_backup_init\<close>, which may refuse, to \<open>sqlite3_backup_finish\<close>. A copy that stopped half way leaves
  tables about which nothing is assumed.
\<close>

definition backup :: "conn \<Rightarrow> conn \<Rightarrow> bool \<times> conn" where
  "backup old c =
     (case script c of
        Refuse e t rb # as \<Rightarrow> (False, c\<lparr>script := as\<rparr>)
      | _ \<Rightarrow>
          if damaged old then (False, c\<lparr>script := tl (script c)\<rparr>)
          else
            (case backup_steps 100 (tl (script c)) of
               (True, True, as) \<Rightarrow>
                 (True, c\<lparr>tb := tb old, schema_objects := schema_objects old,
                          user_version := user_version old, script := as\<rparr>)
             | (True, False, as) \<Rightarrow> (True, c\<lparr>script := as\<rparr>)
             | (False, _, as) \<Rightarrow> (False, c\<lparr>tb := torn c (tb c) (tb old), script := as\<rparr>)))"

definition g_rename :: "string \<Rightarrow> string \<Rightarrow> disk \<Rightarrow> bool \<times> disk" where
  "g_rename from_name to_name w =
     (case unlinks w of
        False # us \<Rightarrow> (False, w\<lparr>unlinks := us\<rparr>)
      | _ \<Rightarrow>
          (case files w from_name of
             None \<Rightarrow> (False, w\<lparr>unlinks := tl (unlinks w)\<rparr>)
           | Some x \<Rightarrow>
               (True, w\<lparr>files := (files w)(from_name := None, to_name \<mapsto> x),
                        unlinks := tl (unlinks w)\<rparr>)))"

section \<open>The conversion of a file\<close>

definition temp_fname :: "string \<Rightarrow> string" where
  "temp_fname fname = fname @ ''.temp''"

text \<open>
  The function up to its recursive call; \<open>None\<close>: the file left by a process that was killed is out
  of the way, once more. Of a transaction that could not be started \<open>err\<close> is always set. The results of
  \<open>g_unlink\<close> and \<open>g_rename\<close> are not looked at.
\<close>

definition convert_attempt ::
    "old_trigger \<Rightarrow> string \<Rightarrow> string \<Rightarrow> disk \<Rightarrow> bool option \<times> disk" where
  "convert_attempt trg fname old_fname w =
     (let temp = temp_fname fname; w1 = w\<lparr>answers := tl (answers w)\<rparr>
      in if files w fname \<noteq> None then (Some True, w)
         else if files w old_fname = None then (Some True, w)
         else
           (case sqlite3_open old_fname w of
              Inl _ \<Rightarrow> (Some True, w1)
            | Inr old \<Rightarrow>
                (case sqlite3_open temp w1 of
                   Inl _ \<Rightarrow> (Some False, w1\<lparr>answers := tl (answers w1)\<rparr>)
                 | Inr c \<Rightarrow>
                     (case exec_sql (PRAGMA_JOURNAL JM_OFF :: unit sql) c of
                        (_, _, _, c1) \<Rightarrow>
                          (case begin_exclusive c1 of
                             (False, e, c2) \<Rightarrow>
                               let w2 = sync temp c2 w1
                               in if e \<noteq> None \<and> temp_unusable (the e) then (None, snd (g_unlink temp w2))
                                  else (Some False, w2)
                           | (True, _, c2) \<Rightarrow>
                               (case backup old c2 of
                                  (False, c3) \<Rightarrow> (Some False, snd (g_unlink temp (sync temp c3 w1)))
                                | (True, c3) \<Rightarrow>
                                    (case internal_convert_v0 trg c3 of
                                       (True, c4) \<Rightarrow> (Some True, snd (g_rename temp fname (sync temp c4 w1)))
                                     | (False, c4) \<Rightarrow> (Some False, snd (g_unlink temp (sync temp c4 w1))))))))))"

text \<open>
  The recursion ends: each turn uses up an answer of SQLite or of \<open>g_unlink\<close>, or removes a file that is no
  database. A file that can never be removed is tried again forever.
\<close>

lemma iterate_length:
  "rtcom_el_db_iterate as = (r, as') \<Longrightarrow>
     length as' \<le> length as \<and> (r \<noteq> Stepped \<longrightarrow> length as' < length as)"
  by (induction as rule: rtcom_el_db_iterate.induct) (auto split: if_splits)

lemma exec_length:
  assumes "rtcom_el_db_exec q c = (ok, rows, e, c1)" and "effect q c = Inr ([], c2)"
  shows "length (script c1) \<le> length (script c) \<and>
     (\<not> ok \<longrightarrow> length (script c1) < length (script c))"
proof -
  obtain r as' where it: "rtcom_el_db_iterate (tl (script c)) = (r, as')" by (metis surj_pair)
  from iterate_length [OF it] have l: "length as' \<le> length (script c) - 1"
    "r \<noteq> Stepped \<longrightarrow> length as' < length (script c) - 1" by simp_all
  from assms it l show ?thesis
    by (cases q; cases "script c"; cases r)
      (auto simp: rtcom_el_db_exec_def Let_def split: answer.splits)
qed

lemma begin_exclusive_length:
  assumes "begin_exclusive c = (ok, e, c1)" and "txn c = None"
  shows "length (script c1) \<le> length (script c) \<and>
     (\<not> ok \<longrightarrow> damaged c \<or> length (script c1) < length (script c)) \<and> damaged c1 = damaged c \<and>
     (damaged c \<longrightarrow> c1 = c)"
proof (cases "damaged c")
  case False
  with assms obtain rows c2 where ex: "rtcom_el_db_exec (BEGIN_EXCLUSIVE :: unit sql) c = (ok, rows, e, c2)"
    and c1: "c1 = (if ok then c2\<lparr>before := (schema_objects c, user_version c)\<rparr> else c2)"
    by (auto simp: begin_exclusive_def rtcom_el_db_transaction_def split: prod.splits)
  from exec_length [OF ex, of "c\<lparr>txn := Some (tb c)\<rparr>"] exec_more [OF ex] assms(2) c1 False show ?thesis
    by (cases c; cases c1; cases c2) auto
qed (use assms in \<open>auto simp: begin_exclusive_def\<close>)

lemma pragma_length:
  assumes "exec_sql (PRAGMA_JOURNAL m :: unit sql) c = (ok, rows, e, c1)" and "txn c = None"
  shows "length (script c1) \<le> length (script c) \<and> damaged c1 = damaged c \<and> txn c1 = None \<and>
     (damaged c \<longrightarrow> c1 = c)"
proof (cases "damaged c")
  case False
  with assms(1) obtain c2 where ex: "rtcom_el_db_exec (PRAGMA_JOURNAL m :: unit sql) c = (ok, rows, e, c2)"
    and c1: "c1 = (if ok then c2 else rolled_back c c2)"
    by (auto simp: exec_sql_def split: prod.splits)
  have "txn c2 = None"
  proof (cases ok)
    case True
    with ex assms(2) show ?thesis by (auto elim!: exec_ok)
  next
    case False
    have "txn (refused b rb c new) = None" for b rb new
      using assms(2) by (simp add: refused_def undo_def Let_def)
    with ex False assms(2) show ?thesis by (auto elim!: exec_failed)
  qed
  moreover have "effect (PRAGMA_JOURNAL m :: unit sql) c = Inr ([], c\<lparr>journal := m\<rparr>)" using assms(2) by simp
  ultimately show ?thesis
    using exec_length [OF ex] exec_more [OF ex] c1 assms(2) False
    by (cases c; cases c2) (auto simp: rolled_back_def)
qed (use assms in \<open>auto simp: exec_sql_def\<close>)

definition attempts_left :: "string \<Rightarrow> disk \<Rightarrow> nat" where
  "attempts_left fname w =
     length (answers w) + length (unlinks w) +
     (if files w (temp_fname fname) = Some NotADatabase then 1 else 0)"

lemma opened_conn:
  assumes "sqlite3_open fname w = Inr c"
  shows "script c = tl (answers w) \<and> txn c = None \<and>
     (damaged c \<longleftrightarrow> files w fname = Some NotADatabase)"
  using assms
  by (auto simp: sqlite3_open_def new_conn_def split: list.splits answer.splits option.splits db_file.splits)

lemma retry_closer:
  assumes "convert_attempt trg fname old_fname w = (None, w')"
  shows "attempts_left fname w' < attempts_left fname w"
proof -
  let ?temp = "temp_fname fname" and ?w1 = "w\<lparr>answers := tl (answers w)\<rparr>"
  from assms obtain c ok rows e0 c1 e c2 where o: "sqlite3_open ?temp ?w1 = Inr c"
    and p: "exec_sql (PRAGMA_JOURNAL JM_OFF :: unit sql) c = (ok, rows, e0, c1)"
    and b: "begin_exclusive c1 = (False, e, c2)" and w': "w' = snd (g_unlink ?temp (sync ?temp c2 ?w1))"
    by (auto simp: convert_attempt_def Let_def split: if_splits sum.splits prod.splits bool.splits)
  from opened_conn [OF o] have c: "script c = tl (tl (answers w))" "txn c = None"
    "damaged c \<longleftrightarrow> files w ?temp = Some NotADatabase" by simp_all
  from pragma_length [OF p c(2)] have c1: "length (script c1) \<le> length (answers w) - 2"
    "damaged c1 = damaged c" "txn c1 = None" using c(1) by (simp_all add: numeral_2_eq_2)
  from begin_exclusive_length [OF b c1(3)] have c2: "length (script c2) \<le> length (script c1)"
    "damaged c2 = damaged c" "damaged c \<or> length (script c2) < length (script c1)" using c1(2) by simp_all
  show ?thesis
    using c1(1) c2 c(3)
    by (cases "unlinks w"; cases "hd (unlinks w)")
      (auto simp: w' attempts_left_def g_unlink_def sync_def on_disk_def split: option.splits)
qed

function rtcom_el_db_convert_from_db0 ::
    "old_trigger \<Rightarrow> string \<Rightarrow> string \<Rightarrow> disk \<Rightarrow> bool \<times> disk" where
  "rtcom_el_db_convert_from_db0 trg fname old_fname w =
     (case convert_attempt trg fname old_fname w of
        (Some success, w') \<Rightarrow> (success, w')
      | (None, w') \<Rightarrow> rtcom_el_db_convert_from_db0 trg fname old_fname w')"
  by pat_completeness auto

termination
  by (relation "measure (\<lambda>(trg, fname, old_fname, w). attempts_left fname w)") (auto simp: retry_closer)

declare rtcom_el_db_convert_from_db0.simps [simp del]

end
