(* ===== verification/El_Open_Props.thy ===== *)
theory El_Open_Props
  imports El_Open
begin

text \<open>
  Opening a database: no rows are lost unless SQLite reports the file as corrupted, a database
  that was opened has its schema, and a file that is no database is replaced.
\<close>

section \<open>Where errors come from\<close>

lemma iterate_error:
  "rtcom_el_db_iterate as = (Failed c e rb, as') \<Longrightarrow>
     (\<exists>t rb. Refuse c t rb \<in> set as) \<and> (e = result_error c \<or> e = RTCOM_EL_TEMPORARY_ERROR \<and> is_busy c)"
  by (induction as rule: rtcom_el_db_iterate.induct) (auto split: if_splits)

lemma iterate_rest: "rtcom_el_db_iterate as = (r, as') \<Longrightarrow> set as' \<subseteq> set as"
  by (induction as arbitrary: r rule: rtcom_el_db_iterate.induct) (auto split: if_splits)

lemma fetch_rest: "fetch rows as = (got, r, as') \<Longrightarrow> set as' \<subseteq> set as"
  by (induction rows as arbitrary: got r as' rule: fetch.induct)
    (auto split: prod.splits step_result.splits dest!: iterate_rest)

lemma fetch_error:
  "fetch rows as = (got, Failed c e rb, as') \<Longrightarrow>
     (\<exists>t rb. Refuse c t rb \<in> set as) \<and> (e = result_error c \<or> e = RTCOM_EL_TEMPORARY_ERROR \<and> is_busy c)"
proof (induction rows as arbitrary: got as' rule: fetch.induct)
  case (1 as)
  then show ?case by (auto split: prod.splits dest: iterate_error)
next
  case (2 row rows as)
  obtain r as1 where it: "rtcom_el_db_iterate as = (r, as1)" by (metis surj_pair)
  show ?case
  proof (cases r)
    case Stepped
    obtain got2 r2 as2 where f: "fetch rows as1 = (got2, r2, as2)" by (metis prod_cases3)
    with 2 it Stepped iterate_rest [OF it] show ?thesis by auto
  next
    case (Failed c' e' rb')
    with 2 it iterate_error show ?thesis by auto
  qed
qed

text \<open>What a statement leaves of the script, and the error of one that SQLite's side refused.\<close>

lemma exec_rest:
  assumes "rtcom_el_db_exec q d = (ok, rows, e, d')"
  shows "set (script d') \<subseteq> set (script d)"
proof -
  have tl: "set (tl (script d)) \<subseteq> set (script d)" by (cases "script d") auto
  from assms show ?thesis
    by (auto simp: rtcom_el_db_exec_def Let_def split: list.splits answer.splits sql.splits sum.splits
        prod.splits step_result.splits dest!: iterate_rest fetch_rest)
qed

lemma exec_error:
  assumes "rtcom_el_db_exec q d = (False, rows, e, d')" and "effect q d = Inr x" and "q \<noteq> MALFORMED"
  shows "\<exists>c t rb. Refuse c t rb \<in> set (script d) \<and>
     (e = Some (result_error c) \<or> e = Some RTCOM_EL_TEMPORARY_ERROR \<and> is_busy c)"
proof -
  obtain rs d1 where x: "x = (rs, d1)" by (cases x)
  obtain got r as' where f: "fetch rs (tl (script d)) = (got, r, as')" by (metis prod_cases3)
  show ?thesis
  proof (cases "\<exists>c t rb as. script d = Refuse c t rb # as")
    case True
    then obtain c t rb as where a: "script d = Refuse c t rb # as" by blast
    with assms(1) have "e = Some (result_error c)" by (simp add: rtcom_el_db_exec_def)
    with a show ?thesis by (intro exI [of _ c] exI [of _ t] exI [of _ rb]) simp
  next
    case False
    with assms x f obtain c rb e1 where "r = Failed c e1 rb" "e = Some e1"
      by (cases q)
        (auto simp: rtcom_el_db_exec_def Let_def split: list.splits answer.splits step_result.splits)
    with fetch_error [of rs "tl (script d)" got c e1 rb as'] f show ?thesis
      by (cases "script d") auto
  qed
qed

section \<open>Statements that leave the rows alone\<close>

definition keeps :: "tables \<Rightarrow> conn \<Rightarrow> bool" where
  "keeps t c \<longleftrightarrow> \<not> damaged c \<and> journal c \<noteq> JM_OFF \<and> tb c = t \<and> txn c \<in> {None, Some t}"

lemma keeps_on_disk: "keeps t c \<Longrightarrow> \<exists>objs v. on_disk c = Database objs v t"
  by (auto simp: keeps_def on_disk_def undo_def)

lemma conn_more:
  fixes c c1 :: conn
  assumes "db.more c1 = db.more c"
  shows "damaged c1 = damaged c" and "schema_objects c1 = schema_objects c"
    and "user_version c1 = user_version c" and "before c1 = before c"
  using assms by (cases c; cases c1; simp)+

text \<open>Answers in which SQLite does not report the file as corrupted, and those without a lock.\<close>

definition uncorrupted :: "answer list \<Rightarrow> bool" where
  "uncorrupted as \<longleftrightarrow> (\<forall>c t rb. Refuse c t rb \<in> set as \<longrightarrow> result_error c \<noteq> RTCOM_EL_DATABASE_CORRUPTED)"

definition unlocked :: "answer list \<Rightarrow> bool" where
  "unlocked as \<longleftrightarrow> (\<forall>c t rb. Refuse c t rb \<in> set as \<longrightarrow> \<not> is_busy c)"

lemma uncorrupted_subset: "set as' \<subseteq> set as \<Longrightarrow> uncorrupted as \<Longrightarrow> uncorrupted as'"
  and unlocked_subset: "set as' \<subseteq> set as \<Longrightarrow> unlocked as \<Longrightarrow> unlocked as'"
  by (auto simp: uncorrupted_def unlocked_def)

lemma exec_error_kind:
  assumes "rtcom_el_db_exec q d = (False, rows, e, d')" and "effect q d = Inr x" and "q \<noteq> MALFORMED"
  shows "(uncorrupted (script d) \<longrightarrow> e \<noteq> Some RTCOM_EL_DATABASE_CORRUPTED) \<and>
     (unlocked (script d) \<longrightarrow> e \<noteq> Some RTCOM_EL_TEMPORARY_ERROR)"
proof -
  from exec_error [OF assms] obtain b ti rb where b: "Refuse b ti rb \<in> set (script d)"
    and e: "e = Some (result_error b) \<or> e = Some RTCOM_EL_TEMPORARY_ERROR \<and> is_busy b" by blast
  have "result_error b \<noteq> RTCOM_EL_TEMPORARY_ERROR" by (cases b) simp_all
  moreover have "uncorrupted (script d) \<longrightarrow> result_error b \<noteq> RTCOM_EL_DATABASE_CORRUPTED"
    using b unfolding uncorrupted_def by blast
  moreover have "unlocked (script d) \<longrightarrow> \<not> is_busy b" using b unfolding unlocked_def by blast
  ultimately show ?thesis using e by auto
qed

text \<open>The statements \<open>_internal_open\<close> runs: their effect never fails and keeps the rows.\<close>

definition harmless :: "'r sql \<Rightarrow> bool" where
  "harmless q \<longleftrightarrow> q \<noteq> MALFORMED \<and>
     (\<forall>t c. keeps t c \<longrightarrow> (\<exists>rows c1. effect q c = Inr (rows, c1) \<and> keeps t c1 \<and>
        db.more c1 = db.more c \<and> script c1 = script c \<and> txn c1 = txn c))"

lemma harmless_simps [simp]:
  "harmless nothing" "m \<noteq> JM_OFF \<Longrightarrow> harmless (PRAGMA_JOURNAL m)" "harmless (Stmt (select_rows q))"
  by (auto simp: harmless_def nothing_def keeps_def select_rows_def)

lemma keeps_refused: 
  assumes "keeps t c"
  shows "keeps t ((refused e rb c new)\<lparr>script := as\<rparr>)"
proof -
  from assms have j: "journal c \<noteq> JM_OFF" and d: "durable c = t" "tb c = t"
    by (auto simp: keeps_def durable_def)
  from refused_cases [OF j, of e rb new] d have "tb (refused e rb c new) = t"
    "txn (refused e rb c new) \<in> {txn c, None}" by auto
  with assms conn_more(1) [OF more_refused, of e rb c new] show ?thesis
    by (auto simp: keeps_def journal_refused)
qed

lemma keeps_answered [simp]: "keeps t (c\<lparr>script := as, errcode := x\<rparr>) = keeps t c"
  by (simp add: keeps_def)

lemma failed_keeps:
  assumes "rtcom_el_db_exec q c = (False, rows, e, c1)" and "keeps t c"
  shows "keeps t c1"
  using assms(1) by (rule exec_failed) (simp_all add: assms(2) keeps_refused)

lemma failed_txn:
  assumes "rtcom_el_db_exec q c = (False, rows, e, c1)" and "keeps t c"
  shows "txn c1 \<in> {txn c, None}"
proof -
  from assms(2) have "journal c \<noteq> JM_OFF" by (simp add: keeps_def)
  then have "txn (refused b rb c new) = txn c \<or> txn (refused b rb c new) = None" for b rb new
    using refused_cases(3) [of c b rb new] by simp
  then show ?thesis using assms(1) by (elim exec_failed) simp_all
qed

lemma exec_sql_harmless:
  assumes "harmless q" and "keeps t c" and "exec_sql q c = (ok, rows, e, c')"
  shows "keeps t c' \<and> set (script c') \<subseteq> set (script c) \<and>
     (ok \<longrightarrow> schema_objects c' = schema_objects c \<and> user_version c' = user_version c \<and> txn c' = txn c \<and>
        before c' = before c) \<and>
     (txn c = None \<longrightarrow> txn c' = None \<and> schema_objects c' = schema_objects c \<and>
        user_version c' = user_version c) \<and>
     (\<not> ok \<longrightarrow> (uncorrupted (script c) \<longrightarrow> e \<noteq> Some RTCOM_EL_DATABASE_CORRUPTED) \<and>
        (unlocked (script c) \<longrightarrow> e \<noteq> Some RTCOM_EL_TEMPORARY_ERROR))"
proof -
  from assms(2) have "\<not> damaged c" by (simp add: keeps_def)
  with assms(3) obtain c1 where ex: "rtcom_el_db_exec q c = (ok, rows, e, c1)"
    and c': "c' = (if ok then c1 else rolled_back c c1)"
    by (auto simp: exec_sql_def split: prod.splits)
  from assms(1,2) obtain rs c2 where ef: "effect q c = Inr (rs, c2)" "keeps t c2"
    "db.more c2 = db.more c" "txn c2 = txn c" unfolding harmless_def by blast
  note rest = exec_rest [OF ex]
  show ?thesis
  proof (cases ok)
    case True
    with ex obtain as where "c1 = c2\<lparr>script := as, errcode := None\<rparr>"
      using ef(1) by (auto elim!: exec_ok)
    with c' True ef conn_more [of c1 c] rest show ?thesis by (auto simp: keeps_def)
  next
    case False
    have "keeps t c1" "txn c1 \<in> {txn c, None}"
      using ex False assms(2) failed_keeps [of q c] failed_txn [of q c] by auto
    then have "keeps t c'" "txn c = None \<longrightarrow> txn c' = None \<and> schema_objects c' = schema_objects c \<and>
        user_version c' = user_version c"
      using c' False conn_more [OF exec_more [OF ex]] by (auto simp: keeps_def rolled_back_def)
    moreover have "(uncorrupted (script c) \<longrightarrow> e \<noteq> Some RTCOM_EL_DATABASE_CORRUPTED) \<and>
        (unlocked (script c) \<longrightarrow> e \<noteq> Some RTCOM_EL_TEMPORARY_ERROR)"
      by (rule exec_error_kind [of q c rows e c1 "(rs, c2)"])
        (use ex False ef(1) assms(1) in \<open>auto simp: harmless_def\<close>)
    ultimately show ?thesis using rest c' False by (simp add: rolled_back_def)
  qed
qed

lemma begin_harmless: "keeps t c \<Longrightarrow> txn c = None \<Longrightarrow> effect BEGIN_EXCLUSIVE c = Inr ([], c\<lparr>txn := Some t\<rparr>)"
  by (simp add: keeps_def)

lemma begin_exclusive_keeps:
  assumes "begin_exclusive c = (ok, e, c')" and "keeps t c" and "txn c = None"
  shows "keeps t c' \<and> set (script c') \<subseteq> set (script c) \<and>
     (ok \<longrightarrow> schema_objects c' = schema_objects c \<and> user_version c' = user_version c \<and> txn c' = Some t) \<and>
     (\<not> ok \<longrightarrow> (uncorrupted (script c) \<longrightarrow> e \<noteq> Some RTCOM_EL_DATABASE_CORRUPTED) \<and>
        (unlocked (script c) \<longrightarrow> e \<noteq> Some RTCOM_EL_TEMPORARY_ERROR))"
proof -
  from assms obtain rows c1 where ex: "rtcom_el_db_exec (BEGIN_EXCLUSIVE :: unit sql) c = (ok, rows, e, c1)"
    and c': "c' = (if ok then c1\<lparr>before := (schema_objects c, user_version c)\<rparr> else c1)"
    by (auto simp: begin_exclusive_def keeps_def rtcom_el_db_transaction_def split: prod.splits)
  note rest = exec_rest [OF ex] and ef = begin_harmless [OF assms(2,3)]
  show ?thesis
  proof (cases ok)
    case True
    with ex obtain as where "c1 = c\<lparr>txn := Some t, script := as, errcode := None\<rparr>"
      using assms(2,3) by (auto elim!: exec_ok simp: keeps_def)
    with c' True rest assms(2) show ?thesis by (auto simp: keeps_def)
  next
    case False
    have f: "rtcom_el_db_exec (BEGIN_EXCLUSIVE :: unit sql) c = (False, rows, e, c1)" using ex False by simp
    then have "keeps t c1" using assms(2) by (rule failed_keeps)
    moreover have "(uncorrupted (script c) \<longrightarrow> e \<noteq> Some RTCOM_EL_DATABASE_CORRUPTED) \<and>
        (unlocked (script c) \<longrightarrow> e \<noteq> Some RTCOM_EL_TEMPORARY_ERROR)"
      by (rule exec_error_kind [OF f ef]) simp
    ultimately show ?thesis using rest c' False by simp
  qed
qed

section \<open>The schema\<close>

fun stmt_schema :: "schema_stmt \<Rightarrow> schema \<Rightarrow> schema" where
  "stmt_schema (SET_USER_VERSION v) m = m"
| "stmt_schema (CREATE_IF_NOT_EXISTS n) m = (if m n = None then m(n \<mapsto> True) else m)"
| "stmt_schema (DROP_TRIGGER_IF_EXISTS n) m = m(n := None)"

fun stmt_version :: "schema_stmt \<Rightarrow> int \<Rightarrow> int" where
  "stmt_version (SET_USER_VERSION v) x = v"
| "stmt_version _ x = x"

lemma schema_effect_simps [simp]:
  "schema_objects (schema_effect s c) = stmt_schema s (schema_objects c)"
  "user_version (schema_effect s c) = stmt_version s (user_version c)"
  "script (schema_effect s c) = script c" "txn (schema_effect s c) = txn c"
  "keeps t (schema_effect s c) = keeps t c"
  by (cases s; simp add: keeps_def)+

text \<open>
  What an attempt that starts with \<open>c\<close> may come to: \<open>R\<close> is what holds of a connection that is
  ready, unless the file was locked.
\<close>

definition outcome :: "tables \<Rightarrow> conn \<Rightarrow> (conn \<Rightarrow> bool) \<Rightarrow> attempt \<Rightarrow> bool" where
  "outcome t c R a \<longleftrightarrow>
     (case a of
        Ready c' \<Rightarrow> keeps t c' \<and> set (script c') \<subseteq> set (script c) \<and> (unlocked (script c) \<longrightarrow> R c')
      | GaveUp c' \<Rightarrow> keeps t c' \<and> set (script c') \<subseteq> set (script c)
      | Corrupted c' \<Rightarrow>
          keeps t c' \<and> set (script c') \<subseteq> set (script c) \<and> \<not> uncorrupted (script c))"

lemma outcome_later:
  assumes "outcome t c1 R a" and "set (script c1) \<subseteq> set (script c)"
  shows "outcome t c R a"
  using assms uncorrupted_subset [OF assms(2)] unlocked_subset [OF assms(2)]
  by (auto simp: outcome_def split: attempt.splits)

lemma outcome_weaken: "outcome t c R a \<Longrightarrow> (\<And>c'. R c' \<Longrightarrow> S c') \<Longrightarrow> outcome t c S a"
  by (auto simp: outcome_def split: attempt.splits)

lemma schema_failed_outcome:
  assumes "keeps t c1" and "set (script c1) \<subseteq> set (script c)"
    and "uncorrupted (script c) \<longrightarrow> e \<noteq> Some RTCOM_EL_DATABASE_CORRUPTED"
    and "unlocked (script c) \<longrightarrow> e \<noteq> Some RTCOM_EL_TEMPORARY_ERROR"
  shows "outcome t c R (schema_failed e c1)"
  using assms by (auto simp: outcome_def schema_failed_def)

lemma commit_conn_keeps:
  assumes "commit_conn c = (ok, e, c')" and "keeps t c" and "txn c = Some t"
  shows "keeps t c' \<and> set (script c') \<subseteq> set (script c) \<and>
     (ok \<longrightarrow> txn c' = None \<and> schema_objects c' = schema_objects c \<and> user_version c' = user_version c)"
proof -
  from assms obtain rows c1 where ex: "rtcom_el_db_exec (COMMIT :: unit sql) c = (ok, rows, e, c1)"
    and c': "c' = (if ok then c1 else rolled_back c c1)"
    by (auto simp: commit_conn_def rtcom_el_db_commit_def split: prod.splits)
  show ?thesis
  proof (cases ok)
    case True
    with ex obtain as where "c1 = c\<lparr>txn := None, script := as, errcode := None\<rparr>"
      using assms(3) by (auto elim!: exec_ok)
    with c' True exec_rest [OF ex] assms(2) show ?thesis by (auto simp: keeps_def)
  next
    case False
    have f: "rtcom_el_db_exec (COMMIT :: unit sql) c = (False, rows, e, c1)" using ex False by simp
    from failed_keeps [OF f assms(2)] exec_rest [OF f] False c' show ?thesis
      by (simp add: keeps_def rolled_back_def)
  qed
qed

lemma install_schema_outcome:
  assumes "keeps t c" and "txn c = Some t"
  shows "outcome t c (\<lambda>c'. txn c' = None \<and> schema_objects c' = fold stmt_schema ss (schema_objects c) \<and>
     user_version c' = fold stmt_version ss (user_version c)) (install_schema ss c)"
  using assms
proof (induction ss arbitrary: c)
  case Nil
  obtain ok e c' where m: "commit_conn c = (ok, e, c')" by (metis prod_cases3)
  from commit_conn_keeps [OF m Nil] show ?case by (auto simp: m outcome_def)
next
  case (Cons s ss)
  obtain ok rows e c1 where x: "exec_sql nothing c = (ok, rows, e, c1)" by (metis prod_cases4)
  note k = exec_sql_harmless [OF harmless_simps(1) Cons.prems(1) x]
  show ?case
  proof (cases ok)
    case True
    with k Cons.prems have "keeps t (schema_effect s c1)" "txn (schema_effect s c1) = Some t" by simp_all
    from Cons.IH [OF this] k True x Cons.prems have "outcome t (schema_effect s c1)
      (\<lambda>c'. txn c' = None \<and> schema_objects c' = fold stmt_schema (s # ss) (schema_objects c) \<and>
        user_version c' = fold stmt_version (s # ss) (user_version c)) (install_schema (s # ss) c)"
      by (simp add: exec_schema_def)
    then show ?thesis by (rule outcome_later) (use k in simp)
  next
    case False
    with k x schema_failed_outcome [of t c1 c e] show ?thesis by (simp add: exec_schema_def)
  qed
qed

lemma create_schema_outcome:
  assumes "keeps t c" and "txn c = None"
  shows "outcome t c (\<lambda>c'. txn c' = None \<and>
     schema_objects c' = fold stmt_schema db_schema_sql (schema_objects c) \<and>
     user_version c' = fold stmt_version db_schema_sql (user_version c)) (create_schema c)"
proof -
  obtain ok rows e c1 where x: "exec_sql (PRAGMA_JOURNAL JM_MEMORY :: unit sql) c = (ok, rows, e, c1)"
    by (metis prod_cases4)
  have h: "harmless (PRAGMA_JOURNAL JM_MEMORY :: unit sql)" by simp
  have k1: "keeps t c1" "set (script c1) \<subseteq> set (script c)" "txn c1 = None"
    "schema_objects c1 = schema_objects c" "user_version c1 = user_version c"
    using exec_sql_harmless [OF h assms(1) x] assms(2) by simp_all
  obtain ok2 e2 c2 where b: "begin_exclusive c1 = (ok2, e2, c2)" by (metis prod_cases3)
  note k2 = begin_exclusive_keeps [OF b k1(1,3)]
  show ?thesis
  proof (cases ok2)
    case True
    with k2 install_schema_outcome [of t c2 db_schema_sql] have "outcome t c2 (\<lambda>c'. txn c' = None \<and>
       schema_objects c' = fold stmt_schema db_schema_sql (schema_objects c) \<and>
       user_version c' = fold stmt_version db_schema_sql (user_version c)) (create_schema c)"
      by (simp add: create_schema_def x b k1 rtcom_el_db_schema_get_sql_def)
    then show ?thesis by (rule outcome_later) (use k1 k2 in auto)
  next
    case False
    have "outcome t c1 R (schema_failed e2 c2)" for R
      by (rule schema_failed_outcome) (use k2 False in auto)
    from outcome_later [OF this k1(2)] False show ?thesis by (simp add: create_schema_def x b)
  qed
qed

lemma schema_ready_keeps:
  assumes "keeps t c"
  shows "keeps t (schema_ready c) \<and> set (script (schema_ready c)) \<subseteq> set (script c) \<and>
     (txn c = None \<longrightarrow> txn (schema_ready c) = None \<and> schema_objects (schema_ready c) = schema_objects c \<and>
        user_version (schema_ready c) = user_version c)"
proof -
  obtain ok rows e c1 where x: "exec_sql (PRAGMA_JOURNAL JM_TRUNCATE :: unit sql) c = (ok, rows, e, c1)"
    by (metis prod_cases4)
  obtain ok2 rows2 e2 c2 where y: "exec_sql nothing c1 = (ok2, rows2, e2, c2)" by (metis prod_cases4)
  have h: "harmless (PRAGMA_JOURNAL JM_TRUNCATE :: unit sql)" by simp
  note k1 = exec_sql_harmless [OF h assms x]
  from exec_sql_harmless [OF harmless_simps(1) _ y] k1 show ?thesis by (auto simp: schema_ready_def x y)
qed

lemma fetch_rows: "fetch rows as = (got, r, as') \<Longrightarrow> set got \<subseteq> set rows"
proof (induction rows as arbitrary: got r as' rule: fetch.induct)
  case (2 row rows as)
  obtain x as1 where it: "rtcom_el_db_iterate as = (x, as1)" by (metis surj_pair)
  obtain got2 r2 as2 where f: "fetch rows as1 = (got2, r2, as2)" by (metis prod_cases3)
  show ?case
  proof (cases x)
    case Stepped
    with "2.IH" [OF it [symmetric] Stepped f] "2.prems" it f show ?thesis by auto
  next
    case (Failed b e rb)
    with "2.prems" it show ?thesis by simp
  qed
qed (auto split: prod.splits)

lemma version_zero:
  assumes "exec_sql (Stmt (select_rows (\<lambda>t. [Some (0 :: int)]))) c = (ok, rows, e, c')"
  shows "rtcom_el_db_single_int rows 0 = 0"
proof -
  have "set rows \<subseteq> {Some 0}"
    using assms
    by (auto simp: exec_sql_def rtcom_el_db_exec_def select_rows_def Let_def split: if_splits list.splits
        answer.splits prod.splits step_result.splits dest!: fetch_rows)
  then have "fold (\<lambda>row _. sqlite3_column_int row) rows 0 = 0"
    by (induction rows) (auto simp: sqlite3_column_int_def)
  then show ?thesis by (simp add: rtcom_el_db_single_int_def)
qed

text \<open>What opening a file comes to.\<close>

lemma check_and_create_outcome:
  assumes "keeps t c" and "txn c = None"
  shows "outcome t c (\<lambda>c'. txn c' = None \<and>
     (user_version c = 0 \<longrightarrow> schema_objects c' = fold stmt_schema db_schema_sql (schema_objects c) \<and>
        user_version c' = fold stmt_version db_schema_sql 0)) (check_and_create c)"
    (is "outcome t c ?R _")
proof -
  obtain ok rows e c1 where x: "exec_sql nothing c = (ok, rows, e, c1)" by (metis prod_cases4)
  note k1 = exec_sql_harmless [OF harmless_simps(1) assms(1) x]
  obtain ok2 rows2 e2 c2 where y: "exec_sql (Stmt (select_rows (\<lambda>t. [Some (user_version c1)]))) c1 =
      (ok2, rows2, e2, c2)" by (metis prod_cases4)
  show ?thesis
  proof (cases ok)
    case False
    with k1 x show ?thesis by (auto simp: check_and_create_def outcome_def)
  next
    case True
    note k2 = exec_sql_harmless [OF harmless_simps(3) conjunct1 [OF k1] y]
    define a where "a = (if rtcom_el_db_single_int rows2 0 < required_user_version then create_schema c2
      else Ready c2)"
    have ready: "outcome t c2 ?R (Ready c2)" if "user_version c \<noteq> 0"
      using that k1 k2 assms(2) by (auto simp: outcome_def)
    have a: "outcome t c2 ?R a"
    proof (cases "rtcom_el_db_single_int rows2 0 < required_user_version")
      case True
      with create_schema_outcome [of t c2] k1 k2 assms(2) show ?thesis
        by (auto simp: a_def elim!: outcome_weaken)
    next
      case False
      have "rtcom_el_db_single_int rows2 0 = 0" if "user_version c = 0"
        using version_zero [of c1 ok2 rows2 e2 c2] y k1 True that assms(2) by auto
      with False have "user_version c \<noteq> 0" by (auto simp: required_user_version_def)
      from ready [OF this] False show ?thesis by (simp add: a_def)
    qed
    have "outcome t c2 ?R (check_and_create c)"
      using a schema_ready_keeps [of t] True
      by (auto simp: check_and_create_def x y a_def [symmetric] outcome_def split: attempt.splits)
    then show ?thesis by (rule outcome_later) (use k1 k2 in auto)
  qed
qed

section \<open>The schema is complete\<close>

text \<open>
  The tables, indexes and triggers a database needs, by name. They are all there, the old triggers are not,
  and the trigger that is dropped and created again has the present definition.
\<close>

definition schema_names :: "string list" where
  "schema_names =
     [''Services'', ''EventTypes'', ''Flags'', ''Plugins'', ''Attachments'', ''Headers'', ''Remotes'',
      ''Events'', ''GroupCache'',
      ''idx_srv_plugin_id'', ''idx_et_plugin_id'', ''idx_att_event_id'', ''idx_hdr_event_id'',
      ''idx_ev_service_id'', ''idx_ev_event_type_id'', ''idx_ev_group_uid'', ''idx_ev_remote_uid'',
      ''idx_gc_group_uid'',
      ''fkd_services_event_types_plugin_id'', ''fkd_flags_service_id'', ''fkd_headers_atts_event_id'',
      ''gc_update_ev_add1'', ''gc_update_ev_add4'', ''gc_update_ev_update'']"

definition schema_complete :: "schema \<Rightarrow> bool" where
  "schema_complete m \<longleftrightarrow>
     list_all (\<lambda>n. m n \<noteq> None) schema_names \<and>
     m ''gc_update_ev_update'' = Some True \<and> m ''gc_update_ev_add2'' = None \<and>
     m ''gc_update_ev_add3'' = None"

text \<open>What becomes of one name depends only on the name.\<close>

fun name_after :: "schema_stmt list \<Rightarrow> string \<Rightarrow> bool option \<Rightarrow> bool option" where
  "name_after [] n v = v"
| "name_after (SET_USER_VERSION i # ss) n v = name_after ss n v"
| "name_after (CREATE_IF_NOT_EXISTS m # ss) n v =
     name_after ss n (if m = n \<and> v = None then Some True else v)"
| "name_after (DROP_TRIGGER_IF_EXISTS m # ss) n v = name_after ss n (if m = n then None else v)"

lemma fold_stmt_schema: "fold stmt_schema ss m n = name_after ss n (m n)"
  by (induction ss n "m n" arbitrary: m rule: name_after.induct) auto

lemma name_after_append: "name_after (xs @ ys) n v = name_after ys n (name_after xs n v)"
  by (induction xs n v rule: name_after.induct) simp_all

lemma name_after_created:
  assumes "CREATE_IF_NOT_EXISTS n \<in> set ss \<or> v \<noteq> None" and "DROP_TRIGGER_IF_EXISTS n \<notin> set ss"
  shows "name_after ss n v \<noteq> None"
  using assms by (induction ss n v rule: name_after.induct) (auto simp: ex_bool_eq)

definition schema_tail :: "schema_stmt list" where
  "schema_tail = drop 23 db_schema_sql"

lemma schema_tail_after:
  "name_after schema_tail n v =
     (if n = ''gc_update_ev_update'' then Some True
      else if n = ''gc_update_ev_add2'' \<or> n = ''gc_update_ev_add3'' then None
      else if n = ''gc_update_ev_add4'' \<and> v = None then Some True else v)"
  by (simp add: schema_tail_def db_schema_sql_def eval_nat_numeral)

lemma schema_head:
  "DROP_TRIGGER_IF_EXISTS n \<notin> set (take 23 db_schema_sql)"
  "CREATE_IF_NOT_EXISTS ''gc_update_ev_add2'' \<notin> set db_schema_sql"
  "CREATE_IF_NOT_EXISTS ''gc_update_ev_add3'' \<notin> set db_schema_sql"
  by (simp_all add: db_schema_sql_def eval_nat_numeral)

lemma schema_tail_creates:
  "CREATE_IF_NOT_EXISTS n \<in> set (drop 23 db_schema_sql) \<Longrightarrow>
     n = ''gc_update_ev_add4'' \<or> n = ''gc_update_ev_update''"
  by (simp add: db_schema_sql_def eval_nat_numeral)

lemma name_after_schema:
  "name_after db_schema_sql n v = name_after schema_tail n (name_after (take 23 db_schema_sql) n v)"
  by (metis append_take_drop_id name_after_append schema_tail_def)

lemma name_after_schema_created:
  assumes "CREATE_IF_NOT_EXISTS n \<in> set db_schema_sql"
  shows "name_after db_schema_sql n v \<noteq> None"
proof -
  from assms schema_head(2,3) have n: "n \<noteq> ''gc_update_ev_add2''" "n \<noteq> ''gc_update_ev_add3''" by metis+
  from assms have "CREATE_IF_NOT_EXISTS n \<in> set (take 23 db_schema_sql) \<or>
      CREATE_IF_NOT_EXISTS n \<in> set (drop 23 db_schema_sql)" by (metis Un_iff append_take_drop_id set_append)
  then show ?thesis
  proof
    assume "CREATE_IF_NOT_EXISTS n \<in> set (take 23 db_schema_sql)"
    with name_after_created schema_head(1) have "name_after (take 23 db_schema_sql) n v \<noteq> None" by metis
    with n show ?thesis unfolding name_after_schema schema_tail_after by (metis option.distinct(1))
  next
    assume "CREATE_IF_NOT_EXISTS n \<in> set (drop 23 db_schema_sql)"
    from schema_tail_creates [OF this] n show ?thesis
      unfolding name_after_schema schema_tail_after by (metis option.distinct(1))
  qed
qed

lemma schema_names_created: "list_all (\<lambda>n. CREATE_IF_NOT_EXISTS n \<in> set db_schema_sql) schema_names"
  by code_simp

lemma schema_completed: "schema_complete (fold stmt_schema db_schema_sql m)"
  unfolding schema_complete_def fold_stmt_schema
proof (intro conjI)
  show "list_all (\<lambda>n. name_after db_schema_sql n (m n) \<noteq> None) schema_names"
    using schema_names_created name_after_schema_created unfolding list_all_iff by blast
qed (simp_all add: name_after_schema schema_tail_after)

lemma version_completed: "fold stmt_version db_schema_sql v = 1"
  by (simp add: db_schema_sql_def)

section \<open>Opening a file\<close>

lemma open_new_conn:
  "sqlite3_open fname w = Inr c \<Longrightarrow> files w fname \<noteq> Some NotADatabase \<Longrightarrow>
     keeps (case files w fname of Some (Database objs v t) \<Rightarrow> t | _ \<Rightarrow> empty_tables) c \<and> txn c = None \<and>
     set (script c) \<subseteq> set (answers w) \<and>
     user_version c = (case files w fname of Some (Database objs v t) \<Rightarrow> v | _ \<Rightarrow> 0)"
  by (cases "answers w")
    (auto simp: sqlite3_open_def new_conn_def keeps_def split: answer.splits option.splits db_file.splits)

lemma uncorrupted_open:
  assumes "sqlite3_open fname w = Inl c" and "uncorrupted (answers w)"
  shows "c \<notin> {SQLITE_CORRUPT, SQLITE_FORMAT, SQLITE_NOTADB}"
proof -
  from assms(1) obtain t rb where "Refuse c t rb \<in> set (answers w)"
    by (cases "answers w") (auto simp: sqlite3_open_def split: answer.splits)
  with assms(2) have "result_error c \<noteq> RTCOM_EL_DATABASE_CORRUPTED" unfolding uncorrupted_def by blast
  then show ?thesis by auto
qed

text \<open>What opening a database leaves of it.\<close>

lemma open_kept:
  assumes "files w fname = Some (Database objs v t)" and "uncorrupted (answers w)"
    and "rtcom_el_db_open fname w = (r, w')"
  shows "(\<exists>objs' v'. files w' fname = Some (Database objs' v' t)) \<and>
     (\<forall>f. f \<noteq> fname \<longrightarrow> files w' f = files w f) \<and> (\<forall>c. r = Some c \<longrightarrow> tb c = t)"
proof (cases "sqlite3_open fname w")
  case (Inl b)
  from uncorrupted_open [OF this assms(2)] Inl assms(1,3) show ?thesis
    by (auto simp: rtcom_el_db_open_def internal_open_def open_with_def Let_def)
next
  case (Inr c)
  from open_new_conn [OF Inr] assms(1) have c: "keeps t c" "txn c = None"
    "set (script c) \<subseteq> set (answers w)" by auto
  from uncorrupted_subset [OF c(3) assms(2)] check_and_create_outcome [OF c(1,2)] obtain c' where
    c': "keeps t c'" "check_and_create c = Ready c' \<or> check_and_create c = GaveUp c'"
    unfolding outcome_def by (cases "check_and_create c") auto
  from keeps_on_disk [OF c'(1)] c' assms(3) Inr show ?thesis
    by (auto simp: rtcom_el_db_open_def internal_open_def open_with_def sync_def keeps_def)
qed

text \<open>C13: \<open>rtcom_el_db_open\<close> destroys a database only if SQLite reports that it is corrupted: with any
  other answers, among them full disks, locks and I/O errors at any statement, the rows of the file
  are the same afterwards, whether it could be opened or not, and the connection sees them. No other
  file is touched.\<close>

theorem open_keeps_rows:
  assumes "files w fname = Some (Database objs v t)" and "uncorrupted (answers w)"
    and "rtcom_el_db_open fname w = (r, w')"
  shows "(\<exists>objs' v'. files w' fname = Some (Database objs' v' t)) \<and>
     (\<forall>f. f \<noteq> fname \<longrightarrow> files w' f = files w f) \<and> (\<forall>c. r = Some c \<longrightarrow> tb c = t)"
  using assms by (rule open_kept)

text \<open>C17: A new file, or one whose schema was never installed (user version 0), gets the complete schema: when
  \<open>rtcom_el_db_open\<close> returns a connection, SQLite found the file locked nowhere on the way (\<open>unlocked\<close>)
  and reported no corruption (\<open>uncorrupted\<close>), every table, index and trigger of \<open>schema_names\<close>
  exists, the triggers of older versions are gone, the user version is 1 and no transaction is open.
  Without the first condition the code goes on with a connection to a database that may have no schema.\<close>

theorem open_installs_schema:
  assumes "rtcom_el_db_open fname w = (Some c, w')" and "unlocked (answers w)"
    and "files w fname = None \<or> (\<exists>objs t. files w fname = Some (Database objs 0 t))"
    and "uncorrupted (answers w)"
  shows "schema_complete (schema_objects c) \<and> user_version c = 1 \<and> txn c = None"
proof (cases "sqlite3_open fname w")
  case (Inl b)
  from uncorrupted_open [OF this assms(4)] Inl assms(1) show ?thesis
    by (simp add: rtcom_el_db_open_def internal_open_def open_with_def Let_def)
next
  case (Inr c0)
  from open_new_conn [OF Inr] assms(3) obtain t where c: "keeps t c0" "txn c0 = None"
    "set (script c0) \<subseteq> set (answers w)" "user_version c0 = 0" by auto
  from check_and_create_outcome [OF c(1,2)] uncorrupted_subset [OF c(3) assms(4)]
    unlocked_subset [OF c(3) assms(2)] assms(1) Inr c(4)
  have "txn c = None \<and> schema_objects c = fold stmt_schema db_schema_sql (schema_objects c0) \<and>
      user_version c = fold stmt_version db_schema_sql 0"
    by (cases "check_and_create c0")
      (auto simp: outcome_def rtcom_el_db_open_def internal_open_def open_with_def)
  then show ?thesis using schema_completed version_completed by simp
qed

definition quarrel_disk :: disk where
  "quarrel_disk =
     \<lparr>files = [''el.db'' \<mapsto> Database Map.empty 0 empty_tables, ''old'' \<mapsto> NotADatabase],
      answers = [Go, Go, Go, Refuse SQLITE_IOERR 0 False, Go, Go, Go, Go, Go, Refuse SQLITE_FULL 0 True],
      unlinks = [], tearing = (\<lambda>a b. b)\<rparr>"

theorem open_keeps_rows_witness:
  "\<exists>w' objs' v'. rtcom_el_db_open ''el.db'' quarrel_disk = (None, w') \<and>
     files w' ''el.db'' = Some (Database objs' v' empty_tables) \<and> files w' ''old'' = Some NotADatabase"
proof -
  have "Option.is_none (fst (rtcom_el_db_open ''el.db'' quarrel_disk))" by code_simp
  then obtain w' where w': "rtcom_el_db_open ''el.db'' quarrel_disk = (None, w')"
    by (cases "rtcom_el_db_open ''el.db'' quarrel_disk") (simp add: Option.is_none_def)
  have f: "files quarrel_disk ''el.db'' = Some (Database Map.empty 0 empty_tables)"
    "files quarrel_disk ''old'' = Some NotADatabase" by (simp_all add: quarrel_disk_def)
  have u: "uncorrupted (answers quarrel_disk)" by (auto simp: uncorrupted_def quarrel_disk_def)
  from open_keeps_rows [OF f(1) u w'] w' f(2) show ?thesis by auto
qed

section \<open>Files SQLite goes ahead with\<close>

lemma exec_sql_calm:
  assumes "harmless q" and "keeps t c" and "script c = []" and "exec_sql q c = (ok, rows, e, c')"
  shows "ok \<and> keeps t c' \<and> script c' = [] \<and> txn c' = txn c"
proof -
  from assms(1,2) obtain rs c2 where "effect q c = Inr (rs, c2)" unfolding harmless_def by blast
  with assms(2,3,4) have "ok" by (auto simp: exec_sql_def exec_calm keeps_def split: prod.splits)
  with exec_sql_harmless [OF assms(1,2,4)] assms(3) show ?thesis by simp
qed

lemma install_schema_calm:
  assumes "keeps t c" and "txn c = Some t" and "script c = []"
  shows "\<exists>c'. install_schema ss c = Ready c'"
  using assms
proof (induction ss arbitrary: c)
  case Nil
  have "rtcom_el_db_commit c = (True, None, c\<lparr>txn := None, script := [], errcode := None\<rparr>)"
    using Nil.prems(2,3) by (simp add: rtcom_el_db_commit_def exec_calm)
  then show ?case by (simp add: commit_conn_def)
next
  case (Cons s ss)
  obtain ok rows e c1 where x: "exec_sql nothing c = (ok, rows, e, c1)" by (metis prod_cases4)
  from exec_sql_calm [OF harmless_simps(1) Cons.prems(1,3) x] Cons.prems(2)
    Cons.IH [of "schema_effect s c1"] x show ?case by (auto simp: exec_schema_def)
qed

lemma create_schema_calm:
  assumes "keeps t c" and "txn c = None" and "script c = []"
  shows "\<exists>c'. create_schema c = Ready c'"
proof -
  obtain ok rows e c1 where x: "exec_sql (PRAGMA_JOURNAL JM_MEMORY :: unit sql) c = (ok, rows, e, c1)"
    by (metis prod_cases4)
  have h: "harmless (PRAGMA_JOURNAL JM_MEMORY :: unit sql)" by simp
  from exec_sql_calm [OF h assms(1,3) x] assms(2) have k1: "keeps t c1" "script c1 = []" "txn c1 = None"
    by simp_all
  obtain ok2 e2 c2 where b: "begin_exclusive c1 = (ok2, e2, c2)" by (metis prod_cases3)
  from k1 b have "ok2" by (auto simp: begin_exclusive_def rtcom_el_db_transaction_def exec_calm keeps_def)
  with begin_exclusive_keeps [OF b k1(1,3)] k1(2) have "keeps t c2" "txn c2 = Some t" "script c2 = []"
    by simp_all
  from install_schema_calm [OF this] \<open>ok2\<close> show ?thesis by (simp add: create_schema_def x b)
qed

lemma check_and_create_calm:
  assumes "keeps t c" and "txn c = None" and "script c = []"
  shows "\<exists>c'. check_and_create c = Ready c'"
proof -
  obtain ok rows e c1 where x: "exec_sql nothing c = (ok, rows, e, c1)" by (metis prod_cases4)
  note k1 = exec_sql_calm [OF harmless_simps(1) assms(1,3) x]
  obtain ok2 rows2 e2 c2 where y: "exec_sql (Stmt (select_rows (\<lambda>t. [Some (user_version c1)]))) c1 =
      (ok2, rows2, e2, c2)" by (metis prod_cases4)
  from exec_sql_calm [OF harmless_simps(3) _ _ y] k1 create_schema_calm [of t c2] assms(2) show ?thesis
    by (auto simp: check_and_create_def x y)
qed

text \<open>C32: A file that is not a database is replaced: if it can be deleted and SQLite goes ahead,
  \<open>rtcom_el_db_open\<close> returns a connection to an empty database with the complete schema. If the file
  cannot be deleted, it fails and leaves the file.\<close>

theorem open_repairs:
  assumes "files w fname = Some NotADatabase" and "answers w = []" and "unlinks w = u # us"
  shows "if u
     then \<exists>c w'. rtcom_el_db_open fname w = (Some c, w') \<and> tb c = empty_tables \<and>
       schema_complete (schema_objects c) \<and> user_version c = 1 \<and>
       files w' fname = Some (Database (schema_objects c) 1 empty_tables)
     else \<exists>w'. rtcom_el_db_open fname w = (None, w') \<and> files w' fname = Some NotADatabase"
proof -
  let ?c = "new_conn w Map.empty 0 empty_tables True"
  have first: "sqlite3_open fname w = Inr ?c" using assms(1,2) by (simp add: sqlite3_open_def)
  have bad: "check_and_create ?c = Corrupted ?c"
    by (simp add: check_and_create_def exec_sql_def new_conn_def)
  have synced: "sync fname ?c w = w"
    using assms(1,2) by (cases w) (auto simp: sync_def on_disk_def new_conn_def)
  let ?w = "w\<lparr>files := (files w)(fname := None), unlinks := us\<rparr>"
  let ?c0 = "new_conn ?w Map.empty 0 empty_tables False"
  have again: "sqlite3_open fname ?w = Inr ?c0" using assms(2) by (simp add: sqlite3_open_def)
  have k: "keeps empty_tables ?c0" "txn ?c0 = None" "script ?c0 = []" "user_version ?c0 = 0"
    using assms(2) by (simp_all add: keeps_def new_conn_def)
  from check_and_create_calm [OF k(1-3)] obtain c where c: "check_and_create ?c0 = Ready c" by blast
  from check_and_create_outcome [OF k(1,2)] c k(3,4) have r: "keeps empty_tables c" "txn c = None"
    "schema_complete (schema_objects c)" "user_version c = 1"
    by (auto simp: outcome_def unlocked_def schema_completed version_completed)
  have opened: "rtcom_el_db_open fname w = (Some c, sync fname c ?w)" if u
    using first bad synced again c assms that
    by (simp add: rtcom_el_db_open_def internal_open_def open_with_def handle_corrupted_def g_unlink_def)
  have refused: "rtcom_el_db_open fname w = (None, w\<lparr>unlinks := us\<rparr>)" if "\<not> u"
    using first bad synced assms that
    by (simp add: rtcom_el_db_open_def internal_open_def open_with_def handle_corrupted_def g_unlink_def)
  show ?thesis
    using opened refused r assms(1) by (auto simp: sync_def on_disk_def keeps_def)
qed

theorem open_repairs_witness:
  "\<exists>c w'. rtcom_el_db_open ''old'' (quarrel_disk\<lparr>answers := [], unlinks := [True]\<rparr>) = (Some c, w') \<and>
     schema_complete (schema_objects c)"
proof -
  let ?w = "quarrel_disk\<lparr>answers := [], unlinks := [True]\<rparr>"
  have "files ?w ''old'' = Some NotADatabase" "answers ?w = []" "unlinks ?w = [True]"
    by (simp_all add: quarrel_disk_def)
  from open_repairs [OF this] show ?thesis by auto
qed

theorem open_installs_schema_witness:
  "\<exists>c w'. rtcom_el_db_open ''el.db'' (quarrel_disk\<lparr>answers := []\<rparr>) = (Some c, w') \<and>
     schema_complete (schema_objects c)"
proof -
  let ?w = "quarrel_disk\<lparr>answers := []\<rparr>"
  let ?c = "new_conn ?w Map.empty 0 empty_tables False"
  have k: "keeps empty_tables ?c" "txn ?c = None" "script ?c = []" by (simp_all add: keeps_def new_conn_def)
  from check_and_create_calm [OF k] obtain c where "check_and_create ?c = Ready c" by blast
  then obtain w' where o: "rtcom_el_db_open ''el.db'' ?w = (Some c, w')"
    by (simp add: rtcom_el_db_open_def internal_open_def open_with_def sqlite3_open_def quarrel_disk_def)
  have "unlocked (answers ?w)" "uncorrupted (answers ?w)"
    "files ?w ''el.db'' = None \<or> (\<exists>objs t. files ?w ''el.db'' = Some (Database objs 0 t))"
    by (auto simp: unlocked_def uncorrupted_def quarrel_disk_def)
  from open_installs_schema [OF o this(1,3,2)] o show ?thesis by blast
qed

end
