(* ===== verification/El_Convert_Steps.thy ===== *)
theory El_Convert_Steps
  imports El_Convert El_Open_Props
begin

text \<open>
  The steps of the conversion of a version 0 database: what each keeps of the history of events,
  and what an attempt may do to the files.
\<close>

section \<open>What a step achieves\<close>

text \<open>
  Without a journal a failed statement may leave anything behind; here it is at least not
  torn (\<open>whole_statements\<close>). If SQLite ends the transaction by itself, the COMMIT fails: only runs that
  stay in it count.
\<close>

definition whole_statements :: "(tables \<Rightarrow> tables \<Rightarrow> tables) \<Rightarrow> bool" where
  "whole_statements tear \<longleftrightarrow> (\<forall>a b. tear a b \<in> {a, b})"

definition achieves :: "'x step \<Rightarrow> (tables \<Rightarrow> 'x \<Rightarrow> tables \<Rightarrow> bool) \<Rightarrow> bool" where
  "achieves m P \<longleftrightarrow>
     (\<forall>c x c'. m c = (Some x, c') \<longrightarrow> torn c' = torn c \<and>
        (txn c' \<noteq> None \<and> whole_statements (torn c) \<longrightarrow> txn c \<noteq> None \<and> P (tb c) x (tb c')))"

lemma achievesD:
  assumes "achieves m P" and "m c = (Some x, c')"
  shows "torn c' = torn c"
    and "txn c' \<noteq> None \<Longrightarrow> whole_statements (torn c) \<Longrightarrow> txn c \<noteq> None \<and> P (tb c) x (tb c')"
  using assms unfolding achieves_def by blast+

lemma achieves_weaken: "achieves m P \<Longrightarrow> (\<And>t x t1. P t x t1 \<Longrightarrow> Q t x t1) \<Longrightarrow> achieves m Q"
  unfolding achieves_def by blast

lemma achieves_andthen:
  assumes "achieves m P" and "\<And>x. achieves (f x) (Q x)"
  shows "achieves (andthen m f) (\<lambda>t y t2. \<exists>x t1. P t x t1 \<and> Q x t1 y t2)"
  unfolding achieves_def
proof (intro allI impI)
  fix c y c2
  assume "andthen m f c = (Some y, c2)"
  then obtain x c1 where m: "m c = (Some x, c1)" and f: "f x c1 = (Some y, c2)"
    by (auto simp: andthen_def split: prod.splits option.splits)
  show "torn c2 = torn c \<and> (txn c2 \<noteq> None \<and> whole_statements (torn c) \<longrightarrow>
      txn c \<noteq> None \<and> (\<exists>x t1. P (tb c) x t1 \<and> Q x t1 y (tb c2)))"
    using achievesD [OF assms(1) m] achievesD [OF assms(2) f] by auto
qed

lemma achieves_done: "achieves (Pair (Some x)) (\<lambda>t y t1. y = x \<and> t1 = t)"
  by (simp add: achieves_def)

lemma achieves_require: "achieves (require b) (\<lambda>t _ t1. b \<and> t1 = t)"
  by (simp add: achieves_def require_def)

lemma exec_sql_ok:
  assumes "exec_sql q c = (True, rows, e, c')"
  shows "\<exists>c1 as. effect q c = Inr (rows, c1) \<and> c' = c1\<lparr>script := as, errcode := None\<rparr>"
proof -
  from assms have "rtcom_el_db_exec q c = (True, rows, e, c')"
    by (auto simp: exec_sql_def split: if_splits prod.splits)
  then show ?thesis by (rule exec_ok) blast
qed

lemma achieves_stmt: "achieves (runsql (Stmt f)) (\<lambda>t rows t1. \<exists>i. f t = Inr (rows, i, t1))"
  unfolding achieves_def
proof (intro allI impI)
  fix c rows c'
  assume "runsql (Stmt f) c = (Some rows, c')"
  then obtain e where "exec_sql (Stmt f) c = (True, rows, e, c')"
    by (auto simp: runsql_def split: prod.splits if_splits)
  from exec_sql_ok [OF this] obtain c1 as where "effect (Stmt f) c = Inr (rows, c1)"
    "c' = c1\<lparr>script := as, errcode := None\<rparr>" by blast
  then show "torn c' = torn c \<and> (txn c' \<noteq> None \<and> whole_statements (torn c) \<longrightarrow>
      txn c \<noteq> None \<and> (\<exists>i. f (tb c) = Inr (rows, i, tb c')))"
    by (auto split: sum.splits)
qed

text \<open>A statement whose result is ignored has worked, or it was not torn.\<close>

lemma torn_undo [simp]: "torn (undo c) = torn c"
  by (simp add: undo_def split: option.splits)

lemma torn_refused: "torn (refused e rb c new) = torn c"
  by (simp add: refused_def Let_def)

lemma refused_whole:
  assumes "whole_statements (torn c)" and "txn (refused e rb c new) \<noteq> None"
  shows "txn c \<noteq> None \<and> tb (refused e rb c new) \<in> {tb c, new}"
  using assms
  by (cases rb) (auto simp: refused_def Let_def whole_statements_def undo_def split: option.splits if_splits)

lemma exec_failed_stmt_cases:
  assumes "rtcom_el_db_exec (Stmt f) c = (False, rows, e, c1)"
  shows "(\<exists>as b. c1 = c\<lparr>script := as, errcode := b\<rparr>) \<or>
     (\<exists>as b rb new. c1 = (refused b rb c new)\<lparr>script := as\<rparr> \<and>
        (new = tb c \<or> (\<exists>rows i. f (tb c) = Inr (rows, i, new))))"
  using assms
  by (auto simp: rtcom_el_db_exec_def Let_def split: list.splits answer.splits sum.splits prod.splits
      step_result.splits; blast)

lemma exec_failed_stmt:
  assumes "rtcom_el_db_exec (Stmt f) c = (False, rows, e, c1)"
  shows "torn c1 = torn c \<and> (txn c1 \<noteq> None \<and> whole_statements (torn c) \<longrightarrow>
     txn c \<noteq> None \<and> (tb c1 = tb c \<or> (\<exists>rows i. f (tb c) = Inr (rows, i, tb c1))))"
  using exec_failed_stmt_cases [OF assms]
proof
  assume "\<exists>as b rb new. c1 = (refused b rb c new)\<lparr>script := as\<rparr> \<and>
        (new = tb c \<or> (\<exists>rows i. f (tb c) = Inr (rows, i, new)))"
  then obtain as b rb new where c1: "c1 = (refused b rb c new)\<lparr>script := as\<rparr>"
    and new: "new = tb c \<or> (\<exists>rows i. f (tb c) = Inr (rows, i, new))" by blast
  from c1 have "tb c1 = tb (refused b rb c new)" "txn c1 = txn (refused b rb c new)" "torn c1 = torn c"
    by (simp_all add: torn_refused)
  with refused_whole [of c b rb new] new show ?thesis by force
qed auto

lemma achieves_ignored:
  "achieves (ignore (runsql (Stmt f))) (\<lambda>t _ t1. t1 = t \<or> (\<exists>rows i. f t = Inr (rows, i, t1)))"
  unfolding achieves_def
proof (intro allI impI)
  fix c x c'
  assume run: "ignore (runsql (Stmt f)) c = (Some x, c')"
  obtain ok rows e c1 where ex: "exec_sql (Stmt f) c = (ok, rows, e, c1)" by (rule prod_cases4)
  from run ex have c': "c' = c1" by (simp add: ignore_def runsql_def)
  show "torn c' = torn c \<and> (txn c' \<noteq> None \<and> whole_statements (torn c) \<longrightarrow>
      txn c \<noteq> None \<and> (tb c' = tb c \<or> (\<exists>rows i. f (tb c) = Inr (rows, i, tb c'))))"
  proof (cases ok)
    case True
    with run ex have "runsql (Stmt f) c = (Some rows, c')" by (simp add: runsql_def c')
    from achievesD [OF achieves_stmt this] show ?thesis by blast
  next
    case False
    show ?thesis
    proof (cases "damaged c")
      case True
      with ex c' show ?thesis by (simp add: exec_sql_def)
    next
      case False
      with ex \<open>\<not> ok\<close> obtain c2 where "rtcom_el_db_exec (Stmt f) c = (False, rows, e, c2)"
        "c' = rolled_back c c2" by (auto simp: exec_sql_def c' split: prod.splits)
      with exec_failed_stmt [of f c rows e c2] show ?thesis by (auto simp: rolled_back_def)
    qed
  qed
qed

lemma achieves_all:
  assumes "\<And>x. x \<in> set xs \<Longrightarrow> achieves (m x) (\<lambda>t _ t1. R t t1)" and "\<And>t. R t t"
    and "\<And>t t1 t2. R t t1 \<Longrightarrow> R t1 t2 \<Longrightarrow> R t t2"
  shows "achieves (all_steps (map m xs)) (\<lambda>t _ t1. R t t1)"
  using assms(1)
proof (induction xs)
  case Nil
  show ?case by (rule achieves_weaken [of _ "\<lambda>t y t1. y = () \<and> t1 = t"]) (simp_all add: achieves_def assms(2))
next
  case (Cons x xs)
  have "achieves (andthen (m x) (\<lambda>_. all_steps (map m xs)))
      (\<lambda>t y t2. \<exists>(x :: unit) t1. R t t1 \<and> R t1 t2)"
    by (rule achieves_andthen [where P = "\<lambda>t _ t1. R t t1" and Q = "\<lambda>_ t _ t1. R t t1"]) (use Cons in auto)
  then have "achieves (andthen (m x) (\<lambda>_. all_steps (map m xs))) (\<lambda>t _ t2. R t t2)"
    by (rule achieves_weaken) (blast intro: assms(3))
  then show ?case by simp
qed

section \<open>Types and their names\<close>

definition has_type :: "tables \<Rightarrow> event_row \<Rightarrow> string \<Rightarrow> bool" where
  "has_type t e n \<longleftrightarrow> (\<exists>r\<in>set (EventTypes t). et_id r = e_event_type_id e \<and> et_name r = n)"

text \<open>Ids and names are unique (the table's constraints), and ids fit a \<open>gint\<close>.\<close>

definition types_ok :: "tables \<Rightarrow> bool" where
  "types_ok t \<longleftrightarrow> distinct (map et_id (EventTypes t)) \<and> distinct (map et_name (EventTypes t)) \<and>
     list_all (\<lambda>r. to_gint (et_id r) = et_id r) (EventTypes t)"

definition same_log :: "tables \<Rightarrow> tables \<Rightarrow> bool" where
  "same_log t t1 \<longleftrightarrow> Services t1 = Services t \<and> Plugins t1 = Plugins t \<and>
     Attachments t1 = Attachments t \<and> Headers t1 = Headers t \<and> Remotes t1 = Remotes t"

definition retype :: "(string \<Rightarrow> string) \<Rightarrow> tables \<Rightarrow> tables \<Rightarrow> event_row \<Rightarrow> event_row \<Rightarrow> bool" where
  "retype ren t t1 e e1 \<longleftrightarrow>
     (\<exists>i. e1 = e\<lparr>e_event_type_id := i\<rparr>) \<and> (\<forall>n. has_type t e n \<longrightarrow> has_type t1 e1 (ren n))"

definition retyped :: "(string \<Rightarrow> string) \<Rightarrow> tables \<Rightarrow> tables \<Rightarrow> bool" where
  "retyped ren t t1 \<longleftrightarrow> same_log t t1 \<and> list_all2 (retype ren t t1) (Events t) (Events t1)"

text \<open>What becomes of the name of a type when a service is converted.\<close>

definition converted_name :: "string \<Rightarrow> string \<Rightarrow> string" where
  "converted_name service n =
     (if n = inbound service \<or> n = outbound service then message service else n)"

lemma service_names [simp]:
  "inbound s \<noteq> outbound s" "outbound s \<noteq> inbound s" "message s \<noteq> outbound s" "message s \<noteq> inbound s"
  by (simp_all add: inbound_def outbound_def message_def)

lemma retyped_trans:
  assumes "retyped f t t1" and "retyped g t1 t2"
  shows "retyped (g \<circ> f) t t2"
proof -
  from assms have l: "list_all2 (retype f t t1) (Events t) (Events t1)"
    "list_all2 (retype g t1 t2) (Events t1) (Events t2)" by (simp_all add: retyped_def)
  have "retype (g \<circ> f) t t2 e e2" if "retype f t t1 e e1" "retype g t1 t2 e1 e2" for e e1 e2
    using that unfolding retype_def by auto
  from list_all2_trans [OF this l] have "list_all2 (retype (g \<circ> f) t t2) (Events t) (Events t2)" .
  with assms show ?thesis by (simp add: retyped_def same_log_def)
qed

lemma retyped_refl:
  assumes "same_log t t1" and "Events t1 = Events t" and "set (EventTypes t) \<subseteq> set (EventTypes t1)"
  shows "retyped id t t1"
proof -
  have "retype id t t1 e e" for e
    using assms(3) unfolding retype_def has_type_def by (auto intro: exI [of _ "e_event_type_id e"])
  with assms(1,2) show ?thesis by (simp add: retyped_def list.rel_refl_strong)
qed

lemma single_int_row:
  assumes "rtcom_el_db_single_int rows 0 \<noteq> 0"
  shows "\<exists>row\<in>set rows. rtcom_el_db_single_int rows 0 = sqlite3_column_int row"
proof -
  from assms have "rows \<noteq> []" by (auto simp: rtcom_el_db_single_int_def)
  then have "rtcom_el_db_single_int rows 0 = sqlite3_column_int (last rows)"
    by (cases rows rule: rev_cases) (simp_all add: rtcom_el_db_single_int_def)
  with \<open>rows \<noteq> []\<close> show ?thesis using last_in_set by blast
qed

lemma found_type:
  assumes "types_ok t" and "rtcom_el_db_single_int (map (\<lambda>r. Some (et_id r))
       (filter (\<lambda>r. et_name r = n) (EventTypes t))) 0 \<noteq> 0"
  shows "\<exists>r\<in>set (EventTypes t). et_name r = n \<and> et_id r = rtcom_el_db_single_int
       (map (\<lambda>r. Some (et_id r)) (filter (\<lambda>r. et_name r = n) (EventTypes t))) 0"
  using single_int_row [of "map (\<lambda>r. Some (et_id r)) (filter (\<lambda>r. et_name r = n) (EventTypes t))"] assms
  by (auto simp: types_ok_def list_all_iff sqlite3_column_int_def)

lemma unique_type:
  assumes "types_ok t" and "r \<in> set (EventTypes t)" and "r' \<in> set (EventTypes t)"
  shows "et_id r = et_id r' \<longleftrightarrow> r = r'" and "et_name r = et_name r' \<longleftrightarrow> r = r'"
  using assms unfolding types_ok_def distinct_map inj_on_def by metis+

text \<open>The three changes that convert a service, on the tables.\<close>

lemma service_converted:
  assumes ok: "types_ok t"
    and i: "ri \<in> set (EventTypes t)" "et_name ri = inbound s"
    and o: "ro \<in> set (EventTypes t)" "et_name ro = outbound s"
    and m: "map_type trg (et_id ri) (et_id ro) t = Inr (rows1, k1, t1)"
    and n: "rename_type (inbound s) (message s) t1 = Inr (rows2, k2, t2)"
    and d: "t3 = t2 \<or> delete_type (outbound s) t2 = Inr (rows3, k3, t3)"
  shows "types_ok t3 \<and> retyped (converted_name s) t t3"
proof -
  let ?new = "\<lambda>e. if e_event_type_id e = et_id ro then e\<lparr>e_event_type_id := et_id ri\<rparr> else e"
  let ?ren = "\<lambda>r. if et_name r = inbound s then r\<lparr>et_name := message s\<rparr> else r"
  have t1: "Events t1 = map ?new (Events t)" "EventTypes t1 = EventTypes t" "same_log t t1"
    using m by (auto simp: map_type_def update_v0_def same_log_def)
  have "inbound s \<in> et_name ` set (EventTypes t)" using i by force
  with n t1(2) have free: "message s \<notin> et_name ` set (EventTypes t)"
    and t2: "Events t2 = Events t1" "EventTypes t2 = map ?ren (EventTypes t)" "same_log t1 t2"
    by (auto simp: rename_type_def same_log_def split: if_splits)
  have t3: "Events t3 = map ?new (Events t)" "same_log t t3"
    "EventTypes t3 = EventTypes t2 \<or> EventTypes t3 = filter (\<lambda>r. et_name r \<noteq> outbound s) (EventTypes t2)"
    using d t1 t2 by (auto simp: delete_type_def same_log_def)
  have ids: "map et_id (map ?ren xs) = map et_id xs" for xs by (induction xs) simp_all
  have "distinct (map et_name (map ?ren (EventTypes t)))"
    using ok free unfolding types_ok_def distinct_map inj_on_def by (auto simp: image_iff split: if_splits)
  then have "types_ok t2"
    using ok ids [of "EventTypes t"] unfolding types_ok_def t2(2) by (simp only: list_all_iff) auto
  then have ok3: "types_ok t3" using t3(3) by (auto simp: types_ok_def distinct_map_filter list_all_iff)
  have typed: "has_type t3 (?new e) (converted_name s n)" if "has_type t e n" for e n
  proof -
    from that obtain r where r: "r \<in> set (EventTypes t)" "et_id r = e_event_type_id e" "et_name r = n"
      by (auto simp: has_type_def)
    have same: "r = ro \<longleftrightarrow> e_event_type_id e = et_id ro" "r = ro \<longleftrightarrow> n = outbound s"
      using unique_type [OF ok r(1) o(1)] r(2,3) o(2) by auto
    let ?q = "if r = ro then ri else r"
    have q: "?q \<in> set (EventTypes t)" "et_id ?q = e_event_type_id (?new e)"
      "et_name (?ren ?q) = converted_name s n"
      using r i same by (auto simp: converted_name_def)
    have "et_name (?ren ?q) \<noteq> outbound s"
      using r i same(2) by auto
    with q(1) t2(2) t3(3) have "?ren ?q \<in> set (EventTypes t3)" by auto
    then show ?thesis
      unfolding has_type_def using q(2,3) by (intro bexI [of _ "?ren ?q"]) auto
  qed
  have "retype (converted_name s) t t3 e (?new e)" for e
    using typed [of e] unfolding retype_def by (auto intro: exI [of _ "e_event_type_id e"])
  then have "list_all2 (retype (converted_name s) t t3) (Events t) (Events t3)"
    unfolding t3(1) list.rel_map by (rule list.rel_refl_strong)
  with ok3 t3(2) show ?thesis by (simp add: retyped_def)
qed

section \<open>The conversion keeps the history\<close>

lemmas achieves_steps = achieves_andthen achieves_stmt achieves_require achieves_ignored achieves_done

lemma convert_service_achieves:
  "achieves (convert_service trg s)
     (\<lambda>t _ t1. types_ok t \<longrightarrow> types_ok t1 \<and> retyped (converted_name s) t t1)"
  unfolding convert_service_def type_ids_def Let_def
proof (rule achieves_weaken, (rule achieves_steps)+, clarsimp simp: select_rows_def)
  fix t t3 :: tables and rows1 rows2 k1 t1 k2 t2
  let ?id = "\<lambda>n. rtcom_el_db_single_int
    (map (\<lambda>r. Some (et_id r)) (filter (\<lambda>r. et_name r = n) (EventTypes t))) 0"
  assume ok: "types_ok t" and i: "?id (inbound s) \<noteq> 0" and o: "?id (outbound s) \<noteq> 0"
    and m: "map_type trg (?id (inbound s)) (?id (outbound s)) t = Inr (rows1, k1, t1)"
    and n: "rename_type (inbound s) (message s) t1 = Inr (rows2, k2, t2)"
    and d: "t3 = t2 \<or> (\<exists>rows i. delete_type (outbound s) t2 = Inr (rows, i, t3))"
  from found_type [OF ok i] obtain ri where
    ri: "ri \<in> set (EventTypes t)" "et_name ri = inbound s" "et_id ri = ?id (inbound s)" by blast
  from found_type [OF ok o] obtain ro where
    ro: "ro \<in> set (EventTypes t)" "et_name ro = outbound s" "et_id ro = ?id (outbound s)" by blast
  from d obtain rows3 k3 where "t3 = t2 \<or> delete_type (outbound s) t2 = Inr (rows3, k3, t3)" by blast
  from service_converted [OF ok ri(1,2) ro(1,2) m [folded ri(3) ro(3)] n this]
  show "types_ok t3 \<and> retyped (converted_name s) t t3" .
qed

lemma retyped_same: "retyped id t t"
  by (simp add: retyped_refl same_log_def)

lemma services_achieve:
  "achieves (all_steps (map (convert_service trg) ss))
     (\<lambda>t _ t1. types_ok t \<longrightarrow> types_ok t1 \<and> retyped (fold converted_name ss) t t1)"
proof (induction ss)
  case Nil
  show ?case
    unfolding list.map all_steps.simps
    by (rule achieves_weaken [OF achieves_done]) (simp add: retyped_same [unfolded id_def])
next
  case (Cons s ss)
  show ?case
    unfolding list.map all_steps.simps fold.simps
    by (rule achieves_weaken, rule achieves_andthen [OF convert_service_achieves Cons.IH])
      (blast intro: retyped_trans)
qed

text \<open>The other steps leave the events alone, and keep every type.\<close>

lemma add_eventtype_achieves: "achieves (add_eventtype plugin ty) (\<lambda>t _ t1. retyped id t t1)"
  unfolding add_eventtype_def
  by (rule achieves_weaken, (rule achieves_steps)+)
    (auto simp: insert_eventtype_def Let_def same_log_def split: if_splits intro!: retyped_refl)

lemma add_flag_achieves: "achieves (add_flag service fl) (\<lambda>t _ t1. retyped id t t1)"
  unfolding add_flag_def
  by (rule achieves_weaken, (rule achieves_steps)+)
    (auto simp: insert_flag_def Let_def same_log_def split: if_splits intro!: retyped_refl)

lemma runschema_achieves:
  "achieves (runschema s) (\<lambda>t _ t1. t1 = t)" "achieves (ignore (runschema s)) (\<lambda>t _ t1. t1 = t)"
proof -
  have same: "tb (schema_effect s c) = tb c \<and> txn (schema_effect s c) = txn c \<and>
      torn (schema_effect s c) = torn c" for c by (cases s) simp_all
  have "\<exists>c1. ignore (runsql nothing) c = (Some (), c1) \<and> tb c' = tb c1 \<and> txn c' = txn c1 \<and> torn c' = torn c1"
    if "runschema s c = (r, c')" for c c' r
  proof -
    obtain ok rows e c1 where "exec_sql nothing c = (ok, rows, e, c1)" by (rule prod_cases4)
    with that same [of c1] show ?thesis
      by (auto simp: runschema_def exec_schema_def ignore_def runsql_def split: if_splits)
  qed
  then have "torn c' = torn c \<and> (txn c' \<noteq> None \<and> whole_statements (torn c) \<longrightarrow>
      txn c \<noteq> None \<and> tb c' = tb c)" if "runschema s c = (r, c')" for c c' r
    using achievesD [OF achieves_ignored [of "\<lambda>t. Inr ([], None, t)"]] that
    unfolding nothing_def by fastforce
  then show "achieves (runschema s) (\<lambda>t _ t1. t1 = t)" "achieves (ignore (runschema s)) (\<lambda>t _ t1. t1 = t)"
    unfolding achieves_def ignore_def by (metis, metis Pair_inject prod.collapse)
qed

lemma alter_events_achieves:
  "achieves (alter_events f) (\<lambda>t _ t1. t1 = t\<lparr>Events := map f (Events t)\<rparr>)"
  unfolding achieves_def
proof (intro allI impI)
  fix c :: conn and x :: unit and c' :: conn
  let ?f = "\<lambda>t. if schema_objects c ''Events'' = None \<or> user_version c \<noteq> 0 then Inl SQLITE_ERROR
    else Inr ([], None, t\<lparr>Events := map f (Events t)\<rparr>)"
  assume "alter_events f c = (Some x, c')"
  then have m: "andthen (runsql (Stmt ?f :: unit sql)) (\<lambda>_. Pair (Some ())) c = (Some x, c')"
    by (simp add: alter_events_def)
  note a = achieves_andthen [OF achieves_stmt [of ?f] achieves_done [of "()"]]
  show "torn c' = torn c \<and> (txn c' \<noteq> None \<and> whole_statements (torn c) \<longrightarrow>
      txn c \<noteq> None \<and> tb c' = (tb c)\<lparr>Events := map f (Events (tb c))\<rparr>)"
    using achievesD [OF a m] by (auto split: if_splits)
qed

text \<open>
  What the conversion makes of an event: the direction that was part of its type's name is now a
  column, the type is the one that took the old one's place, and the rest is as it was.
\<close>

definition converted_event :: "tables \<Rightarrow> tables \<Rightarrow> event_row \<Rightarrow> event_row \<Rightarrow> bool" where
  "converted_event t t1 e e1 \<longleftrightarrow>
     (\<exists>i. e1 = e\<lparr>e_outgoing := (if of_outbound_type t e then 1 else 0), e_event_type_id := i\<rparr>) \<and>
     (\<forall>n. has_type t e n \<longrightarrow> has_type t1 e1 (fold converted_name v0_services n))"

definition history_kept :: "tables \<Rightarrow> tables \<Rightarrow> bool" where
  "history_kept t t1 \<longleftrightarrow> same_log t t1 \<and> list_all2 (converted_event t t1) (Events t) (Events t1)"

lemma history_of_directions:
  assumes o: "set_outgoing_v0 trg (t\<lparr>Events := map (\<lambda>e. e\<lparr>e_outgoing := 0\<rparr>) (Events t)\<rparr>) =
      Inr (rows, i, t1)" and ok: "types_ok t"
    and r: "types_ok t1 \<Longrightarrow> retyped (fold converted_name v0_services) t1 t2"
  shows "history_kept t t2"
proof -
  let ?out = "\<lambda>e. e\<lparr>e_outgoing := (if of_outbound_type t e then 1 else 0)\<rparr>"
  have t1: "Events t1 = map ?out (Events t)" "EventTypes t1 = EventTypes t" "same_log t t1"
    using o by (auto simp: set_outgoing_v0_def update_v0_def of_outbound_type_def same_log_def)
  with ok have "types_ok t1" by (simp add: types_ok_def)
  note r = r [OF this]
  have "converted_event t t2 e e2" if "retype (fold converted_name v0_services) t1 t2 (?out e) e2" for e e2
    using that t1(2) unfolding retype_def converted_event_def has_type_def by auto
  moreover have "list_all2 (\<lambda>e e2. retype (fold converted_name v0_services) t1 t2 (?out e) e2)
      (Events t) (Events t2)"
    using r unfolding retyped_def t1(1) list.rel_map by simp
  ultimately have "list_all2 (converted_event t t2) (Events t) (Events t2)"
    by (rule list_all2_mono [rotated]) 
  with t1(3) r show ?thesis by (simp add: history_kept_def retyped_def same_log_def)
qed

lemma retyped_id_trans: "retyped id t t1 \<Longrightarrow> retyped id t1 t2 \<Longrightarrow> retyped id t t2"
  using retyped_trans [of id t t1 id t2] by simp

lemma retyped_then_id: "retyped f t t1 \<Longrightarrow> retyped id t1 t2 \<Longrightarrow> retyped f t t2"
  using retyped_trans [of f t t1 id t2] by simp

lemma v1_rows_achieve:
  "achieves (all_steps (map (add_eventtype plugin) tys)) (\<lambda>t _ t1. retyped id t t1)"
  "achieves (all_steps (map (add_flag service) fls)) (\<lambda>t _ t1. retyped id t t1)"
  by (rule achieves_all; (simp add: add_eventtype_achieves add_flag_achieves retyped_same)?;
      (erule (1) retyped_id_trans)?)+

lemma triggers_achieve: "achieves (all_steps (map (ignore \<circ> runschema) ss)) (\<lambda>t _ t1. t1 = t)"
  unfolding o_def by (rule achieves_all [OF runschema_achieves(2)]) simp_all

lemma conversion_achieves:
  "achieves (conversion trg) (\<lambda>t _ t1. types_ok t \<longrightarrow> history_kept t t1)"
  unfolding conversion_def Let_def
  by (rule achieves_weaken, (rule achieves_andthen alter_events_achieves achieves_stmt services_achieve
        achieves_require v1_rows_achieve triggers_achieve runschema_achieves)+)
    (clarsimp simp: select_rows_def, erule (1) history_of_directions, blast intro: retyped_then_id)

section \<open>The connection after the conversion\<close>

lemma andthenE:
  assumes "andthen m f c = (Some y, c')"
  obtains x c1 where "m c = (Some x, c1)" and "f x c1 = (Some y, c')"
  using assms by (auto simp: andthen_def split: prod.splits option.splits)

lemma conversion_last:
  assumes "conversion trg c = (Some x, c')"
  shows "\<exists>c0. runschema (SET_USER_VERSION 1) c0 = (Some (), c')"
  using assms unfolding conversion_def Let_def by (elim andthenE) auto

lemma set_version:
  assumes "runschema (SET_USER_VERSION v) c = (Some x, c')"
  shows "user_version c' = v \<and> \<not> damaged c'"
proof -
  from assms obtain rows e c1 where ex: "exec_sql nothing c = (True, rows, e, c1)"
    and c': "c' = c1\<lparr>user_version := v\<rparr>"
    by (auto simp: runschema_def exec_schema_def split: prod.splits if_splits)
  from ex have "\<not> damaged c" "rtcom_el_db_exec nothing c = (True, rows, e, c1)"
    by (auto simp: exec_sql_def split: if_splits prod.splits)
  with conn_more(1) [OF exec_more, of nothing c] c' show ?thesis by simp
qed

lemma conversion_needs_events:
  assumes "conversion trg c = (Some x, c')"
  shows "schema_objects c ''Events'' \<noteq> None \<and> user_version c = 0"
proof -
  from assms obtain y c1 where "alter_events (\<lambda>e. e\<lparr>e_outgoing := 0\<rparr>) c = (Some (y :: unit), c1)"
    unfolding conversion_def by (elim andthenE) auto
  then obtain rows e c2 where "exec_sql (Stmt (\<lambda>t. if schema_objects c ''Events'' = None \<or> user_version c \<noteq> 0
      then Inl SQLITE_ERROR else Inr ([], None, t\<lparr>Events := map (\<lambda>e. e\<lparr>e_outgoing := 0\<rparr>) (Events t)\<rparr>)) :: unit sql) c =
      (True, rows, e, c2)"
    unfolding alter_events_def by (elim andthenE) (auto simp: runsql_def split: prod.splits if_splits)
  from exec_sql_ok [OF this] show ?thesis by (auto split: if_splits)
qed

lemma converted_conn:
  assumes "internal_convert_v0 trg c = (True, c')"
  shows "schema_objects c ''Events'' \<noteq> None \<and> user_version c = 0 \<and>
     on_disk c' = Database (schema_objects c') 1 (tb c') \<and>
     (whole_statements (torn c) \<and> types_ok (tb c) \<longrightarrow> history_kept (tb c) (tb c'))"
proof -
  from assms obtain x c1 ok e where cv: "conversion trg c = (Some x, c1)"
    and cm: "commit_conn c1 = (True, e, c')"
    by (auto simp: internal_convert_v0_def andthen_def split: prod.splits option.splits if_splits)
  from cm have k: "rtcom_el_db_commit c1 = (True, e, c')"
    by (auto simp: commit_conn_def split: prod.splits if_splits)
  from conversion_last [OF cv] set_version have v: "user_version c1 = 1" "\<not> damaged c1" by blast+
  from commit_ok [OF k] conn_more [OF commit_more [OF k]] v
  have "txn c1 \<noteq> None" "txn c' = None" "tb c' = tb c1" "\<not> damaged c'" "user_version c' = 1" by simp_all
  with conversion_needs_events [OF cv] achievesD(2) [OF conversion_achieves cv]
  show ?thesis by (simp add: on_disk_def)
qed

section \<open>Files\<close>

lemma temp_fname_other [simp]: "temp_fname f \<noteq> f" "f \<noteq> temp_fname f"
  by (simp_all add: temp_fname_def)

lemma exec_torn:
  assumes "rtcom_el_db_exec q c = (ok, rows, e, c')"
  shows "torn c' = torn c"
proof (cases ok)
  case True
  with assms obtain c1 as where "effect q c = Inr (rows, c1)" "c' = c1\<lparr>script := as, errcode := None\<rparr>"
    by (auto elim: exec_ok)
  then show ?thesis by (cases q) (auto split: sum.splits if_splits)
next
  case False
  with assms show ?thesis by (auto elim!: exec_failed simp: torn_refused)
qed

text \<open>The connection to the temporary file, up to the copy.\<close>

lemma temp_conn:
  assumes "exec_sql (PRAGMA_JOURNAL JM_OFF :: unit sql) c = (ok1, rows, e1, c1)"
    and "begin_exclusive c1 = (ok, e, c2)" and "txn c = None"
  shows "schema_objects c2 = schema_objects c \<and> damaged c2 = damaged c \<and> torn c2 = torn c \<and>
     (\<not> ok \<longrightarrow> txn c2 = None)"
proof -
  note p = pragma_length [OF assms(1,3)]
  have c1: "schema_objects c1 = schema_objects c \<and> torn c1 = torn c"
  proof (cases "damaged c")
    case False
    with assms(1) obtain c0 where ex: "rtcom_el_db_exec (PRAGMA_JOURNAL JM_OFF :: unit sql) c = (ok1, rows, e1, c0)"
      "c1 = (if ok1 then c0 else rolled_back c c0)" by (auto simp: exec_sql_def split: prod.splits)
    from exec_torn [OF ex(1)] conn_more(2) [OF exec_more [OF ex(1)]] ex(2) assms(3) show ?thesis
      by (simp add: rolled_back_def)
  qed (use p in simp)
  show ?thesis
  proof (cases "damaged c1")
    case True
    with assms(2) p c1 show ?thesis by (auto simp: begin_exclusive_def)
  next
    case False
    with assms(2) p obtain rows c0 where ex: "rtcom_el_db_exec (BEGIN_EXCLUSIVE :: unit sql) c1 = (ok, rows, e, c0)"
      and c2: "c2 = (if ok then c0\<lparr>before := (schema_objects c1, user_version c1)\<rparr> else c0)"
      by (auto simp: begin_exclusive_def rtcom_el_db_transaction_def split: prod.splits)
    have "txn (refused b rb c1 new) = None" for b rb new
      using p by (simp add: refused_def undo_def Let_def)
    with ex p have "\<not> ok \<Longrightarrow> txn c0 = None" by (auto elim!: exec_failed)
    with c2 exec_torn [OF ex] conn_more(1,2) [OF exec_more [OF ex]] c1 p show ?thesis by simp
  qed
qed

lemma unlink_files:
  "tearing (snd (g_unlink f w)) = tearing w \<and>
   (\<exists>x \<in> {None, files w f}. files (snd (g_unlink f w)) = (files w)(f := x))"
  by (auto simp: g_unlink_def split: list.splits bool.splits)

lemma rename_files:
  "tearing (snd (g_rename a b w)) = tearing w \<and>
   (files (snd (g_rename a b w)) = files w \<or>
    (\<exists>x. files w a = Some x \<and> files (snd (g_rename a b w)) = (files w)(a := None, b \<mapsto> x)))"
  by (auto simp: g_rename_def split: list.splits bool.splits option.splits)

lemma sync_files: "files (sync f c w) = (files w)(f \<mapsto> on_disk c)" "tearing (sync f c w) = tearing w"
  by (simp_all add: sync_def)

lemma unlink_temp:
  obtains x where "x \<in> {None, Some (on_disk c)}"
    and "files (snd (g_unlink f (sync f c (w\<lparr>answers := as\<rparr>)))) = (files w)(f := x)"
    and "tearing (snd (g_unlink f (sync f c (w\<lparr>answers := as\<rparr>)))) = tearing w"
  using unlink_files [of f "sync f c (w\<lparr>answers := as\<rparr>)"] by (auto simp: sync_files)

text \<open>What one attempt may do to the files.\<close>

lemma attempt_cases:
  assumes "convert_attempt trg fname old_fname w = (r, w')"
  obtains (idle) b where "r = Some b" and "files w' = files w" and "tearing w' = tearing w"
    and "b \<Longrightarrow> files w fname \<noteq> None \<or> files w old_fname = None \<or> (\<exists>c. sqlite3_open old_fname w = Inl c)"
  | (locked) c ok1 rows e1 c1 e c2 x where "sqlite3_open (temp_fname fname) (w\<lparr>answers := tl (answers w)\<rparr>) = Inr c"
    and "exec_sql (PRAGMA_JOURNAL JM_OFF :: unit sql) c = (ok1, rows, e1, c1)"
    and "begin_exclusive c1 = (False, e, c2)" and "x \<in> {None, Some (on_disk c2)}"
    and "files w' = (files w)(temp_fname fname := x)" and "tearing w' = tearing w" and "r \<noteq> Some True"
    and "files w fname = None"
  | (failed) x where "r = Some False" and "files w' = (files w)(temp_fname fname := x)"
    and "tearing w' = tearing w"
  | (converted) old c ok1 rows e1 c1 e c2 c3 c4 where "r = Some True" and "files w fname = None"
    and "sqlite3_open old_fname w = Inr old"
    and "sqlite3_open (temp_fname fname) (w\<lparr>answers := tl (answers w)\<rparr>) = Inr c"
    and "exec_sql (PRAGMA_JOURNAL JM_OFF :: unit sql) c = (ok1, rows, e1, c1)"
    and "begin_exclusive c1 = (True, e, c2)" and "backup old c2 = (True, c3)"
    and "internal_convert_v0 trg c3 = (True, c4)" and "tearing w' = tearing w"
    and "files w' = (files w)(temp_fname fname \<mapsto> on_disk c4) \<or>
      files w' = (files w)(temp_fname fname := None, fname \<mapsto> on_disk c4)"
    and "w' = snd (g_rename (temp_fname fname) fname
      (sync (temp_fname fname) c4 (w\<lparr>answers := tl (answers w)\<rparr>)))"
proof -
  let ?temp = "temp_fname fname" and ?w1 = "w\<lparr>answers := tl (answers w)\<rparr>"
  note idle = that(1) and locked = that(2) and failed = that(3) and converted = that(4)
  show ?thesis
  proof (cases "files w fname = None \<and> files w old_fname \<noteq> None")
    case False
    with assms show ?thesis
      by (intro idle [of True]) (auto simp: convert_attempt_def Let_def split: if_splits)
  next
    case absent: True
    show ?thesis
    proof (cases "sqlite3_open old_fname w")
      case (Inl b)
      with assms absent show ?thesis by (intro idle [of True]) (auto simp: convert_attempt_def Let_def)
    next
      case old: (Inr old)
      show ?thesis
      proof (cases "sqlite3_open ?temp ?w1")
        case (Inl b)
        with assms absent old show ?thesis by (intro idle [of False]) (auto simp: convert_attempt_def Let_def)
      next
        case temp: (Inr c)
        obtain ok1 rows e1 c1 where p: "exec_sql (PRAGMA_JOURNAL JM_OFF :: unit sql) c = (ok1, rows, e1, c1)"
          by (rule prod_cases4)
        obtain ok e c2 where b: "begin_exclusive c1 = (ok, e, c2)" by (rule prod_cases3)
        obtain ok3 c3 where k: "backup old c2 = (ok3, c3)" by (rule prod.exhaust)
        obtain ok4 c4 where i: "internal_convert_v0 trg c3 = (ok4, c4)" by (rule prod.exhaust)
        note run = assms [unfolded convert_attempt_def Let_def] and steps = absent old temp p b k i
        show ?thesis
        proof (cases ok)
          case False
          obtain x where "x \<in> {None, Some (on_disk c2)}" "files w' = (files w)(?temp := x)"
            "tearing w' = tearing w" "r \<noteq> Some True"
          proof (cases "e \<noteq> None \<and> temp_unusable (the e)")
            case True
            with run False have "w' = snd (g_unlink ?temp (sync ?temp c2 ?w1))" "r = None" by (auto simp: steps)
            with that unlink_temp show ?thesis by (metis option.distinct(1))
          next
            case unusable: False
            with run False have "w' = sync ?temp c2 ?w1" "r = Some False" by (auto simp: steps)
            then show ?thesis by (intro that [of "Some (on_disk c2)"]) (simp_all add: sync_files)
          qed
          with temp p b False absent show ?thesis by (intro locked) auto
        next
          case begun: True
          show ?thesis
          proof (cases "ok3 \<and> ok4")
            case True
            with run begun have r: "r = Some True" "w' = snd (g_rename ?temp fname (sync ?temp c4 ?w1))"
              by (auto simp: steps)
            from rename_files [of ?temp fname "sync ?temp c4 ?w1"]
            have "files w' = (files w)(?temp \<mapsto> on_disk c4) \<or>
                files w' = (files w)(?temp := None, fname \<mapsto> on_disk c4)" "tearing w' = tearing w"
              by (auto simp: r(2) sync_files)
            with r old temp p b k i begun True absent show ?thesis by (intro converted) auto
          next
            case False
            with run begun obtain d where "r = Some False" "w' = snd (g_unlink ?temp (sync ?temp d ?w1))"
              by (cases ok3; cases ok4) (auto simp: steps)
            with failed unlink_temp show ?thesis by metis
          qed
        qed
      qed
    qed
  qed
qed

section \<open>All or nothing\<close>

text \<open>A file that holds no log, as the temporary file of a first attempt.\<close>

definition no_log :: "db_file option \<Rightarrow> bool" where
  "no_log x \<longleftrightarrow> (case x of Some (Database objs v t) \<Rightarrow> objs ''Events'' = None | _ \<Rightarrow> True)"

lemma open_no_log:
  assumes "sqlite3_open f w = Inr c" and "no_log (files w f)"
  shows "schema_objects c ''Events'' = None \<and> torn c = tearing w \<and> txn c = None"
  using assms
  by (auto simp: sqlite3_open_def new_conn_def no_log_def
      split: list.splits answer.splits option.splits db_file.splits)

lemma open_log:
  assumes "sqlite3_open f w = Inr c" and "files w f = Some (Database objs v t)"
  shows "tb c = t"
  using assms by (auto simp: sqlite3_open_def new_conn_def split: list.splits answer.splits)

lemma backup_ok:
  assumes "backup old c = (True, c')"
  shows "torn c' = torn c \<and> (tb c' = tb old \<or> schema_objects c' = schema_objects c)"
  using assms by (auto simp: backup_def split: list.splits answer.splits if_splits prod.splits bool.splits)

lemma attempt_history:
  assumes run: "convert_attempt trg fname old_fname w = (r, w')"
    and old: "files w old_fname = Some (Database objs v t)" and ok: "types_ok t"
    and whole: "whole_statements (tearing w)" and names: "old_fname \<notin> {fname, temp_fname fname}"
    and new: "files w fname = None" and temp: "no_log (files w (temp_fname fname))"
  shows "tearing w' = tearing w \<and> files w' old_fname = files w old_fname \<and>
     (if r = None then files w' fname = None \<and> no_log (files w' (temp_fname fname))
      else files w' fname = None \<or> r = Some True \<and>
        (\<exists>objs' t'. files w' fname = Some (Database objs' 1 t') \<and> history_kept t t'))"
  using run
proof (cases rule: attempt_cases)
  case (locked c ok1 rows e1 c1 e c2 x)
  have "no_log (files (w\<lparr>answers := tl (answers w)\<rparr>) (temp_fname fname))" using temp by simp
  from open_no_log [OF locked(1) this] temp_conn [OF locked(2,3)] have
    "schema_objects c2 ''Events'' = None" "txn c2 = None" by simp_all
  with locked(4) have "no_log x" by (auto simp: no_log_def on_disk_def)
  with locked new names show ?thesis by simp
next
  case (converted od c ok1 rows e1 c1 e c2 c3 c4)
  have "no_log (files (w\<lparr>answers := tl (answers w)\<rparr>) (temp_fname fname))" using temp by simp
  from open_no_log [OF converted(4) this] temp_conn [OF converted(5,6)] have
    c2: "schema_objects c2 ''Events'' = None" "torn c2 = tearing w" by simp_all
  note c4 = converted_conn [OF converted(8)]
  from backup_ok [OF converted(7)] c2 c4 open_log [OF converted(3) old] have
    "tb c3 = t" "torn c3 = tearing w" by auto
  with c4 ok whole have "on_disk c4 = Database (schema_objects c4) 1 (tb c4)" "history_kept t (tb c4)" by auto
  with converted new names show ?thesis by auto
qed (use new names in auto)

end
