(* ===== verification/El_Convert_Ahead.thy ===== *)
theory El_Convert_Ahead
  imports El_Convert_Steps
begin

text \<open>
  The conversion of a version 0 database when SQLite goes ahead: every step succeeds.
\<close>

section \<open>Steps SQLite goes ahead with\<close>

definition ahead :: "conn \<Rightarrow> tables \<Rightarrow> bool" where
  "ahead c t \<longleftrightarrow> script c = [] \<and> \<not> damaged c \<and> tb c = t \<and> txn c \<noteq> None \<and>
     schema_objects c ''Events'' \<noteq> None \<and> user_version c = 0"

definition reaches :: "'x step \<Rightarrow> tables \<Rightarrow> 'x \<Rightarrow> tables \<Rightarrow> bool" where
  "reaches m t x t1 \<longleftrightarrow> (\<forall>c. ahead c t \<longrightarrow> (\<exists>c1. m c = (Some x, c1) \<and> ahead c1 t1))"

lemma reaches_andthen: "reaches m t x t1 \<Longrightarrow> reaches (f x) t1 y t2 \<Longrightarrow> reaches (andthen m f) t y t2"
  unfolding reaches_def andthen_def by fastforce

lemma reaches_done: "reaches (Pair (Some x)) t x t"
  by (simp add: reaches_def)

lemma reaches_require: "b \<Longrightarrow> reaches (require b) t () t"
  by (simp add: reaches_def require_def)

lemma runsql_ahead:
  assumes "ahead c t" and "f t = Inr (rows, i, t1)"
  shows "\<exists>c1. runsql (Stmt f) c = (Some rows, c1) \<and> ahead c1 t1"
proof -
  from assms have "rtcom_el_db_exec (Stmt f) c = (True, rows, None, c\<lparr>tb := t1,
      last_rowid := (case i of None \<Rightarrow> last_rowid c | Some k \<Rightarrow> k), script := [], errcode := None\<rparr>)"
    by (simp add: exec_calm ahead_def)
  with assms show ?thesis by (auto simp: runsql_def exec_sql_def ahead_def)
qed

lemma reaches_stmt: "f t = Inr (rows, i, t1) \<Longrightarrow> reaches (runsql (Stmt f)) t rows t1"
  unfolding reaches_def using runsql_ahead by blast

lemma reaches_select: "reaches (runsql (Stmt (select_rows q))) t (q t) t"
  by (rule reaches_stmt) (rule select_rows_def)

lemma reaches_ignored: "f t = Inr (rows, i, t1) \<Longrightarrow> reaches (ignore (runsql (Stmt f))) t () t1"
  unfolding reaches_def ignore_def using runsql_ahead by fastforce

lemma reaches_alter: "reaches (alter_events f) t () (t\<lparr>Events := map f (Events t)\<rparr>)"
  unfolding reaches_def
proof (intro allI impI)
  fix c assume c: "ahead c t"
  let ?f = "\<lambda>t. if schema_objects c ''Events'' = None \<or> user_version c \<noteq> 0 then Inl SQLITE_ERROR
      else Inr ([] :: unit list, None, t\<lparr>Events := map f (Events t)\<rparr>)"
  from c have "?f t = Inr ([], None, t\<lparr>Events := map f (Events t)\<rparr>)" by (simp add: ahead_def)
  from runsql_ahead [where f = ?f, OF c this] show "\<exists>c1. alter_events f c = (Some (), c1) \<and>
      ahead c1 (t\<lparr>Events := map f (Events t)\<rparr>)"
    by (auto simp: alter_events_def andthen_def)
qed

text \<open>The last statement, after which the transaction is ready to be committed.\<close>

definition lands :: "'x step \<Rightarrow> tables \<Rightarrow> 'x \<Rightarrow> bool" where
  "lands m t x \<longleftrightarrow> (\<forall>c. ahead c t \<longrightarrow> (\<exists>c1. m c = (Some x, c1) \<and> script c1 = [] \<and> txn c1 \<noteq> None))"

lemma lands_andthen: "reaches m t x t1 \<Longrightarrow> lands (f x) t1 y \<Longrightarrow> lands (andthen m f) t y"
  unfolding reaches_def lands_def andthen_def by fastforce

lemma lands_version: "lands (runschema (SET_USER_VERSION v)) t ()"
  unfolding lands_def
proof (intro allI impI)
  fix c assume c: "ahead c t"
  from runsql_ahead [OF c, of "\<lambda>t. Inr ([], None, t)" "[] :: unit list" None t] obtain c1 where
    "runsql nothing c = (Some [], c1)" "ahead c1 t" by (auto simp: nothing_def)
  then show "\<exists>c1. runschema (SET_USER_VERSION v) c = (Some (), c1) \<and> script c1 = [] \<and> txn c1 \<noteq> None"
    by (auto simp: runsql_def runschema_def exec_schema_def ahead_def split: prod.splits if_splits)
qed

lemma reaches_trigger:
  assumes "s \<in> set v1_triggers"
  shows "reaches (ignore (runschema s)) t () t"
  unfolding reaches_def
proof (intro allI impI)
  fix c assume c: "ahead c t"
  from assms have e: "ahead (schema_effect s c1) t" if "ahead c1 t" for c1
    using that by (cases "schema_objects c1 ''gc_update_ev_add4'' = None";
        cases "schema_objects c1 ''gc_update_ev_update'' = None") (auto simp: v1_triggers_def ahead_def)
  from runsql_ahead [OF c, of "\<lambda>t. Inr ([], None, t)" "[] :: unit list" None t] obtain c1 where
    "runsql nothing c = (Some [], c1)" "ahead c1 t" by (auto simp: nothing_def)
  with e show "\<exists>c1. ignore (runschema s) c = (Some (), c1) \<and> ahead c1 t"
    by (auto simp: ignore_def runsql_def runschema_def exec_schema_def split: prod.splits if_splits)
qed

section \<open>Version 0 databases\<close>

text \<open>The plugins of the types of a name: one, or none where there is no such type.\<close>

definition plugin_of :: "tables \<Rightarrow> string \<Rightarrow> int list" where
  "plugin_of t n = map et_plugin_id (filter (\<lambda>r. et_name r = n) (EventTypes t))"

lemma plugin_of_none: "plugin_of t n = [] \<longleftrightarrow> n \<notin> et_name ` set (EventTypes t)"
  by (auto simp: plugin_of_def filter_empty_conv)

text \<open>The services \<open>ss\<close> have their two types, with ids that are not 0, and not yet their new type.\<close>

definition unconverted :: "string list \<Rightarrow> tables \<Rightarrow> bool" where
  "unconverted ss t \<longleftrightarrow> types_ok t \<and> list_all (\<lambda>r. et_id r \<noteq> 0) (EventTypes t) \<and>
     list_all (\<lambda>s. plugin_of t (inbound s) \<noteq> [] \<and> plugin_of t (outbound s) \<noteq> [] \<and>
       plugin_of t (message s) = []) ss"

lemma type_id_found:
  assumes "plugin_of t n \<noteq> []" and "types_ok t" and "list_all (\<lambda>r. et_id r \<noteq> 0) (EventTypes t)"
  shows "rtcom_el_db_single_int
     (map (\<lambda>r. Some (et_id r)) (filter (\<lambda>r. et_name r = n) (EventTypes t))) 0 \<noteq> 0"
proof -
  let ?rs = "filter (\<lambda>r. et_name r = n) (EventTypes t)"
  from assms(1) have "?rs \<noteq> []" by (simp add: plugin_of_def)
  then obtain rs r where rs: "?rs = rs @ [r]" by (cases ?rs rule: rev_cases) auto
  then have "r \<in> set (EventTypes t)" by (metis in_set_conv_decomp filter_is_subset subsetD)
  with assms rs show ?thesis
    by (simp add: rtcom_el_db_single_int_def sqlite3_column_int_def types_ok_def list_all_iff)
qed

lemma service_reaches:
  assumes "unconverted (s # ss) t"
  shows "\<exists>t1. reaches (convert_service trg s) t () t1 \<and> types_ok t1 \<and>
     EventTypes t1 = filter (\<lambda>r. et_name r \<noteq> outbound s)
       (map (\<lambda>r. if et_name r = inbound s then r\<lparr>et_name := message s\<rparr> else r) (EventTypes t)) \<and>
     Services t1 = Services t \<and> Flags t1 = Flags t"
proof -
  let ?id = "\<lambda>n. rtcom_el_db_single_int
    (map (\<lambda>r. Some (et_id r)) (filter (\<lambda>r. et_name r = n) (EventTypes t))) 0"
  from assms have u: "types_ok t" "list_all (\<lambda>r. et_id r \<noteq> 0) (EventTypes t)" "plugin_of t (inbound s) \<noteq> []"
    "plugin_of t (outbound s) \<noteq> []" "message s \<notin> et_name ` set (EventTypes t)"
    by (simp_all add: unconverted_def plugin_of_none)
  note i = type_id_found [OF u(3,1,2)] and o = type_id_found [OF u(4,1,2)]
  obtain t1 where m: "map_type trg (?id (inbound s)) (?id (outbound s)) t = Inr ([], None, t1)"
    "EventTypes t1 = EventTypes t" "Services t1 = Services t" "Flags t1 = Flags t"
    by (simp add: map_type_def update_v0_def)
  from u(5) m(2) obtain t2 where n: "rename_type (inbound s) (message s) t1 = Inr ([], None, t2)"
    "EventTypes t2 = map (\<lambda>r. if et_name r = inbound s then r\<lparr>et_name := message s\<rparr> else r) (EventTypes t)"
    "Services t2 = Services t" "Flags t2 = Flags t"
    using m(3,4) by (simp add: rename_type_def)
  obtain t3 where d: "delete_type (outbound s) t2 = Inr ([], None, t3)"
    "EventTypes t3 = filter (\<lambda>r. et_name r \<noteq> outbound s) (EventTypes t2)"
    "Services t3 = Services t" "Flags t3 = Flags t"
    using n(3,4) by (simp add: delete_type_def)
  have "reaches (convert_service trg s) t () t3"
    unfolding convert_service_def type_ids_def Let_def
    by (rule reaches_andthen reaches_stmt reaches_require reaches_ignored | rule i o m(1) n(1) d(1)
        | simp add: select_rows_def; fail)+
  moreover from found_type [OF u(1) i] found_type [OF u(1) o] obtain ri ro where
    "ri \<in> set (EventTypes t)" "et_name ri = inbound s" "et_id ri = ?id (inbound s)"
    "ro \<in> set (EventTypes t)" "et_name ro = outbound s" "et_id ro = ?id (outbound s)" by blast
  with service_converted [OF u(1), of ri s ro trg "[]" None t1 "[]" None t2 t3 "[]" None] m(1) n(1) d(1)
  have "types_ok t3" by simp
  ultimately show ?thesis using d(2-4) n(2) by auto
qed

section \<open>The types and flags of version 1\<close>

lemma plugin_of_service:
  assumes "EventTypes t1 = filter (\<lambda>r. et_name r \<noteq> outbound s)
       (map (\<lambda>r. if et_name r = inbound s then r\<lparr>et_name := message s\<rparr> else r) (EventTypes t))"
  shows "n \<noteq> inbound s \<Longrightarrow> n \<noteq> outbound s \<Longrightarrow> n \<noteq> message s \<Longrightarrow> plugin_of t1 n = plugin_of t n"
    and "plugin_of t (message s) = [] \<Longrightarrow> plugin_of t1 (message s) = plugin_of t (inbound s)"
proof -
  have "map et_plugin_id (filter (\<lambda>r. et_name r = n) (filter (\<lambda>r. et_name r \<noteq> outbound s)
       (map (\<lambda>r. if et_name r = inbound s then r\<lparr>et_name := message s\<rparr> else r) rs))) =
      map et_plugin_id (filter (\<lambda>r. et_name r = n) rs)"
    if "n \<noteq> inbound s" "n \<noteq> outbound s" "n \<noteq> message s" for rs
    using that by (induction rs) auto
  then show "n \<noteq> inbound s \<Longrightarrow> n \<noteq> outbound s \<Longrightarrow> n \<noteq> message s \<Longrightarrow> plugin_of t1 n = plugin_of t n"
    by (simp add: plugin_of_def assms)
  have "map et_plugin_id (filter (\<lambda>r. et_name r = message s) (filter (\<lambda>r. et_name r \<noteq> outbound s)
       (map (\<lambda>r. if et_name r = inbound s then r\<lparr>et_name := message s\<rparr> else r) rs))) =
      map et_plugin_id (filter (\<lambda>r. et_name r = inbound s) rs)"
    if "filter (\<lambda>r. et_name r = message s) rs = []" for rs
    using that by (induction rs) (auto split: if_splits)
  then show "plugin_of t (message s) = [] \<Longrightarrow> plugin_of t1 (message s) = plugin_of t (inbound s)"
    by (simp add: plugin_of_def assms)
qed

lemma v0_names:
  assumes "s \<in> set v0_services" and "s' \<in> set v0_services" and "s \<noteq> s'"
  shows "{inbound s', outbound s', message s'} \<inter> {inbound s, outbound s, message s} = {}"
  using assms by (auto simp: v0_services_def inbound_def outbound_def message_def)

lemma v0_other_names:
  assumes "s \<in> set v0_services" and "n \<in> fst ` set v1_eventtypes"
  shows "n \<notin> {inbound s, outbound s, message s}"
  using assms by (auto simp: v0_services_def v1_eventtypes_def inbound_def outbound_def message_def)

lemma services_reach:
  assumes "unconverted ss t" and "set ss \<subseteq> set v0_services" and "distinct ss"
  shows "\<exists>t1. reaches (all_steps (map (convert_service trg) ss)) t () t1 \<and>
     (\<forall>s\<in>set ss. plugin_of t1 (message s) = plugin_of t (inbound s)) \<and>
     (\<forall>n. (\<forall>s\<in>set ss. n \<notin> {inbound s, outbound s, message s}) \<longrightarrow> plugin_of t1 n = plugin_of t n) \<and>
     Services t1 = Services t \<and> Flags t1 = Flags t"
  using assms
proof (induction ss arbitrary: t)
  case Nil
  show ?case by (rule exI [of _ t]) (simp add: reaches_done)
next
  case (Cons s ss)
  from service_reaches [OF Cons.prems(1)] obtain t1 where t1: "reaches (convert_service trg s) t () t1"
    "types_ok t1" "EventTypes t1 = filter (\<lambda>r. et_name r \<noteq> outbound s)
       (map (\<lambda>r. if et_name r = inbound s then r\<lparr>et_name := message s\<rparr> else r) (EventTypes t))"
    "Services t1 = Services t" "Flags t1 = Flags t" by blast
  note p = plugin_of_service [OF t1(3)]
  have other: "{inbound s', outbound s', message s'} \<inter> {inbound s, outbound s, message s} = {}"
    if "s' \<in> set ss" for s'
    by (rule v0_names) (use Cons.prems(2,3) that in auto)
  have same: "plugin_of t1 n = plugin_of t n" if "s' \<in> set ss" "n \<in> {inbound s', outbound s', message s'}" for s' n
    using other [OF that(1)] that(2) by (intro p(1)) auto
  have "unconverted ss t1"
    using Cons.prems(1) t1(2,3) same by (auto simp: unconverted_def list_all_iff)
  from Cons.IH [OF this] Cons.prems(2,3) obtain t2 where t2:
    "reaches (all_steps (map (convert_service trg) ss)) t1 () t2"
    "\<forall>s\<in>set ss. plugin_of t2 (message s) = plugin_of t1 (inbound s)"
    "\<forall>n. (\<forall>s\<in>set ss. n \<notin> {inbound s, outbound s, message s}) \<longrightarrow> plugin_of t2 n = plugin_of t1 n"
    "Services t2 = Services t1" "Flags t2 = Flags t1" by auto
  have here: "plugin_of t2 (message s) = plugin_of t (inbound s)"
    using t2(3) p(2) other Cons.prems(1) by (auto simp: unconverted_def)
  have "reaches (all_steps (map (convert_service trg) (s # ss))) t () t2"
    using reaches_andthen [OF t1(1) t2(1)] by simp
  moreover have "plugin_of t2 (message s') = plugin_of t (inbound s')" if "s' \<in> set (s # ss)" for s'
    using that here t2(2) same by auto
  ultimately show ?case
    using t2(3-5) t1(4,5) p(1) by (intro exI [of _ t2]) auto
qed

lemma eventtypes_reach:
  assumes "distinct (map fst tys)" and "\<forall>n\<in>fst ` set tys. plugin_of t n = []"
  shows "\<exists>t1. reaches (all_steps (map (add_eventtype plugin) tys)) t () t1 \<and>
     Services t1 = Services t \<and> Flags t1 = Flags t"
  using assms
proof (induction tys arbitrary: t)
  case Nil
  show ?case by (rule exI [of _ t]) (simp add: reaches_done)
next
  case (Cons ty tys)
  let ?r = "\<lparr>et_id = next_rowid (map et_id (EventTypes t)), et_name = fst ty, et_plugin_id = plugin,
    et_desc = Some (snd ty)\<rparr>"
  let ?t = "t\<lparr>EventTypes := EventTypes t @ [?r]\<rparr>"
  from Cons.prems(2) have "fst ty \<notin> et_name ` set (EventTypes t)" by (simp add: plugin_of_none)
  then have "insert_eventtype (fst ty) plugin (Some (snd ty)) t =
      Inr ([] :: unit list, Some (next_rowid (map et_id (EventTypes t))), ?t)"
    by (simp add: insert_eventtype_def Let_def)
  then have "reaches (runsql (Stmt (insert_eventtype (fst ty) plugin (Some (snd ty))) :: unit sql)) t [] ?t"
    by (rule reaches_stmt)
  from reaches_andthen [OF this reaches_done]
  have one: "reaches (add_eventtype plugin ty) t () ?t" by (simp add: add_eventtype_def)
  have "\<forall>n\<in>fst ` set tys. plugin_of ?t n = []"
    using Cons.prems by (auto simp: plugin_of_def)
  from Cons.IH [OF _ this] Cons.prems(1) reaches_andthen [OF one] show ?case by fastforce
qed

lemma flags_reach:
  assumes "distinct (map fst fls)" and "\<forall>n\<in>fst ` set fls. n \<notin> fl_name ` set (Flags t)"
  shows "\<exists>t1. reaches (all_steps (map (add_flag service) fls)) t () t1"
  using assms
proof (induction fls arbitrary: t)
  case Nil
  show ?case by (rule exI [of _ t]) (simp add: reaches_done)
next
  case (Cons fl fls)
  from Cons.prems(2) obtain i t1 where f: "insert_flag service (fst fl) (fst (snd fl)) (Some (snd (snd fl))) t =
      Inr ([] :: unit list, i, t1)" "fl_name ` set (Flags t1) = insert (fst fl) (fl_name ` set (Flags t))"
    by (simp add: insert_flag_def Let_def)
  from f(1) have "reaches (runsql (Stmt (insert_flag service (fst fl) (fst (snd fl)) (Some (snd (snd fl))))
      :: unit sql)) t [] t1" by (rule reaches_stmt)
  from reaches_andthen [OF this reaches_done]
  have one: "reaches (add_flag service fl) t () t1" by (simp add: add_flag_def)
  have "\<forall>n\<in>fst ` set fls. n \<notin> fl_name ` set (Flags t1)"
  proof
    fix n assume n: "n \<in> fst ` set fls"
    with Cons.prems(1) have "n \<noteq> fst fl" by (metis distinct.simps(2) list.simps(9) set_map)
    with n Cons.prems(2) f(2) show "n \<notin> fl_name ` set (Flags t1)" by auto
  qed
  from Cons.IH [OF _ this] Cons.prems(1) reaches_andthen [OF one] show ?case by fastforce
qed

lemma triggers_reach: "set ss \<subseteq> set v1_triggers \<Longrightarrow> reaches (all_steps (map (ignore \<circ> runschema) ss)) t () t"
  by (induction ss) (auto simp: reaches_done intro: reaches_andthen reaches_trigger)

text \<open>
  A version 0 database, as this library made it: the types of the three services, the plugin of the
  chat types with a service, and none of the types and flags that are added.
\<close>

definition version_0 :: "tables \<Rightarrow> bool" where
  "version_0 t \<longleftrightarrow> unconverted v0_services t \<and>
     list_all (\<lambda>ty. plugin_of t (fst ty) = []) v1_eventtypes \<and>
     list_all (\<lambda>fl. fst fl \<notin> fl_name ` set (Flags t)) v1_flags \<and>
     (let p = hd (plugin_of t (inbound ''CHAT''));
          ids = map sv_id (filter (\<lambda>r. sv_plugin_id r = p) (Services t))
      in to_gint p = p \<and> p \<noteq> 0 \<and> ids \<noteq> [] \<and> to_gint (last ids) \<noteq> 0)"

lemma single_int_first: "xs \<noteq> [] \<Longrightarrow> rtcom_el_db_single_int (take 1 (map Some xs)) 0 = to_gint (hd xs)"
  by (cases xs) (simp_all add: rtcom_el_db_single_int_def sqlite3_column_int_def)

lemma single_int_last: "xs \<noteq> [] \<Longrightarrow> rtcom_el_db_single_int (map Some xs) 0 = to_gint (last xs)"
  by (cases xs rule: rev_cases) (simp_all add: rtcom_el_db_single_int_def sqlite3_column_int_def)

lemma v1_names: "distinct (map fst v1_eventtypes)" "distinct (map fst v1_flags)"
    "distinct v0_services" "''CHAT'' \<in> set v0_services"
  by (simp_all add: v1_eventtypes_def v1_flags_def v0_services_def)

lemma conversion_reaches:
  assumes "version_0 t" and c: "ahead c t"
  shows "\<exists>c1. conversion trg c = (Some (), c1) \<and> script c1 = [] \<and> txn c1 \<noteq> None"
proof -
  let ?chat = "inbound ''CHAT''" and ?p = "hd (plugin_of t (inbound ''CHAT''))"
  from assms(1) have u: "unconverted v0_services t" "\<forall>n\<in>fst ` set v1_eventtypes. plugin_of t n = []"
    "\<forall>n\<in>fst ` set v1_flags. n \<notin> fl_name ` set (Flags t)" "to_gint ?p = ?p" "?p \<noteq> 0"
    "map sv_id (filter (\<lambda>r. sv_plugin_id r = ?p) (Services t)) \<noteq> []"
    "to_gint (last (map sv_id (filter (\<lambda>r. sv_plugin_id r = ?p) (Services t)))) \<noteq> 0"
    by (auto simp: version_0_def Let_def list_all_iff)
  obtain t1 where o: "set_outgoing_v0 trg (t\<lparr>Events := map (\<lambda>e. e\<lparr>e_outgoing := 0\<rparr>) (Events t)\<rparr>) =
      Inr ([], None, t1)" "EventTypes t1 = EventTypes t" "Services t1 = Services t" "Flags t1 = Flags t"
    by (simp add: set_outgoing_v0_def update_v0_def)
  have p1: "plugin_of t1 n = plugin_of t n" for n using o(2) by (simp add: plugin_of_def)
  have "unconverted v0_services t1" using u(1) o(2) p1 by (simp add: unconverted_def types_ok_def)
  from services_reach [OF this subset_refl v1_names(3), of trg] obtain t2 where
    t2: "reaches (all_steps (map (convert_service trg) v0_services)) t1 () t2"
      "plugin_of t2 (message ''CHAT'') = plugin_of t ?chat"
      "\<forall>n. (\<forall>s\<in>set v0_services. n \<notin> {inbound s, outbound s, message s}) \<longrightarrow> plugin_of t2 n = plugin_of t n"
      "Services t2 = Services t" "Flags t2 = Flags t"
    using p1 o(3,4) v1_names(4) by auto
  have "plugin_of t ?chat \<noteq> []" using u(1) v1_names(4) by (auto simp: unconverted_def list_all_iff)
  then have plugin: "rtcom_el_db_single_int (take 1 (map (\<lambda>r. Some (et_plugin_id r))
      (filter (\<lambda>r. et_name r = message ''CHAT'') (EventTypes t2)))) 0 = ?p"
    using t2(2) u(4) single_int_first [of "plugin_of t2 (message ''CHAT'')"]
    unfolding plugin_of_def map_map o_def by metis
  have "\<forall>n\<in>fst ` set v1_eventtypes. plugin_of t2 n = []"
    using t2(3) u(2) v0_other_names by simp
  from eventtypes_reach [OF v1_names(1) this] obtain t3 where
    t3: "reaches (all_steps (map (add_eventtype ?p) v1_eventtypes)) t2 () t3"
      "Services t3 = Services t" "Flags t3 = Flags t" using t2(4,5) by auto
  let ?s = "rtcom_el_db_single_int (map (\<lambda>r. Some (sv_id r)) (filter (\<lambda>r. sv_plugin_id r = ?p) (Services t3))) 0"
  have service: "?s \<noteq> 0"
    using single_int_last [OF u(6)] u(7) t3(2) by (simp add: o_def)
  from flags_reach [OF v1_names(2), of t3 ?s] u(3) t3(3) obtain t4 where
    t4: "reaches (all_steps (map (add_flag ?s) v1_flags)) t3 () t4" by auto
  have "lands (conversion trg) t ()"
    unfolding conversion_def Let_def
    apply (rule lands_andthen, rule reaches_alter, rule lands_andthen, rule reaches_alter)
    apply (rule lands_andthen, rule reaches_stmt, simp, rule o(1), rule lands_andthen, rule t2(1))
    apply (rule lands_andthen, rule reaches_select, unfold plugin)
    apply (rule lands_andthen, rule reaches_require, rule u(5), rule lands_andthen, rule t3(1))
    apply (rule lands_andthen, rule reaches_select)
    apply (rule lands_andthen, rule reaches_require, rule service, rule lands_andthen, rule t4)
    by (rule lands_andthen, rule triggers_reach, rule subset_refl, rule lands_version)
  with c show ?thesis unfolding lands_def by blast
qed

section \<open>Files\<close>

lemma internal_convert_ahead:
  assumes "version_0 t" and "ahead c t"
  shows "\<exists>c1. internal_convert_v0 trg c = (True, c1) \<and> script c1 = []"
proof -
  from conversion_reaches [OF assms] obtain c0 where c0: "conversion trg c = (Some (), c0)" "script c0 = []"
    "txn c0 \<noteq> None" by blast
  then have "rtcom_el_db_commit c0 = (True, None, c0\<lparr>txn := None, script := [], errcode := None\<rparr>)"
    by (simp add: rtcom_el_db_commit_def exec_calm)
  with c0(1) show ?thesis by (simp add: internal_convert_v0_def andthen_def commit_conn_def)
qed

lemma backup_steps_calm: "0 < n \<Longrightarrow> backup_steps n [] = (True, True, [])"
  by (cases n) simp_all

lemma convert_calm:
  assumes "answers w = []" and "files w fname = None" and "files w (temp_fname fname) = None"
    and old: "files w old_fname = Some (Database objs 0 t)" "objs ''Events'' \<noteq> None" and "version_0 t"
  shows "\<exists>c objs' t'. script c = [] \<and> on_disk c = Database objs' 1 t' \<and>
     rtcom_el_db_convert_from_db0 trg fname old_fname w =
       (True, snd (g_rename (temp_fname fname) fname (sync (temp_fname fname) c w)))"
proof -
  let ?temp = "temp_fname fname"
  let ?old = "new_conn w objs 0 t False" and ?c = "new_conn w Map.empty 0 empty_tables False"
  have w: "w\<lparr>answers := []\<rparr> = w" using assms(1) by simp
  have o: "sqlite3_open old_fname w = Inr ?old" "sqlite3_open ?temp w = Inr ?c"
    using assms by (simp_all add: sqlite3_open_def)
  obtain c1 where c1: "exec_sql (PRAGMA_JOURNAL JM_OFF :: unit sql) ?c = (True, [], None, c1)"
    "script c1 = []" "txn c1 = None" "\<not> damaged c1"
    using assms(1) by (simp add: exec_sql_def exec_calm new_conn_def)
  obtain c2 where c2: "begin_exclusive c1 = (True, None, c2)" "script c2 = []" "txn c2 \<noteq> None" "\<not> damaged c2"
    using c1(2-4) by (simp add: begin_exclusive_def rtcom_el_db_transaction_def exec_calm)
  obtain c3 where c3: "backup ?old c2 = (True, c3)" "ahead c3 t"
    using c2(2-4) old(2) by (simp add: backup_def backup_steps_calm ahead_def new_conn_def)
  from internal_convert_ahead [OF assms(6) c3(2)] obtain c4 where
    c4: "internal_convert_v0 trg c3 = (True, c4)" "script c4 = []" by blast
  have "convert_attempt trg fname old_fname w =
      (Some True, snd (g_rename ?temp fname (sync ?temp c4 w)))"
    using assms(2) old(1) by (simp add: convert_attempt_def Let_def o c1 c2 c3 c4 assms(1) w)
  then have "rtcom_el_db_convert_from_db0 trg fname old_fname w =
      (True, snd (g_rename ?temp fname (sync ?temp c4 w)))"
    by (simp add: rtcom_el_db_convert_from_db0.simps [of trg fname old_fname w])
  with c4(2) converted_conn [OF c4(1)] show ?thesis by blast
qed

end
