(* ===== verification/El_Convert_Props.thy ===== *)
theory El_Convert_Props
  imports El_Convert_Ahead
begin

text \<open>
  The conversion of a version 0 database: the history of events survives it, it is all or nothing,
  it succeeds when SQLite goes ahead, and it does not notice when the new file is missing.
\<close>

section \<open>A sample\<close>

definition sample_type :: "int \<Rightarrow> string \<Rightarrow> eventtype_row" where
  "sample_type i n = \<lparr>et_id = i, et_name = n, et_plugin_id = 1, et_desc = None\<rparr>"

definition old_event :: "int \<Rightarrow> int \<Rightarrow> event_row" where
  "old_event i ty =
     \<lparr>e_id = i, e_service_id = 1, e_event_type_id = ty, e_storage_time = 7, e_start_time = 5,
      e_end_time = 6, e_is_read = 1, e_outgoing = 0, e_flags = 0, e_bytes_sent = 0,
      e_bytes_received = 0, e_local_uid = Some ''me'', e_local_name = None,
      e_remote_uid = Some ''eve'', e_channel = None, e_free_text = Some ''old'',
      e_group_uid = Some ''h''\<rparr>"

definition old_tables :: tables where
  "old_tables = empty_tables\<lparr>
     Services := [\<lparr>sv_id = 1, sv_name = ''RTCOM_EL_SERVICE_CHAT'', sv_plugin_id = 1, sv_desc = None\<rparr>],
     EventTypes := map (\<lambda>(i, n). sample_type i n)
       [(1, inbound ''CHAT''), (2, outbound ''CHAT''), (3, inbound ''CALL''), (4, outbound ''CALL''),
        (5, inbound ''SMS''), (6, outbound ''SMS'')],
     Events := [old_event 1 6, old_event 2 3]\<rparr>"

definition old_disk :: disk where
  "old_disk =
     \<lparr>files = [''old.db'' \<mapsto> Database [''Events'' \<mapsto> True] 0 old_tables], answers = [], unlinks = [],
      tearing = (\<lambda>a b. b)\<rparr>"

lemma old_disk_ok:
  "answers old_disk = []" "unlinks old_disk = []" "files old_disk ''el.db'' = None"
  "files old_disk (temp_fname ''el.db'') = None"
  "files old_disk ''old.db'' = Some (Database [''Events'' \<mapsto> True] 0 old_tables)"
  "[''Events'' \<mapsto> True] ''Events'' \<noteq> None" "version_0 old_tables"
proof -
  show "version_0 old_tables" by code_simp
qed (simp_all add: old_disk_def temp_fname_def)

section \<open>What holds of the conversion\<close>

text \<open>
  What it means that the history survived, in terms of the two databases: the other tables are the same,
  and each event is the same but for two columns. Its direction is 1 if the name of its type ended in
  OUTBOUND after at least one character (LIKE reads the underscore of the pattern as any character, and
  ignores the case) and 0 otherwise; and if its type had a name, it now has the type of the current name.
\<close>

definition outbound_name :: "string \<Rightarrow> bool" where
  "outbound_name n \<longleftrightarrow> (\<exists>u c v. n = u @ c # v \<and> same_letters ''OUTBOUND'' v)"

definition v1_name :: "string \<Rightarrow> string" where
  "v1_name n =
     (if n = ''RTCOM_EL_EVENTTYPE_CHAT_INBOUND'' \<or> n = ''RTCOM_EL_EVENTTYPE_CHAT_OUTBOUND''
      then ''RTCOM_EL_EVENTTYPE_CHAT_MESSAGE''
      else if n = ''RTCOM_EL_EVENTTYPE_CALL_INBOUND'' \<or> n = ''RTCOM_EL_EVENTTYPE_CALL_OUTBOUND''
      then ''RTCOM_EL_EVENTTYPE_CALL''
      else if n = ''RTCOM_EL_EVENTTYPE_SMS_INBOUND'' \<or> n = ''RTCOM_EL_EVENTTYPE_SMS_OUTBOUND''
      then ''RTCOM_EL_EVENTTYPE_SMS_MESSAGE''
      else n)"

definition event_survives :: "tables \<Rightarrow> tables \<Rightarrow> event_row \<Rightarrow> event_row \<Rightarrow> bool" where
  "event_survives t t1 e e1 \<longleftrightarrow>
     e1 = e\<lparr>e_outgoing := e_outgoing e1, e_event_type_id := e_event_type_id e1\<rparr> \<and>
     e_outgoing e1 = (if \<exists>n. has_type t e n \<and> outbound_name n then 1 else 0) \<and>
     (\<forall>n. has_type t e n \<longrightarrow> has_type t1 e1 (v1_name n))"

definition history_survives :: "tables \<Rightarrow> tables \<Rightarrow> bool" where
  "history_survives t t1 \<longleftrightarrow>
     Services t1 = Services t \<and> Plugins t1 = Plugins t \<and> Attachments t1 = Attachments t \<and>
     Headers t1 = Headers t \<and> Remotes t1 = Remotes t \<and>
     list_all2 (event_survives t t1) (Events t) (Events t1)"

lemma like_outbound: "like ''%_OUTBOUND'' n \<longleftrightarrow> outbound_name n"
proof -
  have "no_wildcards ''OUTBOUND''" by (simp add: no_wildcards_def)
  then have one: "like ''_OUTBOUND'' v \<longleftrightarrow> (\<exists>c w. v = c # w \<and> same_letters ''OUTBOUND'' w)" for v
    by (cases v) (simp_all add: like.simps(2) [of "CHR ''_''"] like_plain)
  show ?thesis by (auto simp: like_any one outbound_name_def)
qed

lemma outbound_type_named: "of_outbound_type t e \<longleftrightarrow> (\<exists>n. has_type t e n \<and> outbound_name n)"
  by (force simp: of_outbound_type_def has_type_def like_outbound)

lemma converted_names: "fold converted_name v0_services n = v1_name n"
  by (simp add: v0_services_def converted_name_def inbound_def outbound_def message_def v1_name_def)

lemma history_kept_survives:
  assumes "history_kept t t1"
  shows "history_survives t t1"
proof -
  have "event_survives t t1 e e1" if "converted_event t t1 e e1" for e e1
    using that unfolding converted_event_def event_survives_def outbound_type_named converted_names by auto
  then show ?thesis
    using assms by (auto simp: history_kept_def history_survives_def same_log_def elim: list_all2_mono)
qed

lemma convert_keeps_history_rule:
  assumes "files w old_fname = Some (Database objs v t)" and "types_ok t"
    and "whole_statements (tearing w)" and "old_fname \<notin> {fname, temp_fname fname}"
    and "files w fname = None" and "no_log (files w (temp_fname fname))"
    and "rtcom_el_db_convert_from_db0 trg fname old_fname w = (success, w')"
  shows "files w' fname = None \<or> success \<and>
     (\<exists>objs' t'. files w' fname = Some (Database objs' 1 t') \<and> history_kept t t')"
  using assms
proof (induction trg fname old_fname w rule: rtcom_el_db_convert_from_db0.induct)
  case (1 trg fname old_fname w)
  obtain r w1 where a: "convert_attempt trg fname old_fname w = (r, w1)" by (rule prod.exhaust)
  note h = attempt_history [OF a "1.prems"(1-6)]
  show ?case
  proof (cases r)
    case None
    with "1.IH" [OF a [symmetric] None] h "1.prems" a show ?thesis
      by (simp add: rtcom_el_db_convert_from_db0.simps [of trg fname old_fname w])
  next
    case (Some b)
    with h "1.prems"(7) a show ?thesis
      by (simp add: rtcom_el_db_convert_from_db0.simps [of trg fname old_fname w])
  qed
qed

text \<open>C14: When the database of an old version is converted, nothing of the history is lost: if the new
  file exists afterwards, the function returned TRUE and the file is a version 1 database with the same
  contacts, headers, attachments, services and plugins, and with the same events in the same order. Of an
  event only two columns differ: \<open>outgoing\<close> is 1 exactly for the events whose type's name ended in
  _OUTBOUND (as LIKE reads it), and an event whose type was an INBOUND or OUTBOUND type of CHAT, CALL or SMS
  has the type that took the place of both. This holds whatever SQLite refuses on the way, if the old
  type ids and names are unique and fit 32 bits (\<open>types_ok\<close>), the new file is not there yet, a statement
  that fails without a journal is not left half done (\<open>whole_statements\<close>), and a temporary file left by an
  earlier run holds no table Events (\<open>no_log\<close>): with one, a copy that was skipped because the old
  database stayed locked goes unnoticed, and the file that was left is converted in its place.\<close>

theorem convert_keeps_history:
  assumes "files w old_fname = Some (Database objs v t)" and "types_ok t"
    and "whole_statements (tearing w)" and "old_fname \<notin> {fname, temp_fname fname}"
    and "files w fname = None" and "no_log (files w (temp_fname fname))"
    and "rtcom_el_db_convert_from_db0 trg fname old_fname w = (success, w')"
  shows "files w' fname = None \<or> success \<and>
     (\<exists>objs' t'. files w' fname = Some (Database objs' 1 t') \<and> history_survives t t')"
proof -
  have "files w' fname = None \<or> success \<and>
     (\<exists>objs' t'. files w' fname = Some (Database objs' 1 t') \<and> history_kept t t')"
    using assms by (rule convert_keeps_history_rule)
  with history_kept_survives show ?thesis by blast
qed
text \<open>C16: Whatever fails, and however often the conversion has to start again, it touches no file but the
  new one and its temporary copy (the name with .temp), so that the old database stays as it is. A new file that exists
  already is never changed; one that did not exist appears only if the function returns TRUE, and then its
  user version is 1, which the last statement of the conversion sets. (Whether the old database was copied is
  another question: see the property before.)\<close>

theorem convert_all_or_nothing:
  assumes "rtcom_el_db_convert_from_db0 trg fname old_fname w = (success, w')"
  shows "(\<forall>f. f \<notin> {fname, temp_fname fname} \<longrightarrow> files w' f = files w f) \<and>
     (files w' fname = files w fname \<or>
      success \<and> files w fname = None \<and> (\<exists>objs t. files w' fname = Some (Database objs 1 t)))"
  using assms
proof (induction trg fname old_fname w rule: rtcom_el_db_convert_from_db0.induct)
  case (1 trg fname old_fname w)
  obtain r w1 where a: "convert_attempt trg fname old_fname w = (r, w1)" by (rule prod.exhaust)
  then have h: "(\<forall>f. f \<notin> {fname, temp_fname fname} \<longrightarrow> files w1 f = files w f) \<and>
      (files w1 fname = files w fname \<or>
       r = Some True \<and> files w fname = None \<and> (\<exists>objs t. files w1 fname = Some (Database objs 1 t)))"
  proof (cases rule: attempt_cases)
    case (converted od c ok1 rows e1 c1 e c2 c3 c4)
    with converted_conn [OF converted(8)] show ?thesis by auto
  qed auto
  show ?case
  proof (cases r)
    case None
    with "1.IH" [OF a [symmetric] None] h "1.prems" a show ?thesis
      by (auto simp: rtcom_el_db_convert_from_db0.simps [of trg fname old_fname w])
  next
    case (Some b)
    with h "1.prems" a show ?thesis
      by (simp add: rtcom_el_db_convert_from_db0.simps [of trg fname old_fname w])
  qed
qed

theorem convert_keeps_history_witness:
  "\<exists>w' objs t'. rtcom_el_db_convert_from_db0 (\<lambda>_ _ gc. gc) ''el.db'' ''old.db'' old_disk = (True, w') \<and>
     files w' ''el.db'' = Some (Database objs 1 t') \<and> history_survives old_tables t'"
proof -
  let ?run = "rtcom_el_db_convert_from_db0 (\<lambda>_ _ gc. gc) ''el.db'' ''old.db'' old_disk"
  from convert_calm [OF old_disk_ok(1,3-7), of "\<lambda>_ _ gc. gc"] obtain c where
    run: "?run = (True, snd (g_rename (temp_fname ''el.db'') ''el.db'' (sync (temp_fname ''el.db'') c old_disk)))"
    by blast
  let ?w = "snd (g_rename (temp_fname ''el.db'') ''el.db'' (sync (temp_fname ''el.db'') c old_disk))"
  have there: "files ?w ''el.db'' \<noteq> None" using old_disk_ok(2) by (simp add: g_rename_def sync_def)
  have d: "whole_statements (tearing old_disk)" "''old.db'' \<notin> {''el.db'', temp_fname ''el.db''}"
    "no_log (files old_disk (temp_fname ''el.db''))"
    by (auto simp: old_disk_def whole_statements_def temp_fname_def no_log_def)
  have "types_ok old_tables" using old_disk_ok(7) by (simp add: version_0_def unconverted_def)
  from convert_keeps_history [OF old_disk_ok(5) this d(1,2) old_disk_ok(3) d(3) run] there run
  show ?thesis by auto
qed

theorem convert_all_or_nothing_witness:
  "\<exists>success w'. rtcom_el_db_convert_from_db0 (\<lambda>_ _ gc. gc) ''el.db'' ''old.db''
       (old_disk\<lparr>answers := [Go, Go, Go, Refuse SQLITE_FULL 0 False]\<rparr>) = (success, w') \<and>
     files w' ''old.db'' = Some (Database [''Events'' \<mapsto> True] 0 old_tables)"
proof -
  let ?w = "old_disk\<lparr>answers := [Go, Go, Go, Refuse SQLITE_FULL 0 False]\<rparr>"
  obtain success w' where run: "rtcom_el_db_convert_from_db0 (\<lambda>_ _ gc. gc) ''el.db'' ''old.db'' ?w = (success, w')"
    by (rule prod.exhaust)
  have "''old.db'' \<notin> {''el.db'', temp_fname ''el.db''}" by (simp add: temp_fname_def)
  with convert_all_or_nothing [OF run] run old_disk_ok(5) show ?thesis by simp
qed

text \<open>A version 0 database is converted when nothing stands in the way: SQLite refuses nothing, not even
  \<open>sqlite3_backup_init\<close> on a destination whose transaction is open, which its documentation says is an error
  (db.c opens the transaction just before, so that this holds for versions that let it pass); the new file and its
  temporary copy do not exist; the old file has a table Events and the types the conversion looks for; and the
  rename works. Then the function returns TRUE, the new file is a version 1 database, and the temporary
  file is gone.\<close>

theorem convert_succeeds:
  assumes "answers w = []" and "unlinks w = []" and "files w fname = None"
    and "files w (temp_fname fname) = None"
    and "files w old_fname = Some (Database objs 0 t)" and "objs ''Events'' \<noteq> None" and "version_0 t"
  shows "\<exists>w' objs' t'. rtcom_el_db_convert_from_db0 trg fname old_fname w = (True, w') \<and>
     files w' fname = Some (Database objs' 1 t') \<and> files w' (temp_fname fname) = None"
proof -
  from convert_calm [OF assms(1,3-7)] obtain c objs' t' where "on_disk c = Database objs' 1 t'"
    "rtcom_el_db_convert_from_db0 trg fname old_fname w =
       (True, snd (g_rename (temp_fname fname) fname (sync (temp_fname fname) c w)))" by blast
  with assms(2) show ?thesis by (simp add: g_rename_def sync_def)
qed

text \<open>That the copy could not be renamed goes unnoticed: the function returns TRUE although there is no
  new file, \<open>rtcom_el_db_open\<close> then creates an empty database under its name, and from then on the
  function sees that file and never tries the conversion again.\<close>

theorem convert_rename_unchecked:
  assumes "answers w = []" and "unlinks w = [False]" and "files w fname = None"
    and "files w (temp_fname fname) = None"
    and "files w old_fname = Some (Database objs 0 t)" and "objs ''Events'' \<noteq> None" and "version_0 t"
  shows "\<exists>w1 c w2. rtcom_el_db_convert_from_db0 trg fname old_fname w = (True, w1) \<and>
     files w1 fname = None \<and> rtcom_el_db_open fname w1 = (Some c, w2) \<and> tb c = empty_tables \<and>
     rtcom_el_db_convert_from_db0 trg fname old_fname w2 = (True, w2)"
proof -
  from convert_calm [OF assms(1,3-7)] obtain c where c: "script c = []"
    "rtcom_el_db_convert_from_db0 trg fname old_fname w =
       (True, snd (g_rename (temp_fname fname) fname (sync (temp_fname fname) c w)))" by blast
  let ?w1 = "snd (g_rename (temp_fname fname) fname (sync (temp_fname fname) c w))"
  have w1: "files ?w1 fname = None" "answers ?w1 = []"
    using assms(2,3) c(1) by (simp_all add: g_rename_def sync_def)
  let ?c = "new_conn ?w1 Map.empty 0 empty_tables False"
  have k: "keeps empty_tables ?c" "txn ?c = None" "script ?c = []"
    using w1(2) by (simp_all add: keeps_def new_conn_def)
  from check_and_create_calm [OF k] obtain d where d: "check_and_create ?c = Ready d" by blast
  with check_and_create_outcome [OF k(1,2)] have "tb d = empty_tables" by (simp add: outcome_def keeps_def)
  moreover have "rtcom_el_db_open fname ?w1 = (Some d, sync fname d ?w1)"
    using d w1 by (simp add: rtcom_el_db_open_def internal_open_def open_with_def sqlite3_open_def)
  moreover have "rtcom_el_db_convert_from_db0 trg fname old_fname w2 = (True, w2)"
    if "files w2 fname \<noteq> None" for w2
    using that by (simp add: rtcom_el_db_convert_from_db0.simps [of trg fname old_fname w2] convert_attempt_def)
  ultimately show ?thesis using c(2) w1(1) by (intro exI [of _ ?w1] exI [of _ d] exI [of _ "sync fname d ?w1"]) (simp add: sync_def)
qed

theorem convert_succeeds_witness:
  "\<exists>w' objs t'. rtcom_el_db_convert_from_db0 (\<lambda>_ _ gc. gc) ''el.db'' ''old.db'' old_disk = (True, w') \<and>
     files w' ''el.db'' = Some (Database objs 1 t')"
  using convert_succeeds [OF old_disk_ok, of "\<lambda>_ _ gc. gc"] by blast

theorem convert_rename_unchecked_witness:
  "\<exists>w1 c w2. rtcom_el_db_convert_from_db0 (\<lambda>_ _ gc. gc) ''el.db'' ''old.db''
       (old_disk\<lparr>unlinks := [False]\<rparr>) = (True, w1) \<and>
     rtcom_el_db_open ''el.db'' w1 = (Some c, w2) \<and> tb c = empty_tables"
proof -
  let ?w = "old_disk\<lparr>unlinks := [False]\<rparr>"
  have "answers ?w = []" "unlinks ?w = [False]" "files ?w ''el.db'' = None"
    "files ?w (temp_fname ''el.db'') = None"
    "files ?w ''old.db'' = Some (Database [''Events'' \<mapsto> True] 0 old_tables)" using old_disk_ok by simp_all
  from convert_rename_unchecked [OF this old_disk_ok(6,7), of "\<lambda>_ _ gc. gc"] show ?thesis by blast
qed

end
