(* ===== verification/El_Upgrade.thy ===== *)
theory El_Upgrade
  imports El_Convert_Props El_Files El_Plugin
begin

text \<open>
  What \<open>_ensure_db\<close> does before it has a connection: the names of the files, the conversion of the old
  database, the opening of the new one.
\<close>

section \<open>One attempt to open the database\<close>

definition config_dir :: "string \<Rightarrow> string" where
  "config_dir dir = build_filename dir ''.rtcom-eventlogger''"

definition sqlite_database :: "string \<Rightarrow> string" where
  "sqlite_database dir = build_filename (config_dir dir) ''el-v1.db''"

definition old_sqlite_database :: "string \<Rightarrow> string" where
  "old_sqlite_database dir = build_filename (config_dir dir) ''el.db''"

text \<open>
  \<open>dir_ok\<close>: the configuration directory exists or could be made. The result is what \<open>ensure_db\<close> goes on
  with.
\<close>

definition open_database :: "old_trigger \<Rightarrow> string \<Rightarrow> bool \<Rightarrow> disk \<Rightarrow> open_attempt \<times> disk" where
  "open_database trg dir dir_ok w =
     (if \<not> dir_ok then (\<lparr>op_dir = False, op_converted = False, op_opened = None\<rparr>, w)
      else case rtcom_el_db_convert_from_db0 trg (sqlite_database dir) (old_sqlite_database dir) w of
             (converted, w1) \<Rightarrow>
               if \<not> converted then (\<lparr>op_dir = True, op_converted = False, op_opened = None\<rparr>, w1)
               else case rtcom_el_db_open (sqlite_database dir) w1 of
                      (c, w2) \<Rightarrow>
                        (\<lparr>op_dir = True, op_converted = True,
                          op_opened = map_option (\<lambda>c. (tb c, txn c)) c\<rparr>, w2))"

section \<open>Answers are used up\<close>

definition uses_up :: "'x step \<Rightarrow> bool" where
  "uses_up m \<longleftrightarrow> (\<forall>c. set (script (snd (m c))) \<subseteq> set (script c))"

lemma uses_up_simps [simp]:
  "uses_up (Pair x)" "uses_up (require b)" "uses_up m \<Longrightarrow> uses_up (ignore m)"
  by (simp_all add: uses_up_def require_def ignore_def)

lemma uses_up_andthen [intro]:
  assumes "uses_up m" and "\<And>x. uses_up (f x)"
  shows "uses_up (andthen m f)"
  unfolding uses_up_def
proof
  fix c
  obtain r c1 where m: "m c = (r, c1)" by (rule prod.exhaust)
  then show "set (script (snd (andthen m f c))) \<subseteq> set (script c)"
    using assms(1) assms(2) unfolding uses_up_def andthen_def
    by (cases r) (simp; metis snd_conv subset_trans)+
qed

lemma exec_sql_rest: "exec_sql q c = (ok, rows, e, c1) \<Longrightarrow> set (script c1) \<subseteq> set (script c)"
  by (auto simp: exec_sql_def rolled_back_def split: if_splits prod.splits dest!: exec_rest)

lemma uses_up_runsql [simp]: "uses_up (runsql q)"
  using exec_sql_rest by (fastforce simp: uses_up_def runsql_def split: prod.splits)

lemma uses_up_runschema [simp]: "uses_up (runschema s)"
proof -
  have "script (schema_effect s c) = script c" for c by (cases s) simp_all
  then show ?thesis
    using exec_sql_rest [of nothing] by (fastforce simp: uses_up_def runschema_def exec_schema_def split: prod.splits)
qed

lemma uses_up_all: "(\<And>m. m \<in> set ms \<Longrightarrow> uses_up m) \<Longrightarrow> uses_up (all_steps ms)"
  by (induction ms) auto

lemma uses_up_alter [simp]: "uses_up (alter_events f)"
proof -
  have "uses_up (andthen (runsql (Stmt g :: unit sql)) (\<lambda>_. Pair (Some ())))" for g
    by auto
  then show ?thesis by (simp add: uses_up_def alter_events_def)
qed

lemma uses_up_conversion: "uses_up (conversion trg)"
  unfolding conversion_def convert_service_def add_eventtype_def add_flag_def Let_def
  by (intro uses_up_andthen uses_up_all) (auto simp: Let_def intro!: uses_up_andthen)

lemma commit_conn_rest: "commit_conn c = (ok, e, c1) \<Longrightarrow> set (script c1) \<subseteq> set (script c)"
  by (auto simp: commit_conn_def rtcom_el_db_commit_def rolled_back_def split: if_splits prod.splits dest!: exec_rest)

lemma internal_convert_rest:
  assumes "internal_convert_v0 trg c = (True, c1)"
  shows "set (script c1) \<subseteq> set (script c)"
proof -
  from assms obtain x c0 e where "conversion trg c = (Some x, c0)" and "commit_conn c0 = (True, e, c1)"
    by (auto simp: internal_convert_v0_def andthen_def split: prod.splits option.splits if_splits)
  with commit_conn_rest uses_up_conversion [of trg] show ?thesis
    unfolding uses_up_def by (metis snd_conv subset_trans)
qed

lemma backup_rest:
  assumes "backup old c = (True, c1)"
  shows "set (script c1) \<subseteq> set (script c)"
proof -
  have "set (snd (snd (backup_steps n as))) \<subseteq> set as" for n as
    by (induction n as rule: backup_steps.induct) (auto split: list.splits answer.splits)
  from this [of 100 "tl (script c)"] assms show ?thesis
    by (cases "script c") (auto simp: backup_def split: answer.splits if_splits prod.splits bool.splits)
qed

lemma tl_subset: "set (tl xs) \<subseteq> set xs"
  by (cases xs) auto

lemma attempt_rest:
  assumes "convert_attempt trg fname old_fname w = (Some True, w')"
  shows "set (answers w') \<subseteq> set (answers w)"
proof -
  have ren: "answers (snd (g_rename a b d)) = answers d" for a b d
    by (auto simp: g_rename_def split: list.splits bool.splits option.splits)
  let ?w1 = "w\<lparr>answers := tl (answers w)\<rparr>"
  from assms consider "w' = w" | "w' = ?w1"
    | c ok rows e1 c1 e c2 old c3 c4 where "sqlite3_open (temp_fname fname) ?w1 = Inr c"
      "exec_sql (PRAGMA_JOURNAL JM_OFF :: unit sql) c = (ok, rows, e1, c1)"
      "begin_exclusive c1 = (True, e, c2)" "backup old c2 = (True, c3)"
      "internal_convert_v0 trg c3 = (True, c4)" "answers w' = script c4"
    by (auto simp: convert_attempt_def Let_def ren sync_def split: if_splits sum.splits prod.splits bool.splits)
  then show ?thesis
  proof cases
    case 3
    have "set (script c2) \<subseteq> set (script c1)"
      using 3(3) by (auto simp: begin_exclusive_def rtcom_el_db_transaction_def split: if_splits prod.splits
          dest!: exec_rest)
    moreover have "set (script c) \<subseteq> set (answers w)"
      using opened_conn [OF 3(1)] tl_subset [of "answers w"] tl_subset [of "tl (answers w)"] by auto
    ultimately show ?thesis
      using exec_sql_rest [OF 3(2)] backup_rest [OF 3(4)] internal_convert_rest [OF 3(5)] 3(6) by auto
  qed (use tl_subset [of "answers w"] in auto)
qed

section \<open>The first start after an upgrade\<close>

lemma database_names:
  "old_sqlite_database dir \<noteq> sqlite_database dir"
  "old_sqlite_database dir \<noteq> temp_fname (sqlite_database dir)"
  by (simp_all add: old_sqlite_database_def sqlite_database_def temp_fname_def build_filename_def)

lemma not_unusable:
  assumes "temp_unusable e"
  shows "e = RTCOM_EL_DATABASE_CORRUPTED"
  using assms by (cases e) (simp_all add: temp_unusable_def)

lemma no_retry:
  assumes "uncorrupted (answers w)" and "files w (temp_fname fname) \<noteq> Some NotADatabase"
  shows "convert_attempt trg fname old_fname w \<noteq> (None, w')"
proof
  let ?w1 = "w\<lparr>answers := tl (answers w)\<rparr>"
  assume "convert_attempt trg fname old_fname w = (None, w')"
  then obtain c ok rows e1 c1 e c2 where o: "sqlite3_open (temp_fname fname) ?w1 = Inr c"
    and p: "exec_sql (PRAGMA_JOURNAL JM_OFF :: unit sql) c = (ok, rows, e1, c1)"
    and b: "begin_exclusive c1 = (False, e, c2)" and e: "e \<noteq> None" "temp_unusable (the e)"
    by (auto simp: convert_attempt_def Let_def split: if_splits sum.splits prod.splits bool.splits)
  from opened_conn [OF o] assms(2) have c: "txn c = None" "\<not> damaged c" "set (script c) \<subseteq> set (answers w)"
    using tl_subset [of "answers w"] tl_subset [of "tl (answers w)"] by auto
  from pragma_length [OF p c(1)] c(2) exec_sql_rest [OF p] c(3) have c1: "txn c1 = None" "\<not> damaged c1"
    "set (script c1) \<subseteq> set (answers w)" by auto
  from b c1(1,2) obtain rows2 where ex: "rtcom_el_db_exec (BEGIN_EXCLUSIVE :: unit sql) c1 = (False, rows2, e, c2)"
    by (auto simp: begin_exclusive_def rtcom_el_db_transaction_def split: prod.splits if_splits)
  have "effect (BEGIN_EXCLUSIVE :: unit sql) c1 = Inr ([], c1\<lparr>txn := Some (tb c1)\<rparr>)" using c1(1) by simp
  from exec_error_kind [OF ex this] uncorrupted_subset [OF c1(3) assms(1)] e not_unusable show False by auto
qed

lemma converted_there:
  assumes run: "convert_attempt trg fname old_fname w = (Some True, w')" and "unlinks w = []"
    and "files w old_fname \<noteq> None" and "\<And>c. sqlite3_open old_fname w \<noteq> Inl c"
  shows "files w' fname \<noteq> None"
  using run
proof (cases rule: attempt_cases)
  case (idle b)
  with assms(3,4) show ?thesis by auto
next
  case (converted old c ok1 rows e1 c1 e c2 c3 c4)
  from converted(11) assms(2) show ?thesis by (simp add: g_rename_def sync_def)
qed auto

text \<open>C15: After an upgrade of the library, if the first attempt to open the database ends with an open one,
  it holds the converted history of the old database (the other tables unchanged, the events with
  their direction and type moved), whatever else SQLite refuses. This needs that the old file can be
  opened, that SQLite reports no corrupted file, that no new or temporary file is there, that the old
  type ids and names are unique and fit 32 bits, that failing statements are not left half done, and
  that \<open>g_unlink\<close> and \<open>g_rename\<close> work: after a rename that failed the log is empty
  (\<open>convert_rename_unchecked\<close>). A SQLite that refuses to copy into an open transaction does not get
  as far as an open database (\<open>upgrade_refused_copy\<close>).\<close>

theorem upgrade_keeps_history:
  assumes "files w (old_sqlite_database dir) = Some (Database objs v t)" and "types_ok t"
    and "whole_statements (tearing w)" and "unlinks w = []" and "uncorrupted (answers w)"
    and "files w (sqlite_database dir) = None" and "files w (temp_fname (sqlite_database dir)) = None"
    and "\<And>c. sqlite3_open (old_sqlite_database dir) w \<noteq> Inl c"
    and "open_database trg dir dir_ok w = (a, w')" and "op_opened a = Some (t', sv)"
  shows "history_survives t t'"
proof -
  let ?fn = "sqlite_database dir" and ?old = "old_sqlite_database dir"
  from assms(9,10) obtain w1 c where cv: "rtcom_el_db_convert_from_db0 trg ?fn ?old w = (True, w1)"
    and op: "rtcom_el_db_open ?fn w1 = (Some c, w')" and t': "t' = tb c"
    by (auto simp: open_database_def split: if_splits prod.splits)
  obtain r w0 where at: "convert_attempt trg ?fn ?old w = (r, w0)" by (rule prod.exhaust)
  with no_retry [OF assms(5), of ?fn] assms(7) obtain b where r: "r = Some b" by (cases r) auto
  with cv at have at1: "convert_attempt trg ?fn ?old w = (Some True, w1)"
    by (simp add: rtcom_el_db_convert_from_db0.simps [of trg ?fn ?old w])
  have names: "?old \<notin> {?fn, temp_fname ?fn}" using database_names by simp
  have "no_log (files w (temp_fname ?fn))" using assms(7) by (simp add: no_log_def)
  from attempt_history [OF at1 assms(1,2,3) names assms(6) this] converted_there [OF at1 assms(4) _ assms(8)]
    assms(1) obtain objs' t1 where there: "files w1 ?fn = Some (Database objs' 1 t1)" "history_kept t t1"
    by auto
  from uncorrupted_subset [OF attempt_rest [OF at1] assms(5)] open_kept [OF there(1) _ op] history_kept_survives [OF there(2)] t'
  show ?thesis by simp
qed

text \<open>A home directory with an old database in it.\<close>

definition upgraded_disk :: disk where
  "upgraded_disk =
     old_disk\<lparr>files := [old_sqlite_database ''/home'' \<mapsto> Database [''Events'' \<mapsto> True] 0 old_tables]\<rparr>"

theorem upgrade_keeps_history_witness:
  "\<exists>a w' t' sv. open_database (\<lambda>_ _ gc. gc) ''/home'' True upgraded_disk = (a, w') \<and>
     op_opened a = Some (t', sv) \<and> history_survives old_tables t'"
proof -
  let ?w = upgraded_disk and ?fn = "sqlite_database ''/home''" and ?old = "old_sqlite_database ''/home''"
  have w: "answers ?w = []" "unlinks ?w = []" "files ?w ?fn = None" "files ?w (temp_fname ?fn) = None"
    "files ?w ?old = Some (Database [''Events'' \<mapsto> True] 0 old_tables)" "whole_statements (tearing ?w)"
    "uncorrupted (answers ?w)" "\<And>c. sqlite3_open ?old ?w \<noteq> Inl c"
    using database_names [of "''/home''"]
    by (auto simp: upgraded_disk_def old_disk_def whole_statements_def uncorrupted_def sqlite3_open_def)
  from convert_calm [OF w(1,3-5) old_disk_ok(6,7), of "\<lambda>_ _ gc. gc"] obtain c objs' t' where c:
    "script c = []" "on_disk c = Database objs' 1 t'" "rtcom_el_db_convert_from_db0 (\<lambda>_ _ gc. gc) ?fn ?old ?w =
       (True, snd (g_rename (temp_fname ?fn) ?fn (sync (temp_fname ?fn) c ?w)))" by blast
  let ?w1 = "snd (g_rename (temp_fname ?fn) ?fn (sync (temp_fname ?fn) c ?w))"
  have w1: "files ?w1 ?fn = Some (Database objs' 1 t')" "answers ?w1 = []"
    using w(2) c(1,2) by (simp_all add: g_rename_def sync_def)
  let ?c = "new_conn ?w1 objs' 1 t' False"
  have k: "keeps t' ?c" "txn ?c = None" "script ?c = []" using w1(2) by (simp_all add: keeps_def new_conn_def)
  from check_and_create_calm [OF k] obtain d where "check_and_create ?c = Ready d" by blast
  with w1 have "rtcom_el_db_open ?fn ?w1 = (Some d, sync ?fn d ?w1)"
    by (simp add: rtcom_el_db_open_def internal_open_def open_with_def sqlite3_open_def)
  with c(3) obtain a w' where o: "open_database (\<lambda>_ _ gc. gc) ''/home'' True ?w = (a, w')"
    "op_opened a = Some (tb d, txn d)" by (simp add: open_database_def)
  have "types_ok old_tables" using old_disk_ok(7) by (simp add: version_0_def unconverted_def)
  from upgrade_keeps_history [OF w(5) this w(6,2,7,3,4,8) o] o show ?thesis by blast
qed

section \<open>The copy that SQLite refuses\<close>

text \<open>C31: \<open>sqlite3_backup_init\<close> is documented to fail when the destination has an open transaction, and
  \<open>rtcom_el_db_convert_from_db0\<close> opens one just before. When SQLite accepts every call up to there and refuses that
  one, for whatever reason, and files can be deleted, then opening the database fails: nothing is converted, no database
  is opened, the temporary file is gone again, and the old database and every other file are as they were. As
  this is the state of before, every later start with the same answers fails in the same way: the history is
  safe, but no log can be opened.\<close>

theorem upgrade_refused_copy:
  assumes "answers w = [Go, Go, Go, Go, Go, Go, Refuse c t rb] @ as" and "unlinks w = []"
    and "files w (old_sqlite_database dir) = Some (Database objs v ts)"
    and "files w (sqlite_database dir) = None" and "files w (temp_fname (sqlite_database dir)) = None"
  shows "open_database trg dir True w =
     (\<lparr>op_dir = True, op_converted = False, op_opened = None\<rparr>, w\<lparr>answers := as\<rparr>)"
proof -
  let ?fn = "sqlite_database dir" and ?old = "old_sqlite_database dir"
  have same: "(files w)(temp_fname ?fn := None) = files w" using assms(5) by (simp add: fun_upd_idem)
  have "convert_attempt trg ?fn ?old w = (Some False, w\<lparr>answers := as\<rparr>)"
    using assms(1-5) same
    by (simp add: convert_attempt_def sqlite3_open_def new_conn_def exec_sql_def begin_exclusive_def
        rtcom_el_db_transaction_def rtcom_el_db_exec_def backup_def sync_def g_unlink_def Let_def)
  then have "rtcom_el_db_convert_from_db0 trg ?fn ?old w = (False, w\<lparr>answers := as\<rparr>)"
    by (simp add: rtcom_el_db_convert_from_db0.simps [of trg ?fn ?old w])
  then show ?thesis by (simp add: open_database_def)
qed

theorem upgrade_refused_copy_witness:
  "\<exists>a w'. open_database (\<lambda>_ _ gc. gc) ''/home'' True
       (upgraded_disk\<lparr>answers := [Go, Go, Go, Go, Go, Go, Refuse SQLITE_ERROR 0 False]\<rparr>) = (a, w') \<and>
     op_opened a = None \<and>
     files w' (old_sqlite_database ''/home'') = Some (Database [''Events'' \<mapsto> True] 0 old_tables)"
proof -
  let ?w = "upgraded_disk\<lparr>answers := [Go, Go, Go, Go, Go, Go, Refuse SQLITE_ERROR 0 False]\<rparr>"
  have w: "answers ?w = [Go, Go, Go, Go, Go, Go, Refuse SQLITE_ERROR 0 False] @ []" "unlinks ?w = []"
    "files ?w (old_sqlite_database ''/home'') = Some (Database [''Events'' \<mapsto> True] 0 old_tables)"
    "files ?w (sqlite_database ''/home'') = None" "files ?w (temp_fname (sqlite_database ''/home'')) = None"
    using database_names [of "''/home''"] by (simp_all add: upgraded_disk_def old_disk_def)
  from upgrade_refused_copy [OF w] w(3) show ?thesis by simp
qed

end
