(* ===== verification/El_Order.thy ===== *)
theory El_Order
  imports El_Query_Use
begin

text \<open>
  The order of SQLite's values and of a query's rows: what the comparisons of a WHERE clause mean, the newest row of
  each group, and the pages that limit and offset cut.
\<close>

section \<open>The order of values\<close>

text \<open>NULL comes before the numbers, and the numbers before the texts.\<close>

instantiation sqlval :: linorder
begin

fun less_sqlval :: "sqlval \<Rightarrow> sqlval \<Rightarrow> bool" where
  "less_sqlval NullVal v = (v \<noteq> NullVal)"
| "less_sqlval (IntVal i) (IntVal k) = (i < k)"
| "less_sqlval (IntVal i) v = (case v of TextVal t \<Rightarrow> True | _ \<Rightarrow> False)"
| "less_sqlval (TextVal s) v = (case v of TextVal t \<Rightarrow> text_less s t | _ \<Rightarrow> False)"

definition less_eq_sqlval :: "sqlval \<Rightarrow> sqlval \<Rightarrow> bool" where
  "less_eq_sqlval v w \<longleftrightarrow> v < w \<or> v = w"

instance
proof
  have irrefl: "\<not> v < v" for v :: sqlval by (cases v) auto
  have trans: "v < w \<Longrightarrow> w < u \<Longrightarrow> v < u" for v w u :: sqlval
    by (cases v; cases w; cases u) (auto intro: text_less_trans)
  have linear: "v < w \<or> v = w \<or> w < v" for v w :: sqlval
    using text_less_linear by (cases v; cases w) auto
  fix v w u :: sqlval
  show "v < w \<longleftrightarrow> v \<le> w \<and> \<not> w \<le> v" using irrefl trans by (auto simp: less_eq_sqlval_def)
  show "v \<le> v" by (simp add: less_eq_sqlval_def)
  show "v \<le> w \<Longrightarrow> w \<le> u \<Longrightarrow> v \<le> u" using trans by (auto simp: less_eq_sqlval_def)
  show "v \<le> w \<Longrightarrow> w \<le> v \<Longrightarrow> v = w"
    using trans [of v w v] irrefl [of v] by (auto simp: less_eq_sqlval_def)
  show "v \<le> w \<or> w \<le> v" using linear by (auto simp: less_eq_sqlval_def)
qed

end

section \<open>Conditions\<close>

text \<open>Both kinds of comparison are one comparison of values of the same kind.\<close>

fun comparable :: "sqlval \<Rightarrow> sqlval \<Rightarrow> bool" where
  "comparable (IntVal i) (IntVal k) = True"
| "comparable (TextVal s) (TextVal t) = True"
| "comparable _ _ = False"

lemma cond_on_values:
  "cond_holds (IntCond c op n) j \<longleftrightarrow> comparable (column_value c j) (IntVal n) \<and>
     compare_op op (column_value c j < IntVal n) (column_value c j = IntVal n)"
  "cond_holds (TextCond c op (Some s)) j \<longleftrightarrow> comparable (column_value c j) (TextVal s) \<and>
     compare_op op (column_value c j < TextVal s) (column_value c j = TextVal s)"
  by (cases "column_value c j"; simp)+

lemma compare_op_order:
  fixes v w :: sqlval
  shows "compare_op RTCOM_EL_OP_LESS (v < w) (v = w) \<longleftrightarrow> v < w"
    "compare_op RTCOM_EL_OP_LESS_EQUAL (v < w) (v = w) \<longleftrightarrow> v \<le> w"
    "compare_op RTCOM_EL_OP_GREATER (v < w) (v = w) \<longleftrightarrow> w < v"
    "compare_op RTCOM_EL_OP_GREATER_EQUAL (v < w) (v = w) \<longleftrightarrow> w \<le> v"
    "compare_op RTCOM_EL_OP_EQUAL (v < w) (v = w) \<longleftrightarrow> v = w"
    "compare_op RTCOM_EL_OP_NOT_EQUAL (v < w) (v = w) \<longleftrightarrow> v \<noteq> w"
  by auto

section \<open>Groups\<close>

lemma newest_row_newest:
  "newest_row m js \<in> set (m # js) \<and>
   (\<forall>j \<in> set (m # js). e_id (jn_event j) \<le> e_id (jn_event (newest_row m js)))"
proof (induction m js rule: newest_row.induct)
  case (2 m j js)
  then show ?case by (cases "e_id (jn_event m) < e_id (jn_event j)") auto
qed simp

lemma newest_of_group:
  assumes "k \<in> key ` set js"
  defines "g \<equiv> filter (\<lambda>j. key j = k) js"
  defines "r \<equiv> newest_row (hd g) (tl g)"
  shows "r \<in> set js \<and> key r = k \<and> (\<forall>j \<in> set js. key j = k \<longrightarrow> e_id (jn_event j) \<le> e_id (jn_event r))"
proof -
  from assms(1) have "g \<noteq> []" by (auto simp: g_def filter_empty_conv)
  then have "hd g # tl g = g" by simp
  with newest_row_newest [of "hd g" "tl g"] have "r \<in> set g" "\<forall>j \<in> set g. e_id (jn_event j) \<le> e_id (jn_event r)"
    by (simp_all add: r_def)
  then show ?thesis by (auto simp: g_def)
qed

lemma group_rows_keys: "map key (group_rows key js) = remdups (map key js)"
proof -
  have "key (let g = filter (\<lambda>j. key j = k) js in newest_row (hd g) (tl g)) = k"
    if "k \<in> set (remdups (map key js))" for k
    using newest_of_group [of k key js] that by (auto simp: Let_def)
  then show ?thesis by (auto simp: group_rows_def intro!: map_idI)
qed

lemma group_rows_newest:
  assumes "r \<in> set (group_rows key js)"
  shows "r \<in> set js \<and> (\<forall>j \<in> set js. key j = key r \<longrightarrow> e_id (jn_event j) \<le> e_id (jn_event r))"
proof -
  from assms obtain k where "k \<in> key ` set js"
    "r = (let g = filter (\<lambda>j. key j = k) js in newest_row (hd g) (tl g))"
    by (auto simp: group_rows_def)
  with newest_of_group [of k key js] show ?thesis by (auto simp: Let_def)
qed

text \<open>A way to group rows: the value of \<open>group-by\<close> and the key SQLite groups by.\<close>

locale row_grouping =
  fixes mode :: RTComElQueryGroupBy and key :: "joined_row \<Rightarrow> 'k"
  assumes grouped: "sel_group_by s = mode \<Longrightarrow> query_rows holds s =
    map_option (\<lambda>P t. limit_rows (sel_limit s) (sel_offset s) (order_rows (group_rows key (filter P (joined t)))))
      (case sel_where s of None \<Rightarrow> Some (\<lambda>j. True) | Some w \<Rightarrow> holds w)"
begin

lemma newest_per_key:
  assumes "holds w = Some P"
  shows "\<exists>f. query_rows holds \<lparr>sel_group_by = mode, sel_where = Some w, sel_limit = - 1, sel_offset = 0\<rparr> = Some f \<and>
     distinct (map key (f t)) \<and> key ` set (f t) = key ` {j \<in> set (joined t). P j} \<and>
     (\<forall>r \<in> set (f t). r \<in> set (joined t) \<and> P r \<and>
        (\<forall>j \<in> set (joined t). P j \<and> key j = key r \<longrightarrow> e_id (jn_event j) \<le> e_id (jn_event r))) \<and>
     sorted_wrt (\<ge>) (map (\<lambda>j. e_id (jn_event j)) (f t))"
proof -
  define js where "js = (\<lambda>t. group_rows key (filter P (joined t)))"
  define f where "f t = order_rows (js t)" for t
  have q: "query_rows holds \<lparr>sel_group_by = mode, sel_where = Some w, sel_limit = - 1, sel_offset = 0\<rparr> = Some f"
    using assms by (simp add: grouped limit_rows_def f_def [abs_def] js_def)
  have "mset (map key (f t)) = mset (map key (js t))" by (simp add: f_def order_rows_def)
  also have "\<dots> = mset (remdups (map key (filter P (joined t))))" by (simp add: js_def group_rows_keys)
  finally have d: "distinct (map key (f t))" by (metis distinct_remdups mset_eq_imp_distinct_iff)
  have "set (map key (js t)) = set (map key (filter P (joined t)))" by (simp only: js_def group_rows_keys set_remdups)
  then have k: "key ` set (f t) = key ` {j \<in> set (joined t). P j}" by (simp add: f_def)
  have m: "\<forall>r \<in> set (f t). r \<in> set (joined t) \<and> P r \<and>
      (\<forall>j \<in> set (joined t). P j \<and> key j = key r \<longrightarrow> e_id (jn_event j) \<le> e_id (jn_event r))"
  proof
    fix r assume "r \<in> set (f t)"
    then have "r \<in> set (group_rows key (filter P (joined t)))" by (simp add: f_def js_def)
    from group_rows_newest [OF this] show "r \<in> set (joined t) \<and> P r \<and>
        (\<forall>j \<in> set (joined t). P j \<and> key j = key r \<longrightarrow> e_id (jn_event j) \<le> e_id (jn_event r))" by simp
  qed
  have o: "sorted_wrt (\<ge>) (map (\<lambda>j. e_id (jn_event j)) (f t))" unfolding f_def by (rule order_rows_sorted)
  show ?thesis by (intro exI [of _ f] conjI q d k m o)
qed

end

interpretation by_contact: row_grouping RTCOM_EL_QUERY_GROUP_BY_CONTACT unique_remote
  by unfold_locales (simp add: query_rows_def)

interpretation by_uids: row_grouping RTCOM_EL_QUERY_GROUP_BY_UIDS remote_key
  by unfold_locales (simp add: query_rows_def)

text \<open>
  Who is the same contact, as db.c 64-79 has it: those with the same uid in the address book; and without
  one, those with the same local and remote uid, or both without one of the two. The key of the query says
  just this where the uid of no account contains a semicolon, as the comment there assumes.
\<close>

definition contact_uids :: "joined_row \<Rightarrow> (string \<times> string) option" where
  "contact_uids j =
     (case (e_local_uid (jn_event j), e_remote_uid (jn_event j)) of
        (Some l, Some r) \<Rightarrow> Some (l, r) | _ \<Rightarrow> None)"

definition same_contact :: "joined_row \<Rightarrow> joined_row \<Rightarrow> bool" where
  "same_contact j k \<longleftrightarrow>
     (case (Option.bind (jn_remote j) rm_abook_uid, Option.bind (jn_remote k) rm_abook_uid) of
        (Some a, Some b) \<Rightarrow> a = b
      | (None, None) \<Rightarrow> contact_uids j = contact_uids k
      | _ \<Rightarrow> False)"

definition plain_accounts :: "tables \<Rightarrow> bool" where
  "plain_accounts t \<longleftrightarrow> (\<forall>e \<in> set (Events t). \<forall>l. e_local_uid e = Some l \<longrightarrow> CHR '';'' \<notin> set l)"

lemma separated:
  "c \<notin> set l \<Longrightarrow> c \<notin> set l' \<Longrightarrow> l @ c # r = l' @ c # r' \<longleftrightarrow> l = l' \<and> r = r'"
proof (induction l arbitrary: l')
  case Nil
  then show ?case by (cases l') auto
next
  case (Cons x l)
  then show ?case by (cases l') auto
qed

lemma unique_remote_contact:
  assumes "plain_accounts t" and "j \<in> set (joined t)" and "k \<in> set (joined t)"
  shows "unique_remote j = unique_remote k \<longleftrightarrow> same_contact j k"
proof -
  from assms joined_event have p: "CHR '';'' \<notin> set l"
    if "e_local_uid (jn_event j) = Some l \<or> e_local_uid (jn_event k) = Some l" for l
    using that unfolding plain_accounts_def by blast
  then show ?thesis
    by (auto simp: unique_remote_def same_contact_def contact_uids_def separated split: option.splits)
qed

text \<open>C24: The list of conversations with contacts: where no account's uid contains a semicolon, a query grouped by
  \<open>RTCOM_EL_QUERY_GROUP_BY_CONTACT\<close> has one row for each contact (\<open>same_contact\<close>: by the address book's uid,
  or else by account and remote uid) with an event that satisfies the conditions, namely its newest such event,
  and lists the newest first.\<close>

theorem contact_query_shows_newest:
  assumes "holds w = Some P" and "plain_accounts t"
  shows "\<exists>f. query_rows holds
       \<lparr>sel_group_by = RTCOM_EL_QUERY_GROUP_BY_CONTACT, sel_where = Some w, sel_limit = - 1, sel_offset = 0\<rparr> =
       Some f \<and>
     distinct (f t) \<and> set (f t) \<subseteq> {j \<in> set (joined t). P j} \<and>
     (\<forall>j \<in> set (joined t). P j \<longrightarrow> (\<exists>!r. r \<in> set (f t) \<and> same_contact j r)) \<and>
     (\<forall>r \<in> set (f t). \<forall>j \<in> set (joined t). P j \<and> same_contact j r \<longrightarrow>
        e_id (jn_event j) \<le> e_id (jn_event r)) \<and>
     sorted_wrt (\<ge>) (map (\<lambda>j. e_id (jn_event j)) (f t))"
proof -
  from by_contact.newest_per_key [where holds = holds and w = w and P = P and t = t, OF assms(1)] obtain f where
    q: "query_rows holds \<lparr>sel_group_by = RTCOM_EL_QUERY_GROUP_BY_CONTACT, sel_where = Some w, sel_limit = - 1,
        sel_offset = 0\<rparr> = Some f"
    and d: "distinct (map unique_remote (f t))"
    and k: "unique_remote ` set (f t) = unique_remote ` {j \<in> set (joined t). P j}"
    and m: "\<And>r. r \<in> set (f t) \<Longrightarrow> r \<in> set (joined t) \<and> P r \<and>
        (\<forall>j \<in> set (joined t). P j \<and> unique_remote j = unique_remote r \<longrightarrow>
           e_id (jn_event j) \<le> e_id (jn_event r))"
    and o: "sorted_wrt (\<ge>) (map (\<lambda>j. e_id (jn_event j)) (f t))" by blast
  have key: "unique_remote j = unique_remote r \<longleftrightarrow> same_contact j r"
    if "j \<in> set (joined t)" "r \<in> set (f t)" for j r
    using unique_remote_contact [OF assms(2) that(1)] m [OF that(2)] by blast
  have one: "\<exists>!r. r \<in> set (f t) \<and> same_contact j r" if "j \<in> set (joined t)" "P j" for j
  proof -
    from that k have "unique_remote j \<in> unique_remote ` set (f t)" by blast
    then obtain r where r: "r \<in> set (f t)" "unique_remote j = unique_remote r" by blast
    moreover have "r' = r" if "r' \<in> set (f t)" "unique_remote j = unique_remote r'" for r'
      using d r that by (auto simp: distinct_map dest: inj_onD)
    ultimately show ?thesis using key that(1) by blast
  qed
  have newest: "\<forall>r \<in> set (f t). \<forall>j \<in> set (joined t). P j \<and> same_contact j r \<longrightarrow>
      e_id (jn_event j) \<le> e_id (jn_event r)" using m key by blast
  have sub: "set (f t) \<subseteq> {j \<in> set (joined t). P j}" using m by blast
  have dist: "distinct (f t)" using d by (simp add: distinct_map)
  show ?thesis by (intro exI [of _ f] conjI q dist sub newest o ballI impI one)
qed

lemma sample_where: "where_holds ''Events.id > 0'' \<noteq> None"
  by code_simp

theorem contact_query_shows_newest_witness:
  "\<exists>f. query_rows where_holds \<lparr>sel_group_by = RTCOM_EL_QUERY_GROUP_BY_CONTACT,
       sel_where = Some ''Events.id > 0'', sel_limit = - 1, sel_offset = 0\<rparr> = Some f \<and>
     distinct (f sample_tables)"
proof -
  from sample_where obtain P where P: "where_holds ''Events.id > 0'' = Some P" by auto
  have "plain_accounts sample_tables"
    by (simp add: plain_accounts_def sample_tables_def sample_row_def)
  from contact_query_shows_newest [where holds = where_holds and w = "''Events.id > 0''" and P = P
      and t = sample_tables, OF P this] show ?thesis by blast
qed

section \<open>Pages\<close>

lemma concat_pages:
  "length xs \<le> m * n \<Longrightarrow> concat (map (\<lambda>k. take n (drop (k * n) xs)) [0..<m]) = xs"
proof (induction m arbitrary: xs)
  case (Suc m)
  have "[0..<Suc m] = 0 # map Suc [0..<m]" by (simp add: upt_conv_Cons map_Suc_upt del: upt_Suc)
  with Suc.IH [of "drop n xs"] Suc.prems show ?case by (simp add: comp_def add.commute del: upt_Suc)
qed simp

text \<open>C25: Paging through a query: with the limit \<open>n\<close> and the offsets 0, \<open>n\<close>, 2\<open>n\<close> and so on, for as many pages
  as the rows need, the statements return every row of the query without limit once, in its order, which is by
  descending event id; without grouping these rows are those of the join that satisfy the WHERE clause.\<close>

theorem query_pages_cover:
  assumes "query_rows holds (s\<lparr>sel_limit := - 1, sel_offset := 0\<rparr>) = Some f" and "length (f t) \<le> m * nat n" and "0 \<le> n"
  shows "\<exists>g. (\<forall>k. query_rows holds (s\<lparr>sel_limit := n, sel_offset := int k * n\<rparr>) = Some (g k)) \<and>
     concat (map (\<lambda>k. g k t) [0..<m]) = f t \<and>
     sorted_wrt (\<ge>) (map (\<lambda>j. e_id (jn_event j)) (f t)) \<and>
     (\<forall>w P. sel_group_by s = RTCOM_EL_QUERY_GROUP_BY_NONE \<and> sel_where s = Some w \<and> holds w = Some P \<longrightarrow>
        mset (f t) = mset (filter P (joined t)))"
proof -
  from assms(1) obtain P where P: "(case sel_where s of None \<Rightarrow> Some (\<lambda>j. True) | Some w \<Rightarrow> holds w) = Some P"
    by (auto simp: query_rows_def)
  let ?rows = "\<lambda>t. order_rows
         (case sel_group_by s of
            RTCOM_EL_QUERY_GROUP_BY_GROUP \<Rightarrow> filter P (joined_groups t)
          | RTCOM_EL_QUERY_GROUP_BY_NONE \<Rightarrow> filter P (joined t)
          | RTCOM_EL_QUERY_GROUP_BY_CONTACT \<Rightarrow> group_rows unique_remote (filter P (joined t))
          | RTCOM_EL_QUERY_GROUP_BY_UIDS \<Rightarrow> group_rows remote_key (filter P (joined t)))"
  let ?g = "\<lambda>k t. take (nat n) (drop (k * nat n) (?rows t))"
  from assms(1) P have f: "f = ?rows" by (auto simp: query_rows_def limit_rows_def fun_eq_iff)
  have "query_rows holds (s\<lparr>sel_limit := n, sel_offset := int k * n\<rparr>) = Some (?g k)" for k
    using P assms(3) by (simp add: query_rows_def limit_rows_def nat_mult_distrib fun_eq_iff)
  moreover have "concat (map (\<lambda>k. ?g k t) [0..<m]) = f t"
    unfolding f by (rule concat_pages) (use assms(2) f in simp)
  moreover have "sorted_wrt (\<ge>) (map (\<lambda>j. e_id (jn_event j)) (f t))"
    unfolding f by (rule order_rows_sorted)
  moreover have "mset (f t) = mset (filter Q (joined t))"
    if "sel_group_by s = RTCOM_EL_QUERY_GROUP_BY_NONE" "sel_where s = Some w" "holds w = Some Q" for w Q
    using that P unfolding f by (simp add: order_rows_def)
  ultimately show ?thesis by (intro exI [of _ ?g] conjI allI impI) blast+
qed

theorem query_pages_cover_witness:
  "\<exists>f (g :: nat \<Rightarrow> tables \<Rightarrow> joined_row list).
     query_rows where_holds \<lparr>sel_group_by = RTCOM_EL_QUERY_GROUP_BY_NONE, sel_where = None,
       sel_limit = - 1, sel_offset = 0\<rparr> = Some f \<and> length (f sample_tables) = 3 \<and>
     g 0 sample_tables @ g 1 sample_tables = f sample_tables \<and>
     query_rows where_holds \<lparr>sel_group_by = RTCOM_EL_QUERY_GROUP_BY_NONE, sel_where = None,
       sel_limit = 2, sel_offset = 2\<rparr> = Some (g 1)"
proof -
  let ?s = "\<lparr>sel_group_by = RTCOM_EL_QUERY_GROUP_BY_NONE, sel_where = None, sel_limit = - 1, sel_offset = 0\<rparr> :: el_select"
  obtain f where f: "query_rows where_holds ?s = Some f" by (simp add: query_rows_def)
  have "map_option (\<lambda>f. length (f sample_tables)) (query_rows where_holds ?s) = Some 3" by code_simp
  with f have len: "length (f sample_tables) = 3" by simp
  have "query_rows where_holds (?s\<lparr>sel_limit := - 1, sel_offset := 0\<rparr>) = Some f" using f by simp
  from query_pages_cover [OF this, of sample_tables 2 2] len obtain g where
    g: "\<forall>k. query_rows where_holds (?s\<lparr>sel_limit := 2, sel_offset := int k * 2\<rparr>) = Some (g k)"
    "concat (map (\<lambda>k. g k sample_tables) [0..<2]) = f sample_tables" by auto
  have "g 0 sample_tables @ g 1 sample_tables = f sample_tables" using g(2) by (simp add: numeral_2_eq_2)
  moreover have "query_rows where_holds (?s\<lparr>sel_limit := 2, sel_offset := 2\<rparr>) = Some (g 1)"
    using spec [OF g(1), of 1] by simp
  ultimately show ?thesis using f len by (intro exI [of _ f] exI [of _ g]) simp
qed

end
