(* ===== verification/El_Objects.thy ===== *)
theory El_Objects
  imports El_Prelude
begin

text \<open>
  The objects of the library as the memory holds them: reference counts, the pointers between loggers, queries
  and iterators, the connections and their prepared statements (src/eventlogger.c, src/eventlogger-iter.c,
  src/eventlogger-attach-iter.c, src/eventlogger-query.c). Addresses are numbers. An operation that reads freed memory,
  uses a finalized statement or fails an assertion has no result: \<open>None\<close>.
\<close>

section \<open>Objects\<close>

text \<open>
  The pointers of the private structures; NULL is \<open>None\<close>. What the structures hold besides is in the
  theories of their operations.
\<close>

record logger_object =
  lo_db :: "nat option"

record query_object =
  qo_el :: nat

record iter_object =
  io_el :: "nat option"
  io_query :: "nat option"
  io_db :: "nat option"
  io_stmt :: "nat option"
  io_plugins :: "nat option"
  io_atomic :: bool

record attach_object =
  ao_db :: "nat option"
  ao_stmt :: "nat option"

text \<open>
  The memory: the reference count of every living object and its structure, the connections that are open, the
  prepared statements with their connections, the static variable of \<open>rtcom_el_get_shared\<close>, and the next
  address.
\<close>

record heap =
  refs :: "nat \<rightharpoonup> nat"
  loggers :: "nat \<rightharpoonup> logger_object"
  queries :: "nat \<rightharpoonup> query_object"
  iters :: "nat \<rightharpoonup> iter_object"
  attach_iters :: "nat \<rightharpoonup> attach_object"
  conns :: "nat list"
  stmts :: "(nat \<times> nat) list"
  shared :: "nat option"
  next_addr :: nat

definition empty_heap :: heap where
  "empty_heap = \<lparr>refs = Map.empty, loggers = Map.empty, queries = Map.empty, iters = Map.empty,
     attach_iters = Map.empty, conns = [], stmts = [], shared = None, next_addr = 0\<rparr>"

text \<open>The next address, with the first reference to the object that will be there.\<close>

definition g_object_alloc :: "heap \<Rightarrow> nat \<times> heap" where
  "g_object_alloc h =
     (let a = next_addr h in (a, h\<lparr>refs := (refs h)(a \<mapsto> 1), next_addr := Suc a\<rparr>))"

definition g_object_ref :: "nat \<Rightarrow> heap \<Rightarrow> heap option" where
  "g_object_ref a h = map_option (\<lambda>n. h\<lparr>refs := (refs h)(a \<mapsto> Suc n)\<rparr>) (refs h a)"

section \<open>Connections and statements\<close>

definition new_connection :: "heap \<Rightarrow> nat \<times> heap" where
  "new_connection h =
     (let c = next_addr h in (c, h\<lparr>conns := c # conns h, next_addr := Suc c\<rparr>))"

definition new_statement :: "nat \<Rightarrow> heap \<Rightarrow> nat \<times> heap" where
  "new_statement c h =
     (let s = next_addr h in (s, h\<lparr>stmts := (s, c) # stmts h, next_addr := Suc s\<rparr>))"

text \<open>
  \<open>sqlite3_close\<close> refuses, with SQLITE_BUSY, to close a connection that has statements left; its result
  is not looked at.
\<close>

definition sqlite3_close :: "nat \<Rightarrow> heap \<Rightarrow> heap option" where
  "sqlite3_close c h =
     (if c \<notin> set (conns h) then None
      else if c \<in> snd ` set (stmts h) then Some h
      else Some (h\<lparr>conns := removeAll c (conns h)\<rparr>))"

definition sqlite3_finalize :: "nat \<Rightarrow> heap \<Rightarrow> heap option" where
  "sqlite3_finalize s h =
     (if s \<in> fst ` set (stmts h) then Some (h\<lparr>stmts := filter (\<lambda>x. fst x \<noteq> s) (stmts h)\<rparr>) else None)"

section \<open>The end of an object\<close>

text \<open>
  \<open>rtcom_el_finalize\<close>, after GObject has cleared the weak pointer: \<open>rtcom_el_db_close\<close> asserts that
  there is a connection.
\<close>

definition logger_finalize :: "nat \<Rightarrow> logger_object \<Rightarrow> heap \<Rightarrow> heap option" where
  "logger_finalize a lo h =
     (case lo_db lo of
        None \<Rightarrow> None
      | Some c \<Rightarrow>
          sqlite3_close c (h\<lparr>loggers := (loggers h)(a := None),
            shared := (if shared h = Some a then None else shared h)\<rparr>))"

definition query_finalize :: "nat \<Rightarrow> heap \<Rightarrow> heap option" where
  "query_finalize a h = Some (h\<lparr>queries := (queries h)(a := None)\<rparr>)"

definition finalize_stmt :: "nat option \<Rightarrow> heap \<Rightarrow> heap option" where
  "finalize_stmt stmt h = (case stmt of None \<Rightarrow> Some h | Some s \<Rightarrow> sqlite3_finalize s h)"

definition attach_iter_finalize :: "nat \<Rightarrow> attach_object \<Rightarrow> heap \<Rightarrow> heap option" where
  "attach_iter_finalize a ao h =
     map_option (\<lambda>h1. h1\<lparr>attach_iters := (attach_iters h1)(a := None)\<rparr>) (finalize_stmt (ao_stmt ao) h)"

text \<open>\<open>g_object_unref\<close> of anything but an event iterator, whose finalizer unreferences others.\<close>

definition drop_ref :: "nat \<Rightarrow> (heap \<Rightarrow> heap option) \<Rightarrow> heap \<Rightarrow> heap option" where
  "drop_ref a fin h =
     (case refs h a of
        None \<Rightarrow> None
      | Some n \<Rightarrow>
          if 1 < n then Some (h\<lparr>refs := (refs h)(a \<mapsto> n - 1)\<rparr>)
          else fin (h\<lparr>refs := (refs h)(a := None)\<rparr>))"

definition finalize_plain :: "nat \<Rightarrow> heap \<Rightarrow> heap option" where
  "finalize_plain a h =
     (case loggers h a of Some lo \<Rightarrow> logger_finalize a lo h | None \<Rightarrow>
      case attach_iters h a of Some ao \<Rightarrow> attach_iter_finalize a ao h | None \<Rightarrow>
      query_finalize a h)"

definition unref_plain :: "nat \<Rightarrow> heap \<Rightarrow> heap option" where
  "unref_plain a = drop_ref a (finalize_plain a)"

text \<open>\<open>g_object_unref(NULL)\<close> warns and does nothing.\<close>

definition unref_pointer :: "nat option \<Rightarrow> heap \<Rightarrow> heap option" where
  "unref_pointer p h = (case p of None \<Rightarrow> Some h | Some a \<Rightarrow> unref_plain a h)"

text \<open>
  \<open>rtcom_el_iter_finalize\<close>: COMMIT on the connection, the logger and the query are unreferenced, and then
  the statement is finalized.
\<close>

definition iter_finalize :: "nat \<Rightarrow> iter_object \<Rightarrow> heap \<Rightarrow> heap option" where
  "iter_finalize i it h =
     (if io_atomic it \<and> (\<forall>c. io_db it = Some c \<longrightarrow> c \<notin> set (conns h)) then None
      else Option.bind (unref_pointer (io_el it) h) (\<lambda>h1.
           Option.bind (unref_pointer (io_query it) h1) (\<lambda>h2.
           map_option (\<lambda>h3. h3\<lparr>iters := (iters h3)(i := None)\<rparr>) (finalize_stmt (io_stmt it) h2))))"

lemma iter_finalize_code [code]:
  "iter_finalize i it h =
     (if io_atomic it \<and> (case io_db it of None \<Rightarrow> True | Some c \<Rightarrow> c \<notin> set (conns h)) then None
      else Option.bind (unref_pointer (io_el it) h) (\<lambda>h1.
           Option.bind (unref_pointer (io_query it) h1) (\<lambda>h2.
           map_option (\<lambda>h3. h3\<lparr>iters := (iters h3)(i := None)\<rparr>) (finalize_stmt (io_stmt it) h2))))"
  by (simp add: iter_finalize_def split: option.split)

definition object_unref :: "nat \<Rightarrow> heap \<Rightarrow> heap option" where
  "object_unref a h =
     (case iters h a of
        None \<Rightarrow> unref_plain a h
      | Some it \<Rightarrow> drop_ref a (iter_finalize a it) h)"

section \<open>Loggers\<close>

text \<open>\<open>rtcom_el_new\<close>; \<open>opened\<close> is whether \<open>_ensure_db\<close> could open the database.\<close>

definition open_logger :: "nat \<Rightarrow> heap \<Rightarrow> heap" where
  "open_logger a h =
     (case loggers h a of
        Some lo \<Rightarrow>
          if lo_db lo \<noteq> None then h
          else (case new_connection h of
                  (c, h1) \<Rightarrow> h1\<lparr>loggers := (loggers h1)(a \<mapsto> \<lparr>lo_db = Some c\<rparr>)\<rparr>)
      | None \<Rightarrow> h)"

definition rtcom_el_new :: "bool \<Rightarrow> heap \<Rightarrow> nat \<times> heap" where
  "rtcom_el_new opened h =
     (case g_object_alloc h of
        (a, h1) \<Rightarrow>
          let h2 = h1\<lparr>loggers := (loggers h1)(a \<mapsto> \<lparr>lo_db = None\<rparr>)\<rparr>
          in (a, if opened then open_logger a h2 else h2))"

definition rtcom_el_get_shared :: "bool \<Rightarrow> heap \<Rightarrow> (nat \<times> heap) option" where
  "rtcom_el_get_shared opened h =
     (case shared h of
        None \<Rightarrow> (case rtcom_el_new opened h of (a, h1) \<Rightarrow> Some (a, h1\<lparr>shared := Some a\<rparr>))
      | Some a \<Rightarrow> map_option (\<lambda>h1. (a, h1)) (g_object_ref a h))"

text \<open>The only property of a logger: its connection.\<close>

definition rtcom_el_get_property :: "logger_object \<Rightarrow> nat option" where
  "rtcom_el_get_property lo = lo_db lo"

section \<open>Queries\<close>

text \<open>A query keeps the address of its logger, without a reference.\<close>

definition query_object_new :: "nat \<Rightarrow> heap \<Rightarrow> nat \<times> heap" where
  "query_object_new e h =
     (case g_object_alloc h of
        (q, h1) \<Rightarrow> (q, h1\<lparr>queries := (queries h1)(q \<mapsto> \<lparr>qo_el = e\<rparr>)\<rparr>))"

section \<open>Event iterators\<close>

datatype iter_property =
    RTCOM_EL_ITER_PROP_EL nat
  | RTCOM_EL_ITER_PROP_QUERY nat
  | RTCOM_EL_ITER_PROP_DB "nat option"
  | RTCOM_EL_ITER_PROP_STMT "nat option"
  | RTCOM_EL_ITER_PROP_PLUGINS "nat option"
  | RTCOM_EL_ITER_PROP_ATOMIC bool

definition iter_init :: iter_object where
  "iter_init = \<lparr>io_el = None, io_query = None, io_db = None, io_stmt = None, io_plugins = None,
     io_atomic = False\<rparr>"

fun rtcom_el_iter_set_property :: "iter_property \<Rightarrow> iter_object \<times> heap \<Rightarrow> (iter_object \<times> heap) option"
where
  "rtcom_el_iter_set_property (RTCOM_EL_ITER_PROP_EL a) (it, h) =
     Option.bind (unref_pointer (io_el it) h) (\<lambda>h1.
       map_option (\<lambda>h2. (it\<lparr>io_el := Some a\<rparr>, h2)) (g_object_ref a h1))"
| "rtcom_el_iter_set_property (RTCOM_EL_ITER_PROP_QUERY a) (it, h) =
     Option.bind (unref_pointer (io_query it) h) (\<lambda>h1.
       map_option (\<lambda>h2. (it\<lparr>io_query := Some a\<rparr>, h2)) (g_object_ref a h1))"
| "rtcom_el_iter_set_property (RTCOM_EL_ITER_PROP_DB c) (it, h) = Some (it\<lparr>io_db := c\<rparr>, h)"
| "rtcom_el_iter_set_property (RTCOM_EL_ITER_PROP_STMT s) (it, h) = Some (it\<lparr>io_stmt := s\<rparr>, h)"
| "rtcom_el_iter_set_property (RTCOM_EL_ITER_PROP_PLUGINS p) (it, h) = Some (it\<lparr>io_plugins := p\<rparr>, h)"
| "rtcom_el_iter_set_property (RTCOM_EL_ITER_PROP_ATOMIC b) (it, h) = Some (it\<lparr>io_atomic := b\<rparr>, h)"

text \<open>Reading a property: the argument names it, its value is not looked at.\<close>

fun rtcom_el_iter_get_property :: "iter_property \<Rightarrow> iter_object \<Rightarrow> iter_property option" where
  "rtcom_el_iter_get_property (RTCOM_EL_ITER_PROP_EL _) it = map_option RTCOM_EL_ITER_PROP_EL (io_el it)"
| "rtcom_el_iter_get_property (RTCOM_EL_ITER_PROP_QUERY _) it =
     map_option RTCOM_EL_ITER_PROP_QUERY (io_query it)"
| "rtcom_el_iter_get_property (RTCOM_EL_ITER_PROP_DB _) it = Some (RTCOM_EL_ITER_PROP_DB (io_db it))"
| "rtcom_el_iter_get_property (RTCOM_EL_ITER_PROP_STMT _) it = Some (RTCOM_EL_ITER_PROP_STMT (io_stmt it))"
| "rtcom_el_iter_get_property (RTCOM_EL_ITER_PROP_PLUGINS _) it =
     Some (RTCOM_EL_ITER_PROP_PLUGINS (io_plugins it))"
| "rtcom_el_iter_get_property (RTCOM_EL_ITER_PROP_ATOMIC _) it =
     Some (RTCOM_EL_ITER_PROP_ATOMIC (io_atomic it))"

fun set_properties :: "iter_property list \<Rightarrow> iter_object \<times> heap \<Rightarrow> (iter_object \<times> heap) option" where
  "set_properties [] x = Some x"
| "set_properties (p # ps) x = Option.bind (rtcom_el_iter_set_property p x) (set_properties ps)"

text \<open>
  \<open>_get_events_core\<close> when the statement has a first row: it is prepared on the logger's connection, and the
  iterator is made with \<open>g_object_new\<close> and its six properties. Where the code returns NULL, because the logger has no
  connection, no iterator is made: this is \<open>None\<close>, too.
\<close>

definition get_events_object :: "nat \<Rightarrow> nat \<Rightarrow> bool \<Rightarrow> heap \<Rightarrow> (nat \<times> heap) option" where
  "get_events_object e q atomic h0 =
     (let h = open_logger e h0 in
      case loggers h e of None \<Rightarrow> None | Some lo \<Rightarrow>
      case lo_db lo of None \<Rightarrow> None | Some c \<Rightarrow>
      case new_statement c h of (s, h1) \<Rightarrow>
      case g_object_alloc h1 of (i, h2) \<Rightarrow>
        map_option (\<lambda>(it, h3). (i, h3\<lparr>iters := (iters h3)(i \<mapsto> it)\<rparr>))
          (set_properties
             [RTCOM_EL_ITER_PROP_EL e, RTCOM_EL_ITER_PROP_QUERY q, RTCOM_EL_ITER_PROP_DB (Some c),
              RTCOM_EL_ITER_PROP_STMT (Some s), RTCOM_EL_ITER_PROP_PLUGINS (Some e),
              RTCOM_EL_ITER_PROP_ATOMIC atomic] (iter_init, h2)))"

text \<open>\<open>rtcom_el_iter_next\<close>: at the end the statement is finalized, after an error its address stays.\<close>

datatype moved = Moved | At_end | Move_failed

definition iter_move :: "nat \<Rightarrow> moved \<Rightarrow> heap \<Rightarrow> heap option" where
  "iter_move i m h =
     (case iters h i of None \<Rightarrow> None | Some it \<Rightarrow>
      case io_stmt it of None \<Rightarrow> Some h | Some s \<Rightarrow>
        if s \<notin> fst ` set (stmts h) then None
        else case m of
               Moved \<Rightarrow> Some h
             | At_end \<Rightarrow>
                 map_option (\<lambda>h1. h1\<lparr>iters := (iters h1)(i \<mapsto> it\<lparr>io_stmt := None\<rparr>)\<rparr>)
                   (sqlite3_finalize s h)
             | Move_failed \<Rightarrow> sqlite3_finalize s h)"

section \<open>Attachment iterators\<close>

datatype attach_property =
    RTCOM_EL_ATTACH_ITER_PROP_DB "nat option"
  | RTCOM_EL_ATTACH_ITER_PROP_STMT "nat option"

definition attach_iter_init :: attach_object where
  "attach_iter_init = \<lparr>ao_db = None, ao_stmt = None\<rparr>"

fun rtcom_el_attach_iter_set_property :: "attach_property \<Rightarrow> attach_object \<Rightarrow> attach_object" where
  "rtcom_el_attach_iter_set_property (RTCOM_EL_ATTACH_ITER_PROP_DB c) ao = ao\<lparr>ao_db := c\<rparr>"
| "rtcom_el_attach_iter_set_property (RTCOM_EL_ATTACH_ITER_PROP_STMT s) ao = ao\<lparr>ao_stmt := s\<rparr>"

fun rtcom_el_attach_iter_get_property :: "attach_property \<Rightarrow> attach_object \<Rightarrow> attach_property" where
  "rtcom_el_attach_iter_get_property (RTCOM_EL_ATTACH_ITER_PROP_DB _) ao =
     RTCOM_EL_ATTACH_ITER_PROP_DB (ao_db ao)"
| "rtcom_el_attach_iter_get_property (RTCOM_EL_ATTACH_ITER_PROP_STMT _) ao =
     RTCOM_EL_ATTACH_ITER_PROP_STMT (ao_stmt ao)"

text \<open>
  \<open>rtcom_el_iter_get_attachments\<close> when there is an attachment: a statement of its own on the iterator's
  connection, and no reference to anything. \<open>None\<close> is also where the code returns NULL, because the iterator is at
  its end.
\<close>

definition get_attachments_object :: "nat \<Rightarrow> heap \<Rightarrow> (nat \<times> heap) option" where
  "get_attachments_object i h =
     (case iters h i of None \<Rightarrow> None | Some it \<Rightarrow>
      case io_db it of None \<Rightarrow> None | Some c \<Rightarrow>
        if c \<notin> set (conns h) \<or> io_stmt it = None then None
        else case new_statement c h of (s, h1) \<Rightarrow>
             case g_object_alloc h1 of (a, h2) \<Rightarrow>
               Some (a, h2\<lparr>attach_iters := (attach_iters h2)(a \<mapsto>
                 fold rtcom_el_attach_iter_set_property
                   [RTCOM_EL_ATTACH_ITER_PROP_DB (Some c), RTCOM_EL_ATTACH_ITER_PROP_STMT (Some s)]
                   attach_iter_init)\<rparr>))"

definition attach_iter_move :: "nat \<Rightarrow> moved \<Rightarrow> heap \<Rightarrow> heap option" where
  "attach_iter_move a m h =
     (case attach_iters h a of None \<Rightarrow> None | Some ao \<Rightarrow>
      case ao_stmt ao of None \<Rightarrow> Some h | Some s \<Rightarrow>
        if s \<notin> fst ` set (stmts h) then None
        else if m = Moved then Some h
        else map_option (\<lambda>h1. h1\<lparr>attach_iters := (attach_iters h1)(a \<mapsto> ao\<lparr>ao_stmt := None\<rparr>)\<rparr>)
               (sqlite3_finalize s h))"

end
