(* ===== verification/El_Objects_Props.thy ===== *)
theory El_Objects_Props
  imports El_Objects
begin

text \<open>
  The lifetimes of the objects: every reference is accounted for, an iterator keeps its logger, its query and
  its connection alive, and releasing the last reference through an iterator loses the connection.
\<close>

section \<open>Clients\<close>

text \<open>
  \<open>own a\<close> counts the references to the object at \<open>a\<close> that the program using the library holds. It passes
  only objects it holds a reference to and gives back only references it holds.
\<close>

inductive client_step :: "heap \<Rightarrow> (nat \<Rightarrow> nat) \<Rightarrow> heap \<Rightarrow> (nat \<Rightarrow> nat) \<Rightarrow> bool" where
  client_new: "rtcom_el_new opened h = (a, h') \<Longrightarrow> client_step h own h' (own(a := 1))"
| client_shared: "rtcom_el_get_shared opened h = Some (a, h') \<Longrightarrow> client_step h own h' (own(a := Suc (own a)))"
| client_open: "client_step h own (open_logger a h) own"
| client_ref: "0 < own a \<Longrightarrow> g_object_ref a h = Some h' \<Longrightarrow> client_step h own h' (own(a := Suc (own a)))"
| client_unref: "0 < own a \<Longrightarrow> object_unref a h = Some h' \<Longrightarrow> client_step h own h' (own(a := own a - 1))"
| client_query: "loggers h e \<noteq> None \<Longrightarrow> query_object_new e h = (q, h') \<Longrightarrow> client_step h own h' (own(q := 1))"
| client_events: "0 < own e \<Longrightarrow> loggers h e \<noteq> None \<Longrightarrow> 0 < own q \<Longrightarrow> queries h q \<noteq> None \<Longrightarrow>
    get_events_object e q atomic h = Some (i, h') \<Longrightarrow> client_step h own h' (own(i := 1))"
| client_move: "0 < own i \<Longrightarrow> iter_move i m h = Some h' \<Longrightarrow> client_step h own h' own"
| client_attachments: "0 < own i \<Longrightarrow> get_attachments_object i h = Some (a, h') \<Longrightarrow>
    client_step h own h' (own(a := 1))"
| client_attach_move: "0 < own a \<Longrightarrow> attach_iter_move a m h = Some h' \<Longrightarrow> client_step h own h' own"

inductive client_run :: "heap \<Rightarrow> (nat \<Rightarrow> nat) \<Rightarrow> bool" where
  run_start: "client_run empty_heap (\<lambda>a. 0)"
| run_step: "client_run h own \<Longrightarrow> client_step h own h' own' \<Longrightarrow> client_run h' own'"

section \<open>The invariant\<close>

text \<open>The iterators that hold a reference to the object at \<open>a\<close>.\<close>

definition holds_ref :: "iter_object \<Rightarrow> nat \<Rightarrow> bool" where
  "holds_ref it a \<longleftrightarrow> io_el it = Some a \<or> io_query it = Some a"

definition holders :: "nat \<Rightarrow> (nat \<rightharpoonup> iter_object) \<Rightarrow> nat set" where
  "holders a its = {i. \<exists>it. its i = Some it \<and> holds_ref it a}"

text \<open>The count of one object: the client's references and those of the iterators.\<close>

definition count_ok :: "nat option \<Rightarrow> nat \<Rightarrow> nat set \<Rightarrow> bool" where
  "count_ok r n hs \<longleftrightarrow> (case r of None \<Rightarrow> n = 0 \<and> hs = {} | Some k \<Rightarrow> 0 < k \<and> k = n + card hs)"

definition counted :: "heap \<Rightarrow> (nat \<Rightarrow> nat) \<Rightarrow> bool" where
  "counted h own \<longleftrightarrow> (\<forall>a. count_ok (refs h a) (own a) (holders a (iters h)))"

text \<open>An address with a reference count is that of exactly one object.\<close>

definition one_kind :: "bool \<Rightarrow> bool \<Rightarrow> bool \<Rightarrow> bool \<Rightarrow> bool \<Rightarrow> bool" where
  "one_kind r l q i t \<longleftrightarrow> (r \<longleftrightarrow> l \<or> q \<or> i \<or> t) \<and>
     \<not> (l \<and> q) \<and> \<not> (l \<and> i) \<and> \<not> (l \<and> t) \<and> \<not> (q \<and> i) \<and> \<not> (q \<and> t) \<and> \<not> (i \<and> t)"

definition kinds where
  "kinds r l q i t \<longleftrightarrow>
     (\<forall>a. one_kind (r a \<noteq> None) (l a \<noteq> None) (q a \<noteq> None) (i a \<noteq> None) (t a \<noteq> None))"

definition iters_ok where
  "iters_ok its lgs qs \<longleftrightarrow> finite (dom its) \<and>
     (\<forall>i it. its i = Some it \<longrightarrow> (\<exists>e q c. io_el it = Some e \<and> io_query it = Some q \<and>
        io_db it = Some c \<and> lgs e = Some \<lparr>lo_db = Some c\<rparr> \<and> qs q \<noteq> None))"

text \<open>Every logger has its own connection; no statement outlives its connection.\<close>

definition conns_ok where
  "conns_ok lgs cs \<longleftrightarrow> (\<forall>a c. lgs a = Some \<lparr>lo_db = Some c\<rparr> \<longrightarrow> c \<in> set cs \<and>
     (\<forall>b. lgs b = Some \<lparr>lo_db = Some c\<rparr> \<longrightarrow> b = a))"

definition stmts_ok :: "(nat \<times> nat) list \<Rightarrow> nat list \<Rightarrow> bool" where
  "stmts_ok ss cs \<longleftrightarrow> snd ` set ss \<subseteq> set cs"

definition shared_ok where
  "shared_ok sh lgs \<longleftrightarrow> (\<forall>a. sh = Some a \<longrightarrow> lgs a \<noteq> None)"

definition addrs_ok where
  "addrs_ok r cs n \<longleftrightarrow> (\<forall>a. r a \<noteq> None \<longrightarrow> a < n) \<and> (\<forall>c \<in> set cs. c < n)"

definition well_formed :: "heap \<Rightarrow> bool" where
  "well_formed h \<longleftrightarrow> iters_ok (iters h) (loggers h) (queries h) \<and>
     kinds (refs h) (loggers h) (queries h) (iters h) (attach_iters h) \<and>
     conns_ok (loggers h) (conns h) \<and> stmts_ok (stmts h) (conns h) \<and> shared_ok (shared h) (loggers h) \<and>
     addrs_ok (refs h) (conns h) (next_addr h)"

definition balanced :: "heap \<Rightarrow> (nat \<Rightarrow> nat) \<Rightarrow> bool" where
  "balanced h own \<longleftrightarrow> well_formed h \<and> counted h own"

lemma balancedI: "well_formed h \<Longrightarrow> counted h own \<Longrightarrow> balanced h own"
  by (simp add: balanced_def)

text \<open>A change at one address.\<close>

lemma kinds_upd:
  assumes "kinds r l q i t"
    and "\<And>x. x \<noteq> a \<Longrightarrow> r' x = r x \<and> l' x = l x \<and> q' x = q x \<and> i' x = i x \<and> t' x = t x"
    and "one_kind (r' a \<noteq> None) (l' a \<noteq> None) (q' a \<noteq> None) (i' a \<noteq> None) (t' a \<noteq> None)"
  shows "kinds r' l' q' i' t'"
  unfolding kinds_def
proof
  fix x
  show "one_kind (r' x \<noteq> None) (l' x \<noteq> None) (q' x \<noteq> None) (i' x \<noteq> None) (t' x \<noteq> None)"
    using assms(1) assms(2) [of x] assms(3) by (cases "x = a") (simp_all add: kinds_def)
qed

lemma kindsD:
  assumes "kinds r l q i t"
  shows "one_kind (r a \<noteq> None) (l a \<noteq> None) (q a \<noteq> None) (i a \<noteq> None) (t a \<noteq> None)"
  using assms by (simp add: kinds_def)

lemma kinds_logger_query:
  assumes "kinds r l q i t" and "l e \<noteq> None" and "q u \<noteq> None"
  shows "e \<noteq> u \<and> i e = None \<and> i u = None \<and> (\<forall>x. i x \<noteq> None \<longrightarrow> x \<noteq> e \<and> x \<noteq> u)"
proof -
  from kindsD [OF assms(1), of e] assms(2) have "q e = None" "i e = None" by (auto simp: one_kind_def)
  moreover from kindsD [OF assms(1), of u] assms(3) have "i u = None" by (auto simp: one_kind_def)
  ultimately show ?thesis using assms(3) by auto
qed

lemma kinds_same_dom:
  assumes "kinds r l q i t" and "\<And>a. r' a = None \<longleftrightarrow> r a = None" and "\<And>a. l' a = None \<longleftrightarrow> l a = None"
    and "\<And>a. i' a = None \<longleftrightarrow> i a = None" and "\<And>a. t' a = None \<longleftrightarrow> t a = None"
  shows "kinds r' l' q i' t'"
  using assms by (simp add: kinds_def)

lemma iters_okD:
  assumes "iters_ok its lgs qs" and "its i = Some it"
  obtains e q c where "io_el it = Some e" and "io_query it = Some q" and "io_db it = Some c"
    and "lgs e = Some \<lparr>lo_db = Some c\<rparr>" and "qs q \<noteq> None"
  using assms unfolding iters_ok_def by blast

lemma iters_ok_logger:
  assumes its: "iters_ok its lgs qs" and new: "\<And>c. lgs a \<noteq> Some \<lparr>lo_db = Some c\<rparr>"
  shows "iters_ok its (lgs(a \<mapsto> lo)) qs"
proof -
  have "\<exists>e q c. io_el it = Some e \<and> io_query it = Some q \<and> io_db it = Some c \<and>
      (lgs(a \<mapsto> lo)) e = Some \<lparr>lo_db = Some c\<rparr> \<and> qs q \<noteq> None" if i: "its i = Some it" for i it
  proof -
    from its i obtain e q c where it: "io_el it = Some e" "io_query it = Some q" "io_db it = Some c"
      "lgs e = Some \<lparr>lo_db = Some c\<rparr>" "qs q \<noteq> None" by (rule iters_okD)
    with new [of c] have "e \<noteq> a" by auto
    with it show ?thesis by simp
  qed
  with its show ?thesis unfolding iters_ok_def by blast
qed

lemma holders_finite: "iters_ok its lgs qs \<Longrightarrow> finite (holders a its)"
  by (rule finite_subset [of _ "dom its"]) (auto simp: holders_def iters_ok_def)

lemma holders_new:
  assumes "its i = None"
  shows "holders a (its(i \<mapsto> it)) = (if holds_ref it a then insert i (holders a its) else holders a its)"
    and "i \<notin> holders a its"
  using assms by (auto simp: holders_def)

lemma holders_gone: "holders a (its(i := None)) = holders a its - {i}"
  by (auto simp: holders_def)

lemma holders_same:
  assumes "its i = Some it" and "io_el it' = io_el it" and "io_query it' = io_query it"
  shows "holders a (its(i \<mapsto> it')) = holders a its"
  using assms by (auto simp: holders_def holds_ref_def)

lemma no_holders: "holders a its = {} \<Longrightarrow> its i = Some it \<Longrightarrow> \<not> holds_ref it a"
  by (auto simp: holders_def)

text \<open>Nothing refers to an iterator or an attachment iterator but the client.\<close>

lemma holders_kind:
  assumes "iters_ok its lgs qs" and "lgs a = None" and "qs a = None"
  shows "holders a its = {}"
proof -
  have "\<not> holds_ref it a" if "its i = Some it" for i it
  proof -
    from assms(1) that obtain e q c where "io_el it = Some e" "io_query it = Some q"
      "lgs e = Some \<lparr>lo_db = Some c\<rparr>" "qs q \<noteq> None" by (rule iters_okD)
    with assms(2,3) show ?thesis by (auto simp: holds_ref_def)
  qed
  then show ?thesis by (auto simp: holders_def)
qed

lemma fresh_refs:
  assumes "well_formed h" and "next_addr h \<le> a"
  shows "refs h a = None" "loggers h a = None" "queries h a = None"
    "iters h a = None" "attach_iters h a = None" "a \<notin> set (conns h)"
proof -
  from assms have c: "addrs_ok (refs h) (conns h) (next_addr h)" by (simp add: well_formed_def)
  with assms(2) show r: "refs h a = None" "a \<notin> set (conns h)" by (force simp: addrs_ok_def)+
  from assms(1) have "kinds (refs h) (loggers h) (queries h) (iters h) (attach_iters h)"
    by (simp add: well_formed_def)
  from kindsD [OF this, of a] r show "loggers h a = None" "queries h a = None" "iters h a = None"
    "attach_iters h a = None" by (auto simp: one_kind_def)
qed

lemma countedD: "counted h own \<Longrightarrow> count_ok (refs h a) (own a) (holders a (iters h))"
  by (simp add: counted_def)

lemma counted_upd:
  assumes "counted h own" and "iters h' = iters h" and "\<And>x. x \<noteq> a \<Longrightarrow> refs h' x = refs h x \<and> own' x = own x"
    and "count_ok (refs h' a) (own' a) (holders a (iters h))"
  shows "counted h' own'"
  unfolding counted_def
proof
  fix x
  show "count_ok (refs h' x) (own' x) (holders x (iters h'))"
    using countedD [OF assms(1), of x] assms(2-4) by (cases "x = a") auto
qed

lemma counted_fresh:
  assumes "balanced h own" and "refs h a = None"
  shows "own a = 0" "holders a (iters h) = {}"
  using countedD [of h own a] assms by (simp_all add: balanced_def count_ok_def)

lemma addrs_drop: "addrs_ok r cs n \<Longrightarrow> addrs_ok (r(a := None)) cs n"
  by (simp add: addrs_ok_def)

text \<open>Only which objects there are matters for the shape, not their counts.\<close>

lemma well_formed_refs:
  assumes "well_formed h" and "\<And>a. r a = None \<longleftrightarrow> refs h a = None"
  shows "well_formed (h\<lparr>refs := r\<rparr>)"
proof -
  from assms(1) have "kinds r (loggers h) (queries h) (iters h) (attach_iters h)"
    by (simp add: well_formed_def kinds_def assms(2))
  with assms show ?thesis by (simp add: well_formed_def addrs_ok_def)
qed

section \<open>References\<close>

lemma ref_balanced:
  assumes "balanced h own" and "g_object_ref a h = Some h'"
  shows "balanced h' (own(a := Suc (own a)))"
proof -
  from assms(2) obtain n where n: "refs h a = Some n" "h' = h\<lparr>refs := (refs h)(a \<mapsto> Suc n)\<rparr>"
    by (auto simp: g_object_ref_def)
  from assms(1) have wf: "well_formed h" and cnt: "counted h own" by (simp_all add: balanced_def)
  have "counted h' (own(a := Suc (own a)))"
    by (rule counted_upd [OF cnt, where a = a]) (use countedD [OF cnt, of a] n in \<open>auto simp: count_ok_def\<close>)
  moreover have "well_formed h'" unfolding n(2) by (rule well_formed_refs [OF wf]) (simp add: n(1))
  ultimately show ?thesis by (simp add: balanced_def)
qed

lemma unref_balanced:
  assumes "balanced h own" and "0 < own a" and "refs h a = Some n" and "1 < n"
  shows "balanced (h\<lparr>refs := (refs h)(a \<mapsto> n - 1)\<rparr>) (own(a := own a - 1))"
proof -
  from assms(1) have wf: "well_formed h" and cnt: "counted h own" by (simp_all add: balanced_def)
  have "counted (h\<lparr>refs := (refs h)(a \<mapsto> n - 1)\<rparr>) (own(a := own a - 1))"
    by (rule counted_upd [OF cnt, where a = a])
      (use countedD [OF cnt, of a] assms(2-4) in \<open>auto simp: count_ok_def\<close>)
  moreover have "well_formed (h\<lparr>refs := (refs h)(a \<mapsto> n - 1)\<rparr>)"
    by (rule well_formed_refs [OF wf]) (simp add: assms(3))
  ultimately show ?thesis by (simp add: balanced_def)
qed

text \<open>The last reference: nothing else refers to the object.\<close>

lemma last_reference:
  assumes "balanced h own" and "0 < own a" and "refs h a = Some n" and "\<not> 1 < n"
  shows "own a = 1 \<and> holders a (iters h) = {}"
proof -
  from assms(1) have "iters_ok (iters h) (loggers h) (queries h)" and cnt: "counted h own"
    by (simp_all add: balanced_def well_formed_def)
  then have fin: "finite (holders a (iters h))" by (simp add: holders_finite)
  from countedD [OF cnt, of a] assms(3) have "n = own a + card (holders a (iters h))"
    by (simp add: count_ok_def)
  with assms(2,4) have "own a = 1" "card (holders a (iters h)) = 0" by linarith+
  with fin show ?thesis by simp
qed

lemma counted_gone:
  assumes "counted h own" and "holders a (iters h) = {}" and "own a = 1"
  shows "counted (h\<lparr>refs := (refs h)(a := None)\<rparr>) (own(a := own a - 1))"
  by (rule counted_upd [OF assms(1), where a = a]) (use assms(2,3) in \<open>auto simp: count_ok_def\<close>)

lemma counted_cong:
  assumes "counted h own" and "refs h' = refs h" and "iters h' = iters h"
  shows "counted h' own"
  using assms by (simp add: counted_def)

section \<open>The end of objects that hold no references\<close>

lemma close_shape:
  assumes "sqlite3_close c h = Some h'"
  shows "h' = h \<and> c \<in> snd ` set (stmts h) \<or>
     h' = h\<lparr>conns := removeAll c (conns h)\<rparr> \<and> c \<notin> snd ` set (stmts h)"
  using assms by (auto simp: sqlite3_close_def split: if_splits)

lemma finalize_shape:
  assumes "finalize_stmt s h = Some h'"
  shows "\<exists>ss. h' = h\<lparr>stmts := ss\<rparr> \<and> set ss \<subseteq> set (stmts h)"
  using assms by (auto simp: finalize_stmt_def sqlite3_finalize_def split: option.splits if_splits
      intro: exI [of _ "stmts h"])

lemma well_formed_stmts:
  assumes "well_formed h" and "set ss \<subseteq> set (stmts h)"
  shows "well_formed (h\<lparr>stmts := ss\<rparr>)"
  using assms by (auto simp: well_formed_def stmts_ok_def)

lemma well_formed_no_logger:
  assumes "well_formed h" and "loggers h a = Some lo" and "holders a (iters h) = {}"
  shows "well_formed (h\<lparr>refs := (refs h)(a := None), loggers := (loggers h)(a := None),
     shared := (if shared h = Some a then None else shared h)\<rparr>)"
proof -
  have k: "kinds (refs h) (loggers h) (queries h) (iters h) (attach_iters h)"
    using assms(1) by (simp add: well_formed_def)
  have "kinds ((refs h)(a := None)) ((loggers h)(a := None)) (queries h) (iters h) (attach_iters h)"
    by (rule kinds_upd [OF k]) (use kindsD [OF k, of a] assms(2) in \<open>auto simp: one_kind_def\<close>)
  moreover have "iters_ok (iters h) ((loggers h)(a := None)) (queries h)"
    using assms(1,3) no_holders [of a "iters h"]
    by (fastforce simp: well_formed_def iters_ok_def holds_ref_def)
  ultimately show ?thesis
    using assms(1) by (auto simp: well_formed_def conns_ok_def shared_ok_def addrs_ok_def)
qed

lemma logger_finalize_shape:
  assumes "well_formed h" and "loggers h a = Some lo" and "holders a (iters h) = {}"
    and "logger_finalize a lo (h\<lparr>refs := (refs h)(a := None)\<rparr>) = Some h'"
  shows "well_formed h' \<and> refs h' = (refs h)(a := None) \<and> iters h' = iters h"
proof -
  let ?g = "h\<lparr>refs := (refs h)(a := None), loggers := (loggers h)(a := None),
     shared := (if shared h = Some a then None else shared h)\<rparr>"
  from assms(4) obtain c where c: "lo = \<lparr>lo_db = Some c\<rparr>" "sqlite3_close c ?g = Some h'"
    by (cases lo) (auto simp: logger_finalize_def split: option.splits cong: if_cong)
  note g = well_formed_no_logger [OF assms(1-3)]
  from close_shape [OF c(2)] show ?thesis
  proof (elim disjE conjE)
    assume "h' = ?g"
    with g show ?thesis by simp
  next
    assume h': "h' = ?g\<lparr>conns := removeAll c (conns ?g)\<rparr>" and s: "c \<notin> snd ` set (stmts ?g)"
    have "conns_ok (loggers ?g) (removeAll c (conns h))"
      using assms(1,2) c(1) by (auto simp: well_formed_def conns_ok_def)
    with g s show ?thesis unfolding h' by (auto simp: well_formed_def stmts_ok_def addrs_ok_def)
  qed
qed

lemma attach_finalize_shape:
  assumes "well_formed h" and "attach_iters h a = Some ao"
    and "attach_iter_finalize a ao (h\<lparr>refs := (refs h)(a := None)\<rparr>) = Some h'"
  shows "well_formed h' \<and> refs h' = (refs h)(a := None) \<and> iters h' = iters h"
proof -
  from assms(3) obtain h1 where f: "finalize_stmt (ao_stmt ao) (h\<lparr>refs := (refs h)(a := None)\<rparr>) = Some h1"
    and h': "h' = h1\<lparr>attach_iters := (attach_iters h1)(a := None)\<rparr>" by (auto simp: attach_iter_finalize_def)
  from finalize_shape [OF f] obtain ss where
    ss: "h1 = h\<lparr>refs := (refs h)(a := None), stmts := ss\<rparr>" "set ss \<subseteq> set (stmts h)" by auto
  have k: "kinds (refs h) (loggers h) (queries h) (iters h) (attach_iters h)"
    using assms(1) by (simp add: well_formed_def)
  have "kinds ((refs h)(a := None)) (loggers h) (queries h) (iters h) ((attach_iters h)(a := None))"
    by (rule kinds_upd [OF k]) (use kindsD [OF k, of a] assms(2) in \<open>auto simp: one_kind_def\<close>)
  with assms(1) ss show ?thesis unfolding h'
    by (auto simp: well_formed_def stmts_ok_def intro: addrs_drop)
qed

lemma query_finalize_shape:
  assumes "well_formed h" and "queries h a \<noteq> None" and "holders a (iters h) = {}"
    and "query_finalize a (h\<lparr>refs := (refs h)(a := None)\<rparr>) = Some h'"
  shows "well_formed h' \<and> refs h' = (refs h)(a := None) \<and> iters h' = iters h"
proof -
  have k: "kinds (refs h) (loggers h) (queries h) (iters h) (attach_iters h)"
    using assms(1) by (simp add: well_formed_def)
  have "kinds ((refs h)(a := None)) (loggers h) ((queries h)(a := None)) (iters h) (attach_iters h)"
    by (rule kinds_upd [OF k]) (use kindsD [OF k, of a] assms(2) in \<open>auto simp: one_kind_def\<close>)
  moreover have "iters_ok (iters h) (loggers h) ((queries h)(a := None))"
    using assms(1,3) no_holders [of a "iters h"]
    by (fastforce simp: well_formed_def iters_ok_def holds_ref_def)
  ultimately show ?thesis using assms by (auto simp: query_finalize_def well_formed_def intro: addrs_drop)
qed

lemma unref_plain_balanced:
  assumes b: "balanced h own" and "0 < own a" and "iters h a = None" and u: "unref_plain a h = Some h'"
  shows "balanced h' (own(a := own a - 1)) \<and> iters h' = iters h"
proof -
  from u obtain n where n: "refs h a = Some n" by (auto simp: unref_plain_def drop_ref_def split: option.splits)
  show ?thesis
  proof (cases "1 < n")
    case True
    with u n have "h' = h\<lparr>refs := (refs h)(a \<mapsto> n - 1)\<rparr>" by (simp add: unref_plain_def drop_ref_def)
    with unref_balanced [OF b assms(2) n True] show ?thesis by simp
  next
    case False
    have last: "own a = 1" "holders a (iters h) = {}"
      using last_reference [OF b assms(2) n False] by simp_all
    from False u n have fin: "finalize_plain a (h\<lparr>refs := (refs h)(a := None)\<rparr>) = Some h'"
      by (simp add: unref_plain_def drop_ref_def)
    from b have wf: "well_formed h" and cnt: "counted h own" by (simp_all add: balanced_def)
    then have "kinds (refs h) (loggers h) (queries h) (iters h) (attach_iters h)"
      by (simp add: well_formed_def)
    from kindsD [OF this, of a] n assms(3) have kind: "loggers h a \<noteq> None \<or> attach_iters h a \<noteq> None \<or> queries h a \<noteq> None"
      by (simp only: one_kind_def) (metis option.distinct(1))
    have "well_formed h' \<and> refs h' = (refs h)(a := None) \<and> iters h' = iters h"
    proof (cases "loggers h a")
      case (Some lo)
      with fin have "logger_finalize a lo (h\<lparr>refs := (refs h)(a := None)\<rparr>) = Some h'"
        by (simp add: finalize_plain_def)
      from logger_finalize_shape [OF wf Some last(2) this] show ?thesis .
    next
      case None
      note no_logger = None
      show ?thesis
      proof (cases "attach_iters h a")
        case (Some ao)
        with fin no_logger have "attach_iter_finalize a ao (h\<lparr>refs := (refs h)(a := None)\<rparr>) = Some h'"
          by (simp add: finalize_plain_def)
        from attach_finalize_shape [OF wf Some this] show ?thesis .
      next
        case None
        with kind no_logger have "queries h a \<noteq> None" by simp
        moreover from fin no_logger None have "query_finalize a (h\<lparr>refs := (refs h)(a := None)\<rparr>) = Some h'"
          by (simp add: finalize_plain_def)
        ultimately show ?thesis by (rule query_finalize_shape [OF wf _ last(2)])
      qed
    qed
    moreover from this counted_gone [OF cnt last(2,1)] have "counted h' (own(a := own a - 1))"
      by (auto simp: counted_def)
    ultimately show ?thesis by (simp add: balanced_def)
  qed
qed

section \<open>Iterators\<close>

text \<open>What is done to loggers, queries and statements does not look at the iterators.\<close>

lemma finalize_stmt_iters [simp]:
  "finalize_stmt s (h\<lparr>iters := m\<rparr>) = map_option (\<lambda>g. g\<lparr>iters := m\<rparr>) (finalize_stmt s h)"
  by (simp add: finalize_stmt_def sqlite3_finalize_def split: option.split)

lemma sqlite3_close_iters [simp]:
  "sqlite3_close c (h\<lparr>iters := m\<rparr>) = map_option (\<lambda>g. g\<lparr>iters := m\<rparr>) (sqlite3_close c h)"
  by (simp add: sqlite3_close_def)

lemma unref_plain_iters:
  "unref_plain a (h\<lparr>iters := m\<rparr>) = map_option (\<lambda>g. g\<lparr>iters := m\<rparr>) (unref_plain a h)"
proof -
  have lift: "h\<lparr>iters := m, refs := r\<rparr> = h\<lparr>refs := r, iters := m\<rparr>" for h :: heap and r m by simp
  have lo: "logger_finalize a lo (h\<lparr>iters := m\<rparr>) = map_option (\<lambda>g. g\<lparr>iters := m\<rparr>) (logger_finalize a lo h)"
    for lo and h :: heap and m
    by (simp add: logger_finalize_def sqlite3_close_def split: option.split)
  have ai: "attach_iter_finalize a ao (h\<lparr>iters := m\<rparr>) =
      map_option (\<lambda>g. g\<lparr>iters := m\<rparr>) (attach_iter_finalize a ao h)" for ao and h :: heap and m
    by (cases "finalize_stmt (ao_stmt ao) h") (simp_all add: attach_iter_finalize_def)
  show ?thesis
    by (simp add: unref_plain_def drop_ref_def lift finalize_plain_def lo ai query_finalize_def
        split: option.split)
qed

lemma unref_plain_keeps_iters:
  assumes "unref_plain a h = Some h'"
  shows "iters h' = iters h"
proof -
  from assms have "Some h' = Some (h'\<lparr>iters := iters h\<rparr>)"
    using unref_plain_iters [where a = a and h = h and m = "iters h"] by simp
  then have "h' = h'\<lparr>iters := iters h\<rparr>" by simp
  then have "iters h' = iters (h'\<lparr>iters := iters h\<rparr>)" by (rule arg_cong)
  then show ?thesis by simp
qed

lemma iter_finalize_steps:
  assumes "iter_finalize i it h = Some h'" and "io_el it = Some e" and "io_query it = Some q"
  shows "\<exists>g1 g2. unref_plain e (h\<lparr>iters := (iters h)(i := None)\<rparr>) = Some g1 \<and> unref_plain q g1 = Some g2 \<and>
     finalize_stmt (io_stmt it) g2 = Some h'"
proof -
  from assms obtain h1 h2 h3 where h: "unref_plain e h = Some h1" "unref_plain q h1 = Some h2"
    "finalize_stmt (io_stmt it) h2 = Some h3" "h' = h3\<lparr>iters := (iters h3)(i := None)\<rparr>"
    by (auto simp: iter_finalize_def unref_pointer_def bind_eq_Some_conv split: if_splits)
  from finalize_shape [OF h(3)] have "iters h3 = iters h2" by auto
  with unref_plain_keeps_iters [OF h(1)] unref_plain_keeps_iters [OF h(2)] have "iters h3 = iters h" by simp
  with h show ?thesis by (simp add: unref_plain_iters)
qed

text \<open>An iterator without its memory: its references are the client's now.\<close>

lemma dissolve:
  assumes b: "balanced h own" and i: "iters h i = Some it" and own: "own i = 1" and hi: "holders i (iters h) = {}"
    and e: "io_el it = Some e" and q: "io_query it = Some q" and lg: "loggers h e \<noteq> None" and qu: "queries h q \<noteq> None"
  shows "balanced (h\<lparr>refs := (refs h)(i := None), iters := (iters h)(i := None)\<rparr>)
     (own(i := 0, e := Suc (own e), q := Suc (own q)))"
proof -
  from b have wf: "well_formed h" and cnt: "counted h own" by (simp_all add: balanced_def)
  then have its: "iters_ok (iters h) (loggers h) (queries h)"
    and k: "kinds (refs h) (loggers h) (queries h) (iters h) (attach_iters h)" by (simp_all add: well_formed_def)
  from kindsD [OF k, of e] kindsD [OF k, of q] lg qu i have ne: "e \<noteq> q" "i \<noteq> e" "i \<noteq> q"
    by (auto simp: one_kind_def)
  let ?h = "h\<lparr>refs := (refs h)(i := None), iters := (iters h)(i := None)\<rparr>"
  have "kinds ((refs h)(i := None)) (loggers h) (queries h) ((iters h)(i := None)) (attach_iters h)"
    by (rule kinds_upd [OF k]) (use kindsD [OF k, of i] i in \<open>auto simp: one_kind_def\<close>)
  moreover have "iters_ok ((iters h)(i := None)) (loggers h) (queries h)"
    using its by (auto simp: iters_ok_def)
  ultimately have "well_formed ?h" using wf by (auto simp: well_formed_def intro: addrs_drop)
  moreover have "counted ?h (own(i := 0, e := Suc (own e), q := Suc (own q)))"
    unfolding counted_def
  proof
    fix x
    note c = countedD [OF cnt, of x]
    have fin: "finite (holders x (iters h))" by (rule holders_finite [OF its])
    have mem: "i \<in> holders x (iters h) \<longleftrightarrow> x = e \<or> x = q" using i e q by (auto simp: holders_def holds_ref_def)
    consider "x = i" | "x \<noteq> i" "x = e \<or> x = q" | "x \<noteq> i" "x \<noteq> e" "x \<noteq> q" by blast
    then show "count_ok (refs ?h x) ((own(i := 0, e := Suc (own e), q := Suc (own q))) x) (holders x (iters ?h))"
    proof cases
      case 1
      with ne hi show ?thesis by (simp add: count_ok_def holders_gone)
    next
      case 2
      with mem have m: "i \<in> holders x (iters h)" by simp
      with c obtain n where "refs h x = Some n" "0 < n" "n = own x + card (holders x (iters h))"
        by (auto simp: count_ok_def split: option.splits)
      moreover from m fin have "card (holders x (iters h)) = Suc (card (holders x (iters h) - {i}))"
        using card.remove [OF fin m] by simp
      ultimately show ?thesis using 2 ne by (auto simp: count_ok_def holders_gone)
    next
      case 3
      with mem have "holders x (iters h) - {i} = holders x (iters h)" by simp
      with c 3 show ?thesis by (simp add: holders_gone)
    qed
  qed
  ultimately show ?thesis by (rule balancedI)
qed

text \<open>The converse: the client's references become those of a new iterator.\<close>

lemma adopt:
  assumes b: "balanced h own" and i: "next_addr h \<le> i" and own: "0 < own e" "0 < own q"
    and e: "io_el it = Some e" and q: "io_query it = Some q" and c: "io_db it = Some c"
    and lg: "loggers h e = Some \<lparr>lo_db = Some c\<rparr>" and qu: "queries h q \<noteq> None"
  shows "balanced (h\<lparr>refs := (refs h)(i \<mapsto> 1), next_addr := Suc i, iters := (iters h)(i \<mapsto> it)\<rparr>)
     (own(i := 1, e := own e - 1, q := own q - 1))"
proof -
  from b have wf: "well_formed h" and cnt: "counted h own" by (simp_all add: balanced_def)
  then have its: "iters_ok (iters h) (loggers h) (queries h)"
    and k: "kinds (refs h) (loggers h) (queries h) (iters h) (attach_iters h)" by (simp_all add: well_formed_def)
  note fresh = fresh_refs [OF wf i] counted_fresh [OF b fresh_refs(1) [OF wf i]]
  from kindsD [OF k, of e] kindsD [OF k, of q] lg qu fresh have ne: "e \<noteq> q" "i \<noteq> e" "i \<noteq> q"
    by (auto simp: one_kind_def)
  let ?h = "h\<lparr>refs := (refs h)(i \<mapsto> 1), next_addr := Suc i, iters := (iters h)(i \<mapsto> it)\<rparr>"
  have "kinds ((refs h)(i \<mapsto> 1)) (loggers h) (queries h) ((iters h)(i \<mapsto> it)) (attach_iters h)"
    by (rule kinds_upd [OF k]) (use fresh in \<open>auto simp: one_kind_def\<close>)
  moreover have "iters_ok ((iters h)(i \<mapsto> it)) (loggers h) (queries h)"
    using its e q c lg qu by (auto simp: iters_ok_def)
  moreover have "addrs_ok ((refs h)(i \<mapsto> 1)) (conns h) (Suc i)"
    using wf i by (auto simp: well_formed_def addrs_ok_def intro: less_SucI less_le_trans)
  ultimately have "well_formed ?h" using wf by (simp add: well_formed_def)
  moreover have "counted ?h (own(i := 1, e := own e - 1, q := own q - 1))"
    unfolding counted_def
  proof
    fix x
    note cx = countedD [OF cnt, of x]
    have fin: "finite (holders x (iters h))" by (rule holders_finite [OF its])
    have mem: "holds_ref it x \<longleftrightarrow> x = e \<or> x = q" using e q by (auto simp: holds_ref_def)
    show "count_ok (refs ?h x) ((own(i := 1, e := own e - 1, q := own q - 1)) x) (holders x (iters ?h))"
    proof (cases "x = i")
      case True
      with fresh ne mem show ?thesis by (simp add: count_ok_def holders_new)
    next
      case False
      with cx mem fin ne own fresh(4) holders_new(2) [of "iters h" i x] show ?thesis
        by (auto simp: count_ok_def holders_new split: option.splits)
    qed
  qed
  ultimately show ?thesis by (rule balancedI)
qed

lemma unref_kind:
  assumes "balanced h own" and "loggers h a \<noteq> None \<or> queries h a \<noteq> None"
  shows "iters h a = None"
proof -
  from assms(1) have "kinds (refs h) (loggers h) (queries h) (iters h) (attach_iters h)"
    by (simp add: balanced_def well_formed_def)
  from kindsD [OF this, of a] assms(2) show ?thesis by (auto simp: one_kind_def)
qed

lemma finalize_stmt_balanced:
  assumes "balanced h own" and "finalize_stmt s h = Some h'"
  shows "balanced h' own"
proof -
  from finalize_shape [OF assms(2)] obtain ss where
    ss: "h' = h\<lparr>stmts := ss\<rparr>" "set ss \<subseteq> set (stmts h)" by blast
  with assms(1) show ?thesis
    by (auto simp: balanced_def intro: well_formed_stmts counted_cong)
qed

text \<open>The three steps that release an iterator, from the memory without it.\<close>

lemma release_chain:
  assumes g: "balanced g (own(i := 0, e := Suc (own e), q := Suc (own q)))" and ne: "e \<noteq> q" "i \<noteq> e" "i \<noteq> q"
    and eq: "iters g e = None" "iters g q = None"
    and u: "unref_plain e g = Some g1" "unref_plain q g1 = Some g2" "finalize_stmt s g2 = Some h'"
  shows "balanced h' (own(i := 0))"
proof -
  have "balanced g1 (own(i := 0, q := Suc (own q))) \<and> iters g1 = iters g"
    using unref_plain_balanced [OF g _ eq(1) u(1)] ne by (simp add: fun_upd_twist fun_upd_idem)
  then have g1: "balanced g1 (own(i := 0, q := Suc (own q)))" and its: "iters g1 = iters g" by simp_all
  have "balanced g2 (own(i := 0))"
    using unref_plain_balanced [OF g1 _ _ u(2)] eq(2) its ne by (simp add: fun_upd_idem)
  from finalize_stmt_balanced [OF this u(3)] show ?thesis .
qed

lemma g_object_unref_balanced:
  assumes b: "balanced h own" and "0 < own a" and u: "object_unref a h = Some h'"
  shows "balanced h' (own(a := own a - 1))"
proof (cases "iters h a")
  case None
  with unref_plain_balanced [OF b assms(2) None] u show ?thesis by (simp add: object_unref_def)
next
  case (Some it)
  with u have d: "drop_ref a (iter_finalize a it) h = Some h'" by (simp add: object_unref_def)
  then obtain n where n: "refs h a = Some n" by (auto simp: drop_ref_def split: option.splits)
  show ?thesis
  proof (cases "1 < n")
    case True
    with d n have "h' = h\<lparr>refs := (refs h)(a \<mapsto> n - 1)\<rparr>" by (simp add: drop_ref_def)
    with unref_balanced [OF b assms(2) n True] show ?thesis by simp
  next
    case False
    from last_reference [OF b assms(2) n False] have one: "own a = 1" "holders a (iters h) = {}" by simp_all
    from b have its: "iters_ok (iters h) (loggers h) (queries h)"
      and k: "kinds (refs h) (loggers h) (queries h) (iters h) (attach_iters h)"
      by (simp_all add: balanced_def well_formed_def)
    from its Some obtain e q c where it: "io_el it = Some e" "io_query it = Some q"
      "loggers h e = Some \<lparr>lo_db = Some c\<rparr>" "queries h q \<noteq> None" by (rule iters_okD)
    have lg: "loggers h e \<noteq> None" using it(3) by simp
    have "iters h a \<noteq> None" using Some by simp
    with kinds_logger_query [OF k lg it(4)] have ne: "e \<noteq> q" "a \<noteq> e" "a \<noteq> q"
      and none: "iters h e = None" "iters h q = None" by blast+
    let ?g = "h\<lparr>refs := (refs h)(a := None), iters := (iters h)(a := None)\<rparr>"
    from d False n have "iter_finalize a it (h\<lparr>refs := (refs h)(a := None)\<rparr>) = Some h'"
      by (simp add: drop_ref_def)
    from iter_finalize_steps [OF this it(1,2)] obtain g1 g2 where "unref_plain e ?g = Some g1"
      "unref_plain q g1 = Some g2" "finalize_stmt (io_stmt it) g2 = Some h'" by auto
    with release_chain [OF dissolve [OF b Some one it(1,2) lg it(4)] ne] none ne one(1)
    show ?thesis by simp
  qed
qed

section \<open>New objects\<close>

lemma addrs_new: "addrs_ok r cs n \<Longrightarrow> addrs_ok (r(n \<mapsto> k)) cs (Suc n)"
  by (auto simp: addrs_ok_def less_SucI)

lemma counted_new:
  assumes "balanced h own" and "next_addr h = a" and "refs h' = (refs h)(a \<mapsto> 1)" and "iters h' = iters h"
  shows "counted h' (own(a := 1))"
proof -
  from assms(1) have wf: "well_formed h" and cnt: "counted h own" by (simp_all add: balanced_def)
  from counted_fresh [OF assms(1) fresh_refs(1) [OF wf]] assms(2) have "holders a (iters h) = {}" by simp
  then show ?thesis
    by (intro counted_upd [OF cnt assms(4), where a = a]) (simp_all add: assms(3) count_ok_def)
qed

lemma new_logger_balanced:
  assumes b: "balanced h own" and a: "a = next_addr h"
  shows "balanced (h\<lparr>refs := (refs h)(a \<mapsto> 1), next_addr := Suc a,
     loggers := (loggers h)(a \<mapsto> \<lparr>lo_db = None\<rparr>)\<rparr>) (own(a := 1))"
proof (rule balancedI [OF _ counted_new [OF b a [symmetric]]])
  from b have wf: "well_formed h" by (simp add: balanced_def)
  from wf have k: "kinds (refs h) (loggers h) (queries h) (iters h) (attach_iters h)" by (simp add: well_formed_def)
  have le: "next_addr h \<le> a" by (simp add: a)
  note fresh = fresh_refs [OF wf le]
  have "kinds ((refs h)(a \<mapsto> 1)) ((loggers h)(a \<mapsto> \<lparr>lo_db = None\<rparr>)) (queries h) (iters h) (attach_iters h)"
    by (rule kinds_upd [OF k, where a = a]) (simp_all add: fresh one_kind_def)
  moreover have "iters_ok (iters h) ((loggers h)(a \<mapsto> \<lparr>lo_db = None\<rparr>)) (queries h)"
    using wf fresh(2) by (intro iters_ok_logger) (simp_all add: well_formed_def)
  ultimately show "well_formed (h\<lparr>refs := (refs h)(a \<mapsto> 1), next_addr := Suc a,
      loggers := (loggers h)(a \<mapsto> \<lparr>lo_db = None\<rparr>)\<rparr>)"
    using wf addrs_new [of "refs h" "conns h" "next_addr h"]
    by (auto simp: well_formed_def conns_ok_def shared_ok_def a)
qed simp_all

lemma new_query_balanced:
  assumes b: "balanced h own" and a: "a = next_addr h"
  shows "balanced (h\<lparr>refs := (refs h)(a \<mapsto> 1), next_addr := Suc a, queries := (queries h)(a \<mapsto> qo)\<rparr>)
     (own(a := 1))"
proof (rule balancedI [OF _ counted_new [OF b a [symmetric]]])
  from b have wf: "well_formed h" by (simp add: balanced_def)
  from wf have k: "kinds (refs h) (loggers h) (queries h) (iters h) (attach_iters h)" by (simp add: well_formed_def)
  have le: "next_addr h \<le> a" by (simp add: a)
  note fresh = fresh_refs [OF wf le]
  have "kinds ((refs h)(a \<mapsto> 1)) (loggers h) ((queries h)(a \<mapsto> qo)) (iters h) (attach_iters h)"
    by (rule kinds_upd [OF k, where a = a]) (simp_all add: fresh one_kind_def)
  moreover have "iters_ok (iters h) (loggers h) ((queries h)(a \<mapsto> qo))"
    using wf by (fastforce simp: well_formed_def iters_ok_def)
  ultimately show "well_formed (h\<lparr>refs := (refs h)(a \<mapsto> 1), next_addr := Suc a,
      queries := (queries h)(a \<mapsto> qo)\<rparr>)"
    using wf addrs_new [of "refs h" "conns h" "next_addr h"] by (auto simp: well_formed_def a)
qed simp_all

lemma new_attach_balanced:
  assumes b: "balanced h own" and a: "a = next_addr h"
  shows "balanced (h\<lparr>refs := (refs h)(a \<mapsto> 1), next_addr := Suc a,
     attach_iters := (attach_iters h)(a \<mapsto> ao)\<rparr>) (own(a := 1))"
proof (rule balancedI [OF _ counted_new [OF b a [symmetric]]])
  from b have wf: "well_formed h" by (simp add: balanced_def)
  from wf have k: "kinds (refs h) (loggers h) (queries h) (iters h) (attach_iters h)" by (simp add: well_formed_def)
  have le: "next_addr h \<le> a" by (simp add: a)
  note fresh = fresh_refs [OF wf le]
  have "kinds ((refs h)(a \<mapsto> 1)) (loggers h) (queries h) (iters h) ((attach_iters h)(a \<mapsto> ao))"
    by (rule kinds_upd [OF k, where a = a]) (simp_all add: fresh one_kind_def)
  then show "well_formed (h\<lparr>refs := (refs h)(a \<mapsto> 1), next_addr := Suc a,
      attach_iters := (attach_iters h)(a \<mapsto> ao)\<rparr>)"
    using wf addrs_new [of "refs h" "conns h" "next_addr h"] by (auto simp: well_formed_def a)
qed simp_all

lemma new_statement_balanced:
  assumes "balanced h own" and "new_statement c h = (s, h')" and "c \<in> set (conns h)"
  shows "balanced h' own"
proof -
  from assms(2) have h': "h' = h\<lparr>stmts := (s, c) # stmts h, next_addr := Suc (next_addr h)\<rparr>"
    by (auto simp: new_statement_def Let_def)
  from assms show ?thesis unfolding h'
    by (auto simp: balanced_def well_formed_def stmts_ok_def addrs_ok_def counted_def less_SucI)
qed

lemma open_logger_balanced:
  assumes b: "balanced h own"
  shows "balanced (open_logger a h) own"
proof (cases "loggers h a = Some \<lparr>lo_db = None\<rparr>")
  case False
  then have "open_logger a h = h"
    by (auto simp: open_logger_def split: option.split)
  with b show ?thesis by simp
next
  case True
  let ?c = "next_addr h"
  have h': "open_logger a h = h\<lparr>conns := ?c # conns h, next_addr := Suc ?c,
      loggers := (loggers h)(a \<mapsto> \<lparr>lo_db = Some ?c\<rparr>)\<rparr>"
    using True by (simp add: open_logger_def new_connection_def Let_def)
  from b have wf: "well_formed h" by (simp add: balanced_def)
  have c: "?c \<notin> set (conns h)" by (rule fresh_refs(6) [OF wf]) simp
  have "kinds (refs h) ((loggers h)(a \<mapsto> \<lparr>lo_db = Some ?c\<rparr>)) (queries h) (iters h) (attach_iters h)"
  proof -
    have k: "kinds (refs h) (loggers h) (queries h) (iters h) (attach_iters h)" using wf by (simp add: well_formed_def)
    show ?thesis by (rule kinds_upd [OF k, where a = a]) (use kindsD [OF k, of a] True in simp_all)
  qed
  moreover have "iters_ok (iters h) ((loggers h)(a \<mapsto> \<lparr>lo_db = Some ?c\<rparr>)) (queries h)"
    using wf True by (intro iters_ok_logger) (simp_all add: well_formed_def)
  moreover have "conns_ok ((loggers h)(a \<mapsto> \<lparr>lo_db = Some ?c\<rparr>)) (?c # conns h)"
    using wf c by (auto simp: well_formed_def conns_ok_def)
  ultimately have "well_formed (open_logger a h)" unfolding h' using wf
    by (auto simp: well_formed_def stmts_ok_def addrs_ok_def shared_ok_def less_SucI)
  moreover have "counted (open_logger a h) own" using b unfolding h' by (simp add: balanced_def counted_def)
  ultimately show ?thesis by (rule balancedI)
qed

lemma new_balanced:
  assumes "balanced h own" and "rtcom_el_new opened h = (a, h')"
  shows "balanced h' (own(a := 1)) \<and> loggers h' a \<noteq> None"
proof -
  let ?h = "h\<lparr>refs := (refs h)(a \<mapsto> 1), next_addr := Suc a, loggers := (loggers h)(a \<mapsto> \<lparr>lo_db = None\<rparr>)\<rparr>"
  from assms(2) have a: "a = next_addr h" and h': "h' = (if opened then open_logger a ?h else ?h)"
    by (auto simp: rtcom_el_new_def g_object_alloc_def Let_def)
  have "loggers h' a \<noteq> None"
    by (simp add: h' open_logger_def new_connection_def Let_def)
  with new_logger_balanced [OF assms(1) a] open_logger_balanced show ?thesis by (simp add: h')
qed

lemma get_shared_balanced:
  assumes b: "balanced h own" and g: "rtcom_el_get_shared opened h = Some (a, h')"
  shows "balanced h' (own(a := Suc (own a)))"
proof (cases "shared h")
  case (Some e)
  with g have "a = e" "g_object_ref e h = Some h'" by (auto simp: rtcom_el_get_shared_def)
  with ref_balanced [OF b] show ?thesis by simp
next
  case None
  with g obtain h1 where n: "rtcom_el_new opened h = (a, h1)" and h': "h' = h1\<lparr>shared := Some a\<rparr>"
    by (auto simp: rtcom_el_get_shared_def split: prod.splits)
  from b have wf: "well_formed h" by (simp add: balanced_def)
  have "a = next_addr h" using n by (auto simp: rtcom_el_new_def g_object_alloc_def Let_def)
  with counted_fresh(1) [OF b fresh_refs(1) [OF wf]] have "own a = 0" by simp
  with new_balanced [OF b n] show ?thesis
    by (auto simp: h' balanced_def well_formed_def shared_ok_def counted_def)
qed

lemma refs_two:
  assumes "balanced h own" and "g_object_ref e h = Some h1" and "g_object_ref q h1 = Some h2" and "e \<noteq> q"
  shows "balanced h2 (own(e := Suc (own e), q := Suc (own q)))"
  using ref_balanced [OF ref_balanced [OF assms(1,2)] assms(3)] assms(4) by simp

lemma get_events_balanced:
  assumes b: "balanced h own" and lq: "loggers h e \<noteq> None" "queries h q \<noteq> None"
    and g: "get_events_object e q atomic h = Some (i, h')"
  shows "balanced h' (own(i := 1))"
proof -
  define h0 where "h0 = open_logger e h"
  have b0: "balanced h0 own" unfolding h0_def by (rule open_logger_balanced [OF b])
  have q0: "queries h0 q \<noteq> None" "loggers h0 e \<noteq> None"
    using lq by (auto simp: h0_def open_logger_def new_connection_def Let_def split: option.split)
  from g obtain lo c s h1 where c: "loggers h0 e = Some lo" "lo_db lo = Some c"
    and s: "new_statement c h0 = (s, h1)"
    by (auto simp: get_events_object_def h0_def [symmetric] Let_def split: option.splits prod.splits)
  have lo: "loggers h0 e = Some \<lparr>lo_db = Some c\<rparr>" using c by (cases lo) simp
  with b0 have "c \<in> set (conns h0)" by (auto simp: balanced_def well_formed_def conns_ok_def)
  from new_statement_balanced [OF b0 s this] have b1: "balanced h1 own" .
  from s have same: "loggers h1 = loggers h0" "queries h1 = queries h0" "iters h1 = iters h0"
    by (auto simp: new_statement_def Let_def)
  have i: "i = next_addr h1" using g c s
    by (auto simp: get_events_object_def h0_def [symmetric] Let_def g_object_alloc_def split: option.splits)
  from b1 have k: "kinds (refs h1) (loggers h1) (queries h1) (iters h1) (attach_iters h1)" and wf: "well_formed h1"
    by (simp_all add: balanced_def well_formed_def)
  note fresh = fresh_refs [OF wf, of i] counted_fresh [OF b1 fresh_refs(1) [OF wf], of i]
  from kinds_logger_query [OF k, of e q] lo q0(1) have eq: "e \<noteq> q" by (simp add: same)
  have "i \<noteq> e" "i \<noteq> q" using fresh(2,3) i lo q0(1) by (auto simp: same)
  note ne = eq this
  from kindsD [OF k, of e] kindsD [OF k, of q] lo q0(1) obtain n m where nm: "refs h1 e = Some n" "refs h1 q = Some m"
    by (auto simp: same one_kind_def)
  let ?it = "\<lparr>io_el = Some e, io_query = Some q, io_db = Some c, io_stmt = Some s, io_plugins = Some e,
      io_atomic = atomic\<rparr>"
  let ?r = "h1\<lparr>refs := (refs h1)(e \<mapsto> Suc n, q \<mapsto> Suc m)\<rparr>"
  have "balanced ?r (own(e := Suc (own e), q := Suc (own q)))"
    by (rule refs_two [OF b1 _ _ eq]) (use nm eq in \<open>auto simp: g_object_ref_def\<close>)
  from adopt [OF this, of i e q ?it c] have "balanced (?r\<lparr>refs := (refs ?r)(i \<mapsto> 1), next_addr := Suc i,
      iters := (iters ?r)(i \<mapsto> ?it)\<rparr>) ((own(e := Suc (own e), q := Suc (own q)))(i := 1,
      e := (own(e := Suc (own e), q := Suc (own q))) e - 1, q := (own(e := Suc (own e), q := Suc (own q))) q - 1))"
    using i eq lo q0(1) by (simp add: same)
  moreover have "(own(e := Suc (own e), q := Suc (own q)))(i := 1,
      e := (own(e := Suc (own e), q := Suc (own q))) e - 1, q := (own(e := Suc (own e), q := Suc (own q))) q - 1) =
      own(i := 1)" using ne by (auto simp: fun_eq_iff)
  moreover have "h' = ?r\<lparr>refs := (refs ?r)(i \<mapsto> 1), next_addr := Suc i, iters := (iters ?r)(i \<mapsto> ?it)\<rparr>"
    using g c s i nm ne
    by (auto simp: get_events_object_def h0_def [symmetric] Let_def g_object_alloc_def iter_init_def
        unref_pointer_def g_object_ref_def fun_upd_twist)
  ultimately show ?thesis by simp
qed

section \<open>Moving\<close>

lemma finalize_stmt_some: "finalize_stmt (Some s) h = sqlite3_finalize s h"
  by (simp add: finalize_stmt_def)

lemma iter_move_balanced:
  assumes b: "balanced h own" and m: "iter_move i m h = Some h'"
  shows "balanced h' own"
proof -
  from m obtain it where it: "iters h i = Some it" by (auto simp: iter_move_def split: option.splits)
  consider "h' = h" | s where "sqlite3_finalize s h = Some h'"
    | s h1 where "sqlite3_finalize s h = Some h1" "h' = h1\<lparr>iters := (iters h1)(i \<mapsto> it\<lparr>io_stmt := None\<rparr>)\<rparr>"
  proof (cases "io_stmt it")
    case None
    with m it that(1) show thesis by (simp add: iter_move_def)
  next
    case (Some s)
    with m it that show thesis
      by (cases m) (auto simp: iter_move_def split: if_splits)
  qed
  then show ?thesis
  proof cases
    case 1
    with b show ?thesis by simp
  next
    case 2
    from finalize_stmt_balanced [OF b, of "Some s" h'] 2 show ?thesis by (simp add: finalize_stmt_some)
  next
    case 3
    from finalize_stmt_balanced [OF b, of "Some s" h1] 3 have b1: "balanced h1 own"
      by (simp add: finalize_stmt_some)
    from finalize_shape [of "Some s" h h1] 3 it have it1: "iters h1 i = Some it"
      by (auto simp: finalize_stmt_some)
    from b1 have wf: "well_formed h1" by (simp add: balanced_def)
    have k: "kinds (refs h1) (loggers h1) (queries h1) (iters h1) (attach_iters h1)"
      using wf by (simp add: well_formed_def)
    have "kinds (refs h1) (loggers h1) (queries h1) ((iters h1)(i \<mapsto> it\<lparr>io_stmt := None\<rparr>)) (attach_iters h1)"
      by (rule kinds_upd [OF k, where a = i]) (use kindsD [OF k, of i] it1 in simp_all)
    moreover have "iters_ok ((iters h1)(i \<mapsto> it\<lparr>io_stmt := None\<rparr>)) (loggers h1) (queries h1)"
      using wf it1 by (auto simp: well_formed_def iters_ok_def)
    moreover have "holders x ((iters h1)(i \<mapsto> it\<lparr>io_stmt := None\<rparr>)) = holders x (iters h1)" for x
      by (rule holders_same) (simp_all add: it1)
    ultimately show ?thesis using b1
      by (simp add: 3(2) balanced_def well_formed_def counted_def)
  qed
qed

lemma attach_iter_move_balanced:
  assumes b: "balanced h own" and m: "attach_iter_move a m h = Some h'"
  shows "balanced h' own"
proof -
  from m obtain ao where ao: "attach_iters h a = Some ao" by (auto simp: attach_iter_move_def split: option.splits)
  consider "h' = h"
    | s h1 where "sqlite3_finalize s h = Some h1"
      "h' = h1\<lparr>attach_iters := (attach_iters h1)(a \<mapsto> ao\<lparr>ao_stmt := None\<rparr>)\<rparr>"
  proof (cases "ao_stmt ao")
    case None
    with m ao that(1) show thesis by (simp add: attach_iter_move_def)
  next
    case (Some s)
    with m ao that show thesis by (auto simp: attach_iter_move_def split: if_splits)
  qed
  then show ?thesis
  proof cases
    case 1
    with b show ?thesis by simp
  next
    case 2
    from finalize_stmt_balanced [OF b, of "Some s" h1] 2 have b1: "balanced h1 own"
      by (simp add: finalize_stmt_some)
    from finalize_shape [of "Some s" h h1] 2 ao have ao1: "attach_iters h1 a = Some ao"
      by (auto simp: finalize_stmt_some)
    from b1 have k: "kinds (refs h1) (loggers h1) (queries h1) (iters h1) (attach_iters h1)"
      by (simp add: balanced_def well_formed_def)
    have "kinds (refs h1) (loggers h1) (queries h1) (iters h1) ((attach_iters h1)(a \<mapsto> ao\<lparr>ao_stmt := None\<rparr>))"
      by (rule kinds_upd [OF k, where a = a]) (use kindsD [OF k, of a] ao1 in simp_all)
    with b1 show ?thesis by (simp add: 2(2) balanced_def well_formed_def counted_def)
  qed
qed

lemma get_attachments_balanced:
  assumes b: "balanced h own" and g: "get_attachments_object i h = Some (a, h')"
  shows "balanced h' (own(a := 1))"
proof -
  from g obtain c s h1 where c: "c \<in> set (conns h)" and s: "new_statement c h = (s, h1)" and a: "a = next_addr h1"
    and h': "\<exists>ao. h' = h1\<lparr>refs := (refs h1)(a \<mapsto> 1), next_addr := Suc a, attach_iters := (attach_iters h1)(a \<mapsto> ao)\<rparr>"
    by (auto simp: get_attachments_object_def g_object_alloc_def Let_def split: option.splits if_splits prod.splits)
  from new_attach_balanced [OF new_statement_balanced [OF b s c] a] h' show ?thesis by auto
qed

section \<open>All steps\<close>

lemma client_step_balanced:
  assumes "client_step h own h' own'" and "balanced h own"
  shows "balanced h' own'"
  using assms
proof (induction rule: client_step.induct)
  case (client_new opened h a h' own)
  with new_balanced show ?case by blast
next
  case (client_shared opened h a h' own)
  with get_shared_balanced show ?case by blast
next
  case (client_open h own a)
  with open_logger_balanced show ?case by blast
next
  case (client_ref own a h h')
  with ref_balanced show ?case by blast
next
  case (client_unref own a h h')
  with g_object_unref_balanced show ?case by blast
next
  case (client_query h e q h' own)
  then have q: "q = next_addr h" and h': "h' = h\<lparr>refs := (refs h)(q \<mapsto> 1), next_addr := Suc q,
      queries := (queries h)(q \<mapsto> \<lparr>qo_el = e\<rparr>)\<rparr>"
    by (auto simp: query_object_new_def g_object_alloc_def Let_def)
  show ?case unfolding h' by (rule new_query_balanced [OF client_query(3) q])
next
  case (client_events own e h q atomic i h')
  with get_events_balanced show ?case by blast
next
  case (client_move own i m h h')
  with iter_move_balanced show ?case by blast
next
  case (client_attachments own i h a h')
  with get_attachments_balanced show ?case by blast
next
  case (client_attach_move own a m h h')
  with attach_iter_move_balanced show ?case by blast
qed

lemma empty_balanced: "balanced empty_heap (\<lambda>a. 0)"
  by (simp add: balanced_def well_formed_def counted_def count_ok_def empty_heap_def iters_ok_def kinds_def
      one_kind_def conns_ok_def stmts_ok_def shared_ok_def addrs_ok_def holders_def)

lemma client_run_balanced: "client_run h own \<Longrightarrow> balanced h own"
  by (induction rule: client_run.induct) (auto intro: empty_balanced client_step_balanced)

end
