(* ===== verification/El_Lifetimes.thy ===== *)
theory El_Lifetimes
  imports El_Objects_Props
begin

text \<open>
  What the lifetimes of the objects guarantee to a program that uses the library, and where the order of
  \<open>rtcom_el_iter_finalize\<close> loses a connection.
\<close>

section \<open>Every reference is accounted for\<close>

lemma run_iter:
  assumes "client_run h own" and "iters h i = Some it"
  obtains e q c where "io_el it = Some e" "io_query it = Some q" "io_db it = Some c"
    "loggers h e = Some \<lparr>lo_db = Some c\<rparr>" "queries h q \<noteq> None" "c \<in> set (conns h)" "e \<noteq> q"
    "i \<noteq> e" "i \<noteq> q" "iters h e = None" "iters h q = None" "loggers h q = None" "attach_iters h q = None"
proof -
  from client_run_balanced [OF assms(1)] have its: "iters_ok (iters h) (loggers h) (queries h)"
    and k: "kinds (refs h) (loggers h) (queries h) (iters h) (attach_iters h)"
    and co: "conns_ok (loggers h) (conns h)" by (simp_all add: balanced_def well_formed_def)
  from its assms(2) obtain e q c where it: "io_el it = Some e" "io_query it = Some q" "io_db it = Some c"
    "loggers h e = Some \<lparr>lo_db = Some c\<rparr>" "queries h q \<noteq> None" by (rule iters_okD)
  have lg: "loggers h e \<noteq> None" and i: "iters h i \<noteq> None" using it(4) assms(2) by simp_all
  from co it(4) have c: "c \<in> set (conns h)" by (auto simp: conns_ok_def)
  from kindsD [OF k, of q] it(5) have "loggers h q = None" "attach_iters h q = None"
    by (auto simp: one_kind_def)
  with kinds_logger_query [OF k lg it(5)] i it c show thesis by (intro that) blast+
qed

lemma references_accounted:
  assumes "client_run h own"
  shows "(\<forall>a n. refs h a = Some n \<longrightarrow> n = own a + card (holders a (iters h))) \<and>
     (\<forall>i it. iters h i = Some it \<longrightarrow> (\<exists>e q c. io_el it = Some e \<and> io_query it = Some q \<and> io_db it = Some c \<and>
        refs h e \<noteq> None \<and> loggers h e = Some \<lparr>lo_db = Some c\<rparr> \<and> refs h q \<noteq> None \<and> queries h q \<noteq> None \<and>
        c \<in> set (conns h))) \<and>
     (\<forall>s c. (s, c) \<in> set (stmts h) \<longrightarrow> c \<in> set (conns h))"
proof -
  from client_run_balanced [OF assms] have wf: "well_formed h" and cnt: "counted h own"
    by (simp_all add: balanced_def)
  from wf have k: "kinds (refs h) (loggers h) (queries h) (iters h) (attach_iters h)"
    by (simp add: well_formed_def)
  have "n = own a + card (holders a (iters h))" if "refs h a = Some n" for a n
    using countedD [OF cnt, of a] that by (simp add: count_ok_def)
  moreover have "\<exists>e q c. io_el it = Some e \<and> io_query it = Some q \<and> io_db it = Some c \<and>
      refs h e \<noteq> None \<and> loggers h e = Some \<lparr>lo_db = Some c\<rparr> \<and> refs h q \<noteq> None \<and> queries h q \<noteq> None \<and>
      c \<in> set (conns h)" if i: "iters h i = Some it" for i it
  proof -
    from assms i obtain e q c where it: "io_el it = Some e" "io_query it = Some q" "io_db it = Some c"
      "loggers h e = Some \<lparr>lo_db = Some c\<rparr>" "queries h q \<noteq> None" "c \<in> set (conns h)" by (rule run_iter)
    from kindsD [OF k, of e] it(4) have "refs h e \<noteq> None" by (simp add: one_kind_def)
    moreover from kindsD [OF k, of q] it(5) have "refs h q \<noteq> None" by (simp add: one_kind_def)
    ultimately show ?thesis using it by blast
  qed
  moreover from wf have "c \<in> set (conns h)" if "(s, c) \<in> set (stmts h)" for s c
    using that by (force simp: well_formed_def stmts_ok_def)
  ultimately show ?thesis by blast
qed

text \<open>C22: In every state a program can bring the library to, with the references it holds and gives back, the
  count of every object is the number of the program's references plus that of the iterators that refer to it;
  every iterator's logger and query are alive and its connection is open, and no statement outlives its
  connection.\<close>

theorem references_balanced:
  assumes "client_run h own"
  shows "(\<forall>a n. refs h a = Some n \<longrightarrow> n = own a + card (holders a (iters h))) \<and>
     (\<forall>i it. iters h i = Some it \<longrightarrow> (\<exists>e q c. io_el it = Some e \<and> io_query it = Some q \<and> io_db it = Some c \<and>
        refs h e \<noteq> None \<and> loggers h e = Some \<lparr>lo_db = Some c\<rparr> \<and> refs h q \<noteq> None \<and> queries h q \<noteq> None \<and>
        c \<in> set (conns h))) \<and>
     (\<forall>s c. (s, c) \<in> set (stmts h) \<longrightarrow> c \<in> set (conns h))"
  using assms by (rule references_accounted)

section \<open>Releasing an iterator\<close>

lemma unref_logger:
  assumes "refs h e = Some n" and "loggers h e = Some \<lparr>lo_db = Some c\<rparr>" and "c \<in> set (conns h)"
  shows "unref_plain e h = Some
    (if 1 < n then h\<lparr>refs := (refs h)(e \<mapsto> n - 1)\<rparr>
     else h\<lparr>refs := (refs h)(e := None), loggers := (loggers h)(e := None),
       shared := (if shared h = Some e then None else shared h),
       conns := (if c \<in> snd ` set (stmts h) then conns h else removeAll c (conns h))\<rparr>)"
  using assms by (simp add: unref_plain_def drop_ref_def finalize_plain_def logger_finalize_def
      sqlite3_close_def cong: if_cong)

lemma unref_query:
  assumes "refs h q = Some n" and "loggers h q = None" and "attach_iters h q = None"
  shows "unref_plain q h = Some
    (if 1 < n then h\<lparr>refs := (refs h)(q \<mapsto> n - 1)\<rparr>
     else h\<lparr>refs := (refs h)(q := None), queries := (queries h)(q := None)\<rparr>)"
  using assms by (simp add: unref_plain_def drop_ref_def finalize_plain_def query_finalize_def)

lemma release_iter:
  assumes run: "client_run h own" and i: "iters h i = Some it" and one: "refs h i = Some 1"
    and e: "io_el it = Some e" and n: "refs h e = Some n" and c: "io_db it = Some c"
  shows "\<exists>h2. object_unref i h =
       map_option (\<lambda>g. g\<lparr>iters := (iters g)(i := None)\<rparr>) (finalize_stmt (io_stmt it) h2) \<and>
     stmts h2 = stmts h \<and> iters h2 = iters h \<and> attach_iters h2 = attach_iters h \<and>
     next_addr h2 = next_addr h \<and>
     loggers h2 = (if 1 < n then loggers h else (loggers h)(e := None)) \<and>
     conns h2 = (if 1 < n \<or> c \<in> snd ` set (stmts h) then conns h else removeAll c (conns h))"
proof -
  from run i obtain e' q c' where it: "io_el it = Some e'" "io_query it = Some q" "io_db it = Some c'"
    "loggers h e' = Some \<lparr>lo_db = Some c'\<rparr>" "queries h q \<noteq> None" "c' \<in> set (conns h)" "e' \<noteq> q"
    "i \<noteq> e'" "i \<noteq> q" "iters h e' = None" "iters h q = None" "loggers h q = None" "attach_iters h q = None"
    by (rule run_iter)
  from it(1,3) e c have same: "e' = e" "c' = c" by simp_all
  note it = it [unfolded same]
  from references_accounted [OF run] i it(2) obtain m where m: "refs h q = Some m" by fastforce
  let ?h0 = "h\<lparr>refs := (refs h)(i := None)\<rparr>"
  let ?h1 = "if 1 < n then ?h0\<lparr>refs := (refs ?h0)(e \<mapsto> n - 1)\<rparr>
     else ?h0\<lparr>refs := (refs ?h0)(e := None), loggers := (loggers ?h0)(e := None),
       shared := (if shared ?h0 = Some e then None else shared ?h0),
       conns := (if c \<in> snd ` set (stmts ?h0) then conns ?h0 else removeAll c (conns ?h0))\<rparr>"
  let ?h2 = "if 1 < m then ?h1\<lparr>refs := (refs ?h1)(q \<mapsto> m - 1)\<rparr>
     else ?h1\<lparr>refs := (refs ?h1)(q := None), queries := (queries ?h1)(q := None)\<rparr>"
  have u1: "unref_plain e ?h0 = Some ?h1"
    by (rule unref_logger) (use n it in simp_all)
  have u2: "unref_plain q ?h1 = Some ?h2"
    by (rule unref_query) (use m it in simp_all)
  from i one have "object_unref i h = iter_finalize i it ?h0"
    by (simp add: object_unref_def drop_ref_def)
  also have "\<dots> = map_option (\<lambda>g. g\<lparr>iters := (iters g)(i := None)\<rparr>) (finalize_stmt (io_stmt it) ?h2)"
    using it u1 u2 by (simp add: iter_finalize_def unref_pointer_def)
  finally have "object_unref i h = map_option (\<lambda>g. g\<lparr>iters := (iters g)(i := None)\<rparr>)
      (finalize_stmt (io_stmt it) ?h2)" .
  then show ?thesis by (intro exI [of _ ?h2] conjI) auto
qed

text \<open>With its statement alive, or none, the end of an iterator has a result.\<close>

lemma live_iterator_release:
  assumes "client_run h own" and "iters h i = Some it" and "0 < own i"
    and "\<And>s. io_stmt it = Some s \<Longrightarrow> s \<in> fst ` set (stmts h)"
  shows "\<exists>h'. object_unref i h = Some h' \<and> client_run h' (own(i := own i - 1))"
proof -
  from client_run_balanced [OF assms(1)] have k: "kinds (refs h) (loggers h) (queries h) (iters h) (attach_iters h)"
    and cnt: "counted h own" by (simp_all add: balanced_def well_formed_def)
  from countedD [OF cnt, of i] assms(3) obtain k where r: "refs h i = Some k" "0 < k"
    by (auto simp: count_ok_def split: option.splits)
  have "\<exists>h'. object_unref i h = Some h'"
  proof (cases "1 < k")
    case True
    with r assms(2) show ?thesis by (simp add: object_unref_def drop_ref_def)
  next
    case False
    with r have one: "refs h i = Some 1" by simp
    from references_accounted [OF assms(1)] assms(2) obtain e c where "io_el it = Some e" "io_db it = Some c"
      "refs h e \<noteq> None" by blast
    then obtain n where "io_el it = Some e" "io_db it = Some c" "refs h e = Some n" by blast
    from release_iter [OF assms(1,2) one this(1,3,2)] obtain h2 where h2: "object_unref i h =
        map_option (\<lambda>g. g\<lparr>iters := (iters g)(i := None)\<rparr>) (finalize_stmt (io_stmt it) h2)"
      "stmts h2 = stmts h" by blast
    with assms(4) show ?thesis
      by (cases "io_stmt it") (simp_all add: finalize_stmt_def sqlite3_finalize_def)
  qed
  then obtain h' where h': "object_unref i h = Some h'" by blast
  have "client_step h own h' (own(i := own i - 1))" by (rule client_unref) (use assms(3) h' in simp_all)
  from run_step [OF assms(1) this] h' show ?thesis by blast
qed

section \<open>The connection of the last iterator\<close>

text \<open>C39: \<open>rtcom_el_iter_finalize\<close> unreferences the logger before it finalizes its statement: when an
  iterator holds the last reference to its logger, the logger's end closes the connection only if no statement is left
  on it. An iterator that was not read to its end still has its own, so that the connection stays open, and no logger
  knows it any more.\<close>

theorem last_iterator_loses_connection:
  assumes "client_run h own" and "iters h i = Some it" and "refs h i = Some 1" and "io_el it = Some e"
    and "refs h e = Some 1" and "io_db it = Some c" and "object_unref i h = Some h'"
  shows "loggers h' e = None \<and> (\<forall>b lo. loggers h' b = Some lo \<longrightarrow> lo_db lo \<noteq> Some c) \<and>
     (c \<in> set (conns h') \<longleftrightarrow> c \<in> snd ` set (stmts h))"
proof -
  from release_iter [OF assms(1-6)] obtain h2 where h2: "object_unref i h =
      map_option (\<lambda>g. g\<lparr>iters := (iters g)(i := None)\<rparr>) (finalize_stmt (io_stmt it) h2)"
    "loggers h2 = (loggers h)(e := None)"
    "conns h2 = (if c \<in> snd ` set (stmts h) then conns h else removeAll c (conns h))" by auto
  from h2(1) assms(7) obtain g where g: "finalize_stmt (io_stmt it) h2 = Some g"
    "h' = g\<lparr>iters := (iters g)(i := None)\<rparr>" by (cases "finalize_stmt (io_stmt it) h2") auto
  from finalize_shape [OF g(1)] g(2) have h': "loggers h' = loggers h2" "conns h' = conns h2" by auto
  from client_run_balanced [OF assms(1)] have co: "conns_ok (loggers h) (conns h)"
    by (simp add: balanced_def well_formed_def)
  from assms(1,2) obtain e' c' where "io_el it = Some e'" "io_db it = Some c'"
    "loggers h e' = Some \<lparr>lo_db = Some c'\<rparr>" "c' \<in> set (conns h)" by (rule run_iter)
  with assms(4,6) have l: "loggers h e = Some \<lparr>lo_db = Some c\<rparr>" "c \<in> set (conns h)" by simp_all
  have "lo_db lo \<noteq> Some c" if "loggers h' b = Some lo" for b lo
    using co l(1) that h'(1) h2(2) by (cases lo) (auto simp: conns_ok_def split: if_splits)
  with h' h2 l(2) show ?thesis by auto
qed

section \<open>The shared logger\<close>

text \<open>As long as the logger of \<open>rtcom_el_get_shared\<close> is alive every call returns it, with one more reference;
  after its end the next call makes a new one.\<close>

theorem shared_logger:
  assumes "client_run h own"
  shows "\<exists>a h'. rtcom_el_get_shared opened h = Some (a, h') \<and> shared h' = Some a \<and> loggers h' a \<noteq> None \<and>
     client_run h' (own(a := Suc (own a))) \<and>
     (case shared h of
        Some b \<Rightarrow> a = b \<and> refs h' a = map_option Suc (refs h a) \<and> loggers h' = loggers h
      | None \<Rightarrow> loggers h a = None \<and> refs h' a = Some 1)"
proof -
  from client_run_balanced [OF assms] have wf: "well_formed h" by (simp add: balanced_def)
  then have sh: "shared_ok (shared h) (loggers h)"
    and k: "kinds (refs h) (loggers h) (queries h) (iters h) (attach_iters h)" by (simp_all add: well_formed_def)
  have "\<exists>a h'. rtcom_el_get_shared opened h = Some (a, h') \<and> shared h' = Some a \<and> loggers h' a \<noteq> None \<and>
     (case shared h of
        Some b \<Rightarrow> a = b \<and> refs h' a = map_option Suc (refs h a) \<and> loggers h' = loggers h
      | None \<Rightarrow> loggers h a = None \<and> refs h' a = Some 1)"
  proof (cases "shared h")
    case (Some b)
    with sh have l: "loggers h b \<noteq> None" by (simp add: shared_ok_def)
    with kindsD [OF k, of b] obtain n where "refs h b = Some n" by (auto simp: one_kind_def)
    with Some l show ?thesis by (simp add: rtcom_el_get_shared_def g_object_ref_def)
  next
    case None
    have "loggers h (next_addr h) = None" by (rule fresh_refs(2) [OF wf]) simp
    with None show ?thesis
      by (simp add: rtcom_el_get_shared_def rtcom_el_new_def g_object_alloc_def Let_def open_logger_def
          new_connection_def)
  qed
  then show ?thesis using run_step [OF assms client_shared] by blast
qed

section \<open>A program\<close>

text \<open>It makes a logger (0), a query (2) and an iterator (4), and gives its references to the first two back.\<close>

definition with_logger :: heap where
  "with_logger = empty_heap\<lparr>refs := [0 \<mapsto> 1], loggers := [0 \<mapsto> \<lparr>lo_db = Some 1\<rparr>], conns := [1], next_addr := 2\<rparr>"

definition with_query :: heap where
  "with_query = with_logger\<lparr>refs := [0 \<mapsto> 1, 2 \<mapsto> 1], queries := [2 \<mapsto> \<lparr>qo_el = 0\<rparr>], next_addr := 3\<rparr>"

definition sample_iter :: iter_object where
  "sample_iter = \<lparr>io_el = Some 0, io_query = Some 2, io_db = Some 1, io_stmt = Some 3, io_plugins = Some 0,
     io_atomic = True\<rparr>"

definition with_iter :: "nat \<Rightarrow> heap" where
  "with_iter n = with_query\<lparr>refs := [0 \<mapsto> n, 2 \<mapsto> n, 4 \<mapsto> 1], iters := [4 \<mapsto> sample_iter], stmts := [(3, 1)],
     next_addr := 5\<rparr>"

lemmas sample_heaps = with_logger_def with_query_def with_iter_def empty_heap_def sample_iter_def

lemma sample_steps:
  "rtcom_el_new True empty_heap = (0, with_logger)" "query_object_new 0 with_logger = (2, with_query)"
  "get_events_object 0 2 True with_query = Some (4, with_iter 2)"
  "object_unref 0 (with_iter 2) = Some ((with_iter 2)\<lparr>refs := [0 \<mapsto> 1, 2 \<mapsto> 2, 4 \<mapsto> 1]\<rparr>)"
  "object_unref 2 ((with_iter 2)\<lparr>refs := [0 \<mapsto> 1, 2 \<mapsto> 2, 4 \<mapsto> 1]\<rparr>) = Some (with_iter 1)"
  by (auto simp: sample_heaps rtcom_el_new_def query_object_new_def g_object_alloc_def open_logger_def
      new_connection_def new_statement_def Let_def get_events_object_def iter_init_def unref_pointer_def
      g_object_ref_def object_unref_def unref_plain_def drop_ref_def numeral_eq_Suc fun_upd_twist)

lemma sample_run: "client_run (with_iter 1) ((\<lambda>a. 0)(4 := 1))"
proof -
  have 1: "client_run with_logger ((\<lambda>a. 0)(0 := 1))"
    by (rule run_step [OF run_start client_new [OF sample_steps(1)]])
  have 2: "client_run with_query ((\<lambda>a. 0)(0 := 1, 2 := 1))"
    by (rule run_step [OF 1 client_query [OF _ sample_steps(2)]]) (simp add: sample_heaps)
  have 3: "client_run (with_iter 2) ((\<lambda>a. 0)(0 := 1, 2 := 1, 4 := 1))"
    by (rule run_step [OF 2 client_events [OF _ _ _ _ sample_steps(3)]]) (simp_all add: sample_heaps)
  have 4: "client_run ((with_iter 2)\<lparr>refs := [0 \<mapsto> 1, 2 \<mapsto> 2, 4 \<mapsto> 1]\<rparr>) ((\<lambda>a. 0)(2 := 1, 4 := 1))"
    using run_step [OF 3 client_unref [where a = 0, OF _ sample_steps(4)]] by (simp add: fun_upd_twist fun_upd_idem)
  show ?thesis
    using run_step [OF 4 client_unref [where a = 2, OF _ sample_steps(5)]] by (simp add: fun_upd_twist fun_upd_idem)
qed

lemma sample_iter_facts:
  "iters (with_iter 1) 4 = Some sample_iter" "refs (with_iter 1) 4 = Some 1" "refs (with_iter 1) 0 = Some 1"
  "io_el sample_iter = Some 0" "io_db sample_iter = Some 1" "io_stmt sample_iter = Some 3"
  "stmts (with_iter 1) = [(3, 1)]" "shared (with_iter 1) = None"
  by (simp_all add: sample_heaps)

theorem references_balanced_witness:
  "refs (with_iter 1) 0 = Some (card (holders 0 (iters (with_iter 1)))) \<and>
     card (holders 0 (iters (with_iter 1))) = 1"
  using references_balanced [OF sample_run] sample_iter_facts(3) by fastforce

theorem last_iterator_loses_connection_witness:
  "\<exists>h'. object_unref 4 (with_iter 1) = Some h' \<and> loggers h' 0 = None \<and> 1 \<in> set (conns h') \<and> stmts h' = []"
proof -
  obtain h' where u: "object_unref 4 (with_iter 1) = Some h'" and s: "stmts h' = []"
    by (simp add: sample_heaps object_unref_def drop_ref_def iter_finalize_def unref_pointer_def
        unref_plain_def finalize_plain_def logger_finalize_def sqlite3_close_def query_finalize_def
        finalize_stmt_def sqlite3_finalize_def numeral_eq_Suc)
  from last_iterator_loses_connection [OF sample_run sample_iter_facts(1,2,4,3,5) u] u s show ?thesis
    by (simp add: sample_iter_facts del: One_nat_def)
qed

theorem shared_logger_witness:
  "\<exists>a h'. rtcom_el_get_shared True (with_iter 1) = Some (a, h') \<and> shared h' = Some a \<and> refs h' a = Some 1"
  using shared_logger [OF sample_run, of True] sample_iter_facts(8) by auto

end
