(* ===== verification/El_Classes.thy ===== *)
theory El_Classes
  imports El_Bus El_Lifetimes
begin

text \<open>
  What the classes of the library declare (\<open>rtcom_el_class_init\<close>, \<open>rtcom_el_iter_class_init\<close>,
  \<open>rtcom_el_attach_iter_class_init\<close>, \<open>rtcom_el_query_class_init\<close>): the signals with the types of their arguments and
  the properties with their flags; and the home directory, which a process looks up once.
\<close>

section \<open>Signals\<close>

record signal_spec =
  ss_name :: string
  ss_params :: "gtype list"

definition event_params :: "gtype list" where
  "event_params = [G_TYPE_INT, G_TYPE_STRING, G_TYPE_STRING, G_TYPE_STRING, G_TYPE_STRING, G_TYPE_STRING]"

definition rtcom_el_signals :: "signal_spec list" where
  "rtcom_el_signals =
     [\<lparr>ss_name = ''new-event'', ss_params = event_params\<rparr>,
      \<lparr>ss_name = ''event-updated'', ss_params = event_params\<rparr>,
      \<lparr>ss_name = ''event-deleted'', ss_params = event_params\<rparr>,
      \<lparr>ss_name = ''all-deleted'', ss_params = [G_TYPE_STRING]\<rparr>,
      \<lparr>ss_name = ''refresh-hint'', ss_params = []\<rparr>]"

text \<open>The name of a signal and the arguments it is emitted with.\<close>

fun signal_name :: "el_signal \<Rightarrow> string" where
  "signal_name (NEW_EVENT _ _ _ _ _ _) = ''new-event''"
| "signal_name (EVENT_UPDATED _ _ _ _ _ _) = ''event-updated''"
| "signal_name (EVENT_DELETED _ _ _ _ _ _) = ''event-deleted''"
| "signal_name (ALL_DELETED _) = ''all-deleted''"
| "signal_name REFRESH_HINT = ''refresh-hint''"

fun signal_values :: "el_signal \<Rightarrow> gvalue list" where
  "signal_values (NEW_EVENT i l r b g s) = [GInt i, GStr (Some l), GStr (Some r), GStr (Some b), GStr (Some g), GStr (Some s)]"
| "signal_values (EVENT_UPDATED i l r b g s) = [GInt i, GStr (Some l), GStr (Some r), GStr (Some b), GStr (Some g), GStr (Some s)]"
| "signal_values (EVENT_DELETED i l r b g s) = [GInt i, GStr (Some l), GStr (Some r), GStr (Some b), GStr (Some g), GStr (Some s)]"
| "signal_values (ALL_DELETED s) = [GStr (Some s)]"
| "signal_values REFRESH_HINT = []"

fun type_of_gvalue :: "gvalue \<Rightarrow> gtype" where
  "type_of_gvalue (GInt i) = G_TYPE_INT"
| "type_of_gvalue (GBool b) = G_TYPE_BOOLEAN"
| "type_of_gvalue (GStr s) = G_TYPE_STRING"

definition well_typed_signal :: "el_signal \<Rightarrow> bool" where
  "well_typed_signal s \<longleftrightarrow>
     \<lparr>ss_name = signal_name s, ss_params = map type_of_gvalue (signal_values s)\<rparr> \<in> set rtcom_el_signals"

lemma signals_well_typed: "well_typed_signal s"
  by (cases s) (simp_all add: well_typed_signal_def rtcom_el_signals_def event_params_def)

section \<open>Properties\<close>

datatype param_type = Param_pointer | Param_boolean | Param_int int int int

text \<open>The minimum, the maximum and the default of an integer are part of its declaration.\<close>

record param_spec =
  ps_name :: string
  ps_type :: param_type
  ps_readable :: bool
  ps_writable :: bool
  ps_construct_only :: bool

definition construct_only :: "string \<Rightarrow> param_type \<Rightarrow> param_spec" where
  "construct_only name ty =
     \<lparr>ps_name = name, ps_type = ty, ps_readable = True, ps_writable = True, ps_construct_only = True\<rparr>"

definition readwrite :: "string \<Rightarrow> param_type \<Rightarrow> param_spec" where
  "readwrite name ty =
     \<lparr>ps_name = name, ps_type = ty, ps_readable = True, ps_writable = True, ps_construct_only = False\<rparr>"

definition rtcom_el_properties :: "param_spec list" where
  "rtcom_el_properties =
     [\<lparr>ps_name = ''db'', ps_type = Param_pointer, ps_readable = True, ps_writable = False,
       ps_construct_only = False\<rparr>]"

definition rtcom_el_iter_properties :: "param_spec list" where
  "rtcom_el_iter_properties =
     [construct_only ''el'' Param_pointer, construct_only ''query'' Param_pointer,
      construct_only ''sqlite3-database'' Param_pointer, construct_only ''sqlite3-statement'' Param_pointer,
      construct_only ''plugins-table'' Param_pointer, construct_only ''atomic'' Param_boolean]"

definition rtcom_el_attach_iter_properties :: "param_spec list" where
  "rtcom_el_attach_iter_properties =
     [construct_only ''sqlite3-database'' Param_pointer, construct_only ''sqlite3-statement'' Param_pointer]"

definition rtcom_el_query_properties :: "param_spec list" where
  "rtcom_el_query_properties =
     [construct_only ''el'' Param_pointer, readwrite ''is-caching'' Param_boolean,
      readwrite ''limit'' (Param_int (- 1) 2147483647 (- 1)), readwrite ''offset'' (Param_int 0 2147483647 0),
      readwrite ''group-by'' (Param_int 0 3 0)]"

text \<open>\<open>g_object_set\<close> on a living object: a property that is not writable, or only at the construction, is refused.\<close>

definition settable :: "param_spec list \<Rightarrow> string \<Rightarrow> bool" where
  "settable specs name \<longleftrightarrow> list_ex (\<lambda>p. ps_name p = name \<and> ps_writable p \<and> \<not> ps_construct_only p) specs"

text \<open>
  So the pointers of an iterator, whose references it counts, are those it was made with; of the properties of
  all classes only the four of a query that select its rows can be changed.
\<close>

lemma settable_properties:
  "\<not> settable rtcom_el_properties name" "\<not> settable rtcom_el_iter_properties name"
  "\<not> settable rtcom_el_attach_iter_properties name"
  "settable rtcom_el_query_properties name \<longleftrightarrow> name \<in> {''is-caching'', ''limit'', ''offset'', ''group-by''}"
  by (auto simp: settable_def rtcom_el_properties_def rtcom_el_iter_properties_def
      rtcom_el_attach_iter_properties_def rtcom_el_query_properties_def construct_only_def readwrite_def)

text \<open>The properties of a query have the names, and the ranges, its setter checks.\<close>

fun param_accepts :: "param_type \<Rightarrow> int \<Rightarrow> bool" where
  "param_accepts (Param_int lo hi def) i \<longleftrightarrow> lo \<le> i \<and> i \<le> hi"
| "param_accepts _ i \<longleftrightarrow> True"

lemma query_ranges:
  "query_property_valid (RTCOM_EL_QUERY_PROP_LIMIT i) \<longleftrightarrow> param_accepts (ps_type (rtcom_el_query_properties ! 2)) i"
  "query_property_valid (RTCOM_EL_QUERY_PROP_OFFSET i) \<longleftrightarrow> param_accepts (ps_type (rtcom_el_query_properties ! 3)) i"
  by (simp_all add: rtcom_el_query_properties_def readwrite_def)

text \<open>Reading a property of a query: the argument names it, its value is not looked at.\<close>

fun rtcom_el_query_get_property :: "query_property \<Rightarrow> RTComElQuery \<Rightarrow> query_property" where
  "rtcom_el_query_get_property (RTCOM_EL_QUERY_PROP_EL _) q = RTCOM_EL_QUERY_PROP_EL (q_el q)"
| "rtcom_el_query_get_property (RTCOM_EL_QUERY_PROP_IS_CACHING _) q =
     RTCOM_EL_QUERY_PROP_IS_CACHING (q_is_caching q)"
| "rtcom_el_query_get_property (RTCOM_EL_QUERY_PROP_LIMIT _) q = RTCOM_EL_QUERY_PROP_LIMIT (q_limit q)"
| "rtcom_el_query_get_property (RTCOM_EL_QUERY_PROP_OFFSET _) q = RTCOM_EL_QUERY_PROP_OFFSET (q_offset q)"
| "rtcom_el_query_get_property (RTCOM_EL_QUERY_PROP_GROUP_BY _) q =
     RTCOM_EL_QUERY_PROP_GROUP_BY (q_group_by q)"

text \<open>
  What was set is read back, and a value out of range leaves what was there; setting one property changes no other.
\<close>

lemma query_property_read_back:
  "rtcom_el_query_get_property p (query_object_set p q) =
     (if query_property_valid p then p else rtcom_el_query_get_property p q)"
  by (cases p) (auto simp: query_object_set_def)

fun query_property_name :: "query_property \<Rightarrow> string" where
  "query_property_name (RTCOM_EL_QUERY_PROP_EL _) = ''el''"
| "query_property_name (RTCOM_EL_QUERY_PROP_IS_CACHING _) = ''is-caching''"
| "query_property_name (RTCOM_EL_QUERY_PROP_LIMIT _) = ''limit''"
| "query_property_name (RTCOM_EL_QUERY_PROP_OFFSET _) = ''offset''"
| "query_property_name (RTCOM_EL_QUERY_PROP_GROUP_BY _) = ''group-by''"

lemma query_property_others:
  assumes "query_property_name p \<noteq> query_property_name p'"
  shows "rtcom_el_query_get_property p (query_object_set p' q) = rtcom_el_query_get_property p q"
  using assms by (cases p; cases p') (simp_all add: query_object_set_def)

section \<open>The home directory\<close>

text \<open>
  The static variable, the value of RTCOM_EL_HOME and what \<open>g_get_home_dir\<close> returns; the result and the
  static variable afterwards.
\<close>

definition el_get_home_dir :: "string option \<Rightarrow> string option \<Rightarrow> string \<Rightarrow> string \<times> string option" where
  "el_get_home_dir static env user_home =
     (let h = (case static of Some s \<Rightarrow> s | None \<Rightarrow> (case env of Some s \<Rightarrow> s | None \<Rightarrow> user_home))
      in (h, Some h))"

text \<open>Once it was asked for, it stays the same whatever becomes of the environment.\<close>

lemma home_dir_once:
  "el_get_home_dir (snd (el_get_home_dir static env user)) env' user' = el_get_home_dir static env user"
  by (simp add: el_get_home_dir_def Let_def)

end
