(* ===== verification/El_Programs.thy ===== *)
theory El_Programs
  imports El_Lifetimes
begin

text \<open>
  Programs as lists of calls: what a program has called tells whether an iterator can be released. Every
  statement belongs to one iterator, which finalizes it once, unless \<open>rtcom_el_iter_next\<close> failed on it.
\<close>

section \<open>Calls\<close>

text \<open>
  The calls of a program that passes only objects it holds, with the results of SQLite in them; the state is
  the heap and the references the program holds. \<open>None\<close>: a call that is not allowed, or undefined behaviour.
\<close>

datatype client_call =
    Call_new bool
  | Call_shared bool
  | Call_open nat
  | Call_ref nat
  | Call_unref nat
  | Call_query nat
  | Call_events nat nat bool
  | Call_next nat moved
  | Call_attachments nat
  | Call_attach_next nat moved

type_synonym program_state = "heap \<times> (nat \<Rightarrow> nat)"

fun do_call :: "client_call \<Rightarrow> program_state \<Rightarrow> program_state option" where
  "do_call (Call_new opened) (h, own) =
     (case rtcom_el_new opened h of (a, h') \<Rightarrow> Some (h', own(a := 1)))"
| "do_call (Call_shared opened) (h, own) =
     map_option (\<lambda>(a, h'). (h', own(a := Suc (own a)))) (rtcom_el_get_shared opened h)"
| "do_call (Call_open a) (h, own) = Some (open_logger a h, own)"
| "do_call (Call_ref a) (h, own) =
     (if 0 < own a then map_option (\<lambda>h'. (h', own(a := Suc (own a)))) (g_object_ref a h) else None)"
| "do_call (Call_unref a) (h, own) =
     (if 0 < own a then map_option (\<lambda>h'. (h', own(a := own a - 1))) (object_unref a h) else None)"
| "do_call (Call_query e) (h, own) =
     (if loggers h e \<noteq> None then case query_object_new e h of (q, h') \<Rightarrow> Some (h', own(q := 1)) else None)"
| "do_call (Call_events e q atomic) (h, own) =
     (if 0 < own e \<and> loggers h e \<noteq> None \<and> 0 < own q \<and> queries h q \<noteq> None
      then map_option (\<lambda>(i, h'). (h', own(i := 1))) (get_events_object e q atomic h) else None)"
| "do_call (Call_next i m) (h, own) =
     (if 0 < own i then map_option (\<lambda>h'. (h', own)) (iter_move i m h) else None)"
| "do_call (Call_attachments i) (h, own) =
     (if 0 < own i then map_option (\<lambda>(a, h'). (h', own(a := 1))) (get_attachments_object i h) else None)"
| "do_call (Call_attach_next a m) (h, own) =
     (if 0 < own a then map_option (\<lambda>h'. (h', own)) (attach_iter_move a m h) else None)"

fun do_calls :: "client_call list \<Rightarrow> program_state \<Rightarrow> program_state option" where
  "do_calls [] st = Some st"
| "do_calls (c # cs) st = Option.bind (do_call c st) (do_calls cs)"

definition program_start :: program_state where
  "program_start = (empty_heap, \<lambda>a. 0)"

lemma do_call_step:
  assumes "do_call c (h, own) = Some (h', own')"
  shows "client_step h own h' own'"
  using assms
  by (cases c) (auto split: prod.splits if_splits intro: client_step.intros simp del: One_nat_def)

lemma do_calls_append: "do_calls (cs @ ds) st = Option.bind (do_calls cs st) (do_calls ds)"
  by (induction cs arbitrary: st) (simp_all add: bind_eq_Some_conv split: bind_split)

section \<open>Whose statement it is\<close>

definition stmt_of :: "heap \<Rightarrow> nat \<Rightarrow> nat option" where
  "stmt_of h a =
     (case iters h a of Some it \<Rightarrow> io_stmt it | None \<Rightarrow> Option.bind (attach_iters h a) ao_stmt)"

text \<open>\<open>F\<close>: the iterators on which \<open>rtcom_el_iter_next\<close> failed.\<close>

definition stmts_held :: "heap \<Rightarrow> nat set \<Rightarrow> bool" where
  "stmts_held h F \<longleftrightarrow>
     (\<forall>a s. stmt_of h a = Some s \<longrightarrow> s < next_addr h \<and> (\<forall>b. stmt_of h b = Some s \<longrightarrow> b = a) \<and>
        (a \<notin> F \<longrightarrow> s \<in> fst ` set (stmts h)))"

lemma stmts_heldD:
  assumes "stmts_held h F" and "stmt_of h a = Some s"
  shows "s < next_addr h" "stmt_of h b = Some s \<Longrightarrow> b = a" "a \<notin> F \<Longrightarrow> s \<in> fst ` set (stmts h)"
  using assms unfolding stmts_held_def by blast+

text \<open>What touches no iterator and no statement.\<close>

definition same_stmts :: "heap \<Rightarrow> heap \<Rightarrow> bool" where
  "same_stmts h h' \<longleftrightarrow> iters h' = iters h \<and> attach_iters h' = attach_iters h \<and> stmts h' = stmts h \<and>
     next_addr h \<le> next_addr h'"

lemma held_same:
  assumes "stmts_held h F" and "same_stmts h h'" and "F \<subseteq> F'"
  shows "stmts_held h' F'"
proof -
  from assms(2) have "stmt_of h' = stmt_of h" "stmts h' = stmts h" "next_addr h \<le> next_addr h'"
    by (simp_all add: same_stmts_def stmt_of_def [abs_def] cong: option.case_cong)
  with assms(1,3) show ?thesis unfolding stmts_held_def by (metis less_le_trans subsetD)
qed

text \<open>One iterator ends, or loses its statement.\<close>

lemma held_ended:
  assumes "stmts_held h F" and "\<And>b. b \<noteq> a \<Longrightarrow> stmt_of h' b = stmt_of h b"
    and "stmt_of h' a = None \<or> stmt_of h' a = stmt_of h a \<and> a \<in> F'" and "F \<subseteq> F'"
    and "\<And>s. s \<in> fst ` set (stmts h) \<Longrightarrow> stmt_of h a \<noteq> Some s \<Longrightarrow> s \<in> fst ` set (stmts h')"
    and "next_addr h \<le> next_addr h'"
  shows "stmts_held h' F'"
  unfolding stmts_held_def
proof (intro allI impI)
  fix b s assume s: "stmt_of h' b = Some s"
  have old: "stmt_of h x = Some s" if "stmt_of h' x = Some s" for x
    using that assms(2,3) by (cases "x = a") auto
  note d = stmts_heldD [OF assms(1) old [OF s]]
  have "s \<in> fst ` set (stmts h')" if "b \<notin> F'"
  proof (cases "b = a")
    case True
    with assms(3) s that show ?thesis by auto
  next
    case False
    with d(2) [of a] have "stmt_of h a \<noteq> Some s" by blast
    with assms(5) d(3) that assms(4) show ?thesis by blast
  qed
  then show "s < next_addr h' \<and> (\<forall>x. stmt_of h' x = Some s \<longrightarrow> x = b) \<and>
      (b \<notin> F' \<longrightarrow> s \<in> fst ` set (stmts h'))" using d(1,2) old assms(6) by fastforce
qed

text \<open>An iterator is made, with a statement of its own.\<close>

lemma held_made:
  assumes "stmts_held h F" and "\<And>b. b \<noteq> a \<Longrightarrow> stmt_of h' b = stmt_of h b" and "stmt_of h' a = Some s"
    and "next_addr h \<le> s" and "s < next_addr h'" and "stmts h' = (s, c) # stmts h"
  shows "stmts_held h' F"
  unfolding stmts_held_def
proof (intro allI impI)
  fix b r assume r: "stmt_of h' b = Some r"
  have old: "stmt_of h x = Some r \<and> r < next_addr h" if "stmt_of h' x = Some r" "x \<noteq> a" for x
    using that assms(1,2) stmts_heldD(1) by fastforce
  show "r < next_addr h' \<and> (\<forall>x. stmt_of h' x = Some r \<longrightarrow> x = b) \<and>
      (b \<notin> F \<longrightarrow> r \<in> fst ` set (stmts h'))"
  proof (cases "b = a")
    case True
    with r assms(3) have rs: "r = s" by simp
    have "x = b" if "stmt_of h' x = Some r" for x
    proof (rule ccontr)
      assume "x \<noteq> b"
      with old [OF that] True rs assms(4) show False by simp
    qed
    with rs assms(5,6) show ?thesis by simp
  next
    case False
    note o = old [OF r False]
    have "x = b" if x: "stmt_of h' x = Some r" for x
    proof -
      from o assms(3,4) x have "x \<noteq> a" by auto
      from old [OF x this] stmts_heldD(2) [OF assms(1), of b r x] o show ?thesis by blast
    qed
    with o stmts_heldD(3) [OF assms(1) conjunct1 [OF o]] assms(4-6) show ?thesis by auto
  qed
qed

section \<open>Each call\<close>

lemma open_logger_same: "same_stmts h (open_logger a h)"
  by (simp add: open_logger_def new_connection_def same_stmts_def Let_def split: option.split)

lemma same_stmts_trans: "same_stmts g h \<Longrightarrow> same_stmts h k \<Longrightarrow> same_stmts g k"
  by (auto simp: same_stmts_def)

lemma new_same:
  assumes "rtcom_el_new opened h = (a, h')"
  shows "same_stmts h h'"
proof -
  let ?h = "h\<lparr>refs := (refs h)(a \<mapsto> 1), next_addr := Suc a, loggers := (loggers h)(a \<mapsto> \<lparr>lo_db = None\<rparr>)\<rparr>"
  from assms have "a = next_addr h" "h' = (if opened then open_logger a ?h else ?h)"
    by (auto simp: rtcom_el_new_def g_object_alloc_def Let_def)
  moreover from this have "same_stmts h ?h" by (simp add: same_stmts_def)
  ultimately show ?thesis using same_stmts_trans [OF _ open_logger_same] by simp
qed

lemma shared_same:
  assumes "rtcom_el_get_shared opened h = Some (a, h')"
  shows "same_stmts h h'"
proof (cases "shared h")
  case (Some e)
  with assms show ?thesis by (auto simp: rtcom_el_get_shared_def g_object_ref_def same_stmts_def)
next
  case None
  with assms obtain h1 where "rtcom_el_new opened h = (a, h1)" "h' = h1\<lparr>shared := Some a\<rparr>"
    by (auto simp: rtcom_el_get_shared_def split: prod.splits)
  with new_same show ?thesis by (auto simp: same_stmts_def)
qed

lemma finalize_keeps_others:
  assumes "finalize_stmt p h = Some h'"
  shows "iters h' = iters h \<and> attach_iters h' = attach_iters h \<and> next_addr h' = next_addr h \<and>
     (\<forall>s. s \<in> fst ` set (stmts h) \<and> p \<noteq> Some s \<longrightarrow> s \<in> fst ` set (stmts h'))"
  using assms by (force simp: finalize_stmt_def sqlite3_finalize_def split: option.splits if_splits)

lemma stmt_of_iter: "iters h a = Some it \<Longrightarrow> stmt_of h a = io_stmt it"
  by (simp add: stmt_of_def)

lemma stmt_of_attach: "iters h a = None \<Longrightarrow> attach_iters h a = Some ao \<Longrightarrow> stmt_of h a = ao_stmt ao"
  by (simp add: stmt_of_def)

lemma unref_plain_held:
  assumes "stmts_held h F" and "iters h a = None" and "unref_plain a h = Some h'"
  shows "stmts_held h' F"
proof -
  from assms(3) obtain n where n: "refs h a = Some n" by (auto simp: unref_plain_def drop_ref_def split: option.splits)
  show ?thesis
  proof (cases "1 < n \<or> attach_iters h a = None \<or> loggers h a \<noteq> None")
    case True
    with assms(3) n have "same_stmts h h'"
      by (auto simp: unref_plain_def drop_ref_def same_stmts_def finalize_plain_def logger_finalize_def
          sqlite3_close_def query_finalize_def split: option.splits if_splits)
    then show ?thesis by (rule held_same [OF assms(1)]) simp
  next
    case False
    then obtain ao where ao: "attach_iters h a = Some ao" by auto
    with False assms(3) n obtain h1 where f: "finalize_stmt (ao_stmt ao) (h\<lparr>refs := (refs h)(a := None)\<rparr>) = Some h1"
      and h': "h' = h1\<lparr>attach_iters := (attach_iters h1)(a := None)\<rparr>"
      by (auto simp: unref_plain_def drop_ref_def finalize_plain_def attach_iter_finalize_def)
    note k = finalize_keeps_others [OF f]
    show ?thesis
    proof (rule held_ended [OF assms(1), where a = a])
      show "stmt_of h' b = stmt_of h b" if "b \<noteq> a" for b
        using that k by (simp add: h' stmt_of_def cong: option.case_cong)
      show "stmt_of h' a = None \<or> stmt_of h' a = stmt_of h a \<and> a \<in> F"
        using k assms(2) by (simp add: h' stmt_of_def)
      show "s \<in> fst ` set (stmts h')" if "s \<in> fst ` set (stmts h)" "stmt_of h a \<noteq> Some s" for s
        using that k by (simp add: h' stmt_of_attach [OF assms(2) ao])
    qed (use k in \<open>simp_all add: h'\<close>)
  qed
qed

lemma unref_held:
  assumes run: "client_run h own" and held: "stmts_held h F" and own: "0 < own a"
    and u: "object_unref a h = Some h'"
  shows "stmts_held h' F"
proof (cases "iters h a")
  case None
  with u have "unref_plain a h = Some h'" by (simp add: object_unref_def)
  with unref_plain_held [OF held None] show ?thesis by simp
next
  case (Some it)
  from client_run_balanced [OF run] have cnt: "counted h own" and wf: "well_formed h"
    by (simp_all add: balanced_def)
  from countedD [OF cnt, of a] own obtain k where r: "refs h a = Some k" "0 < k"
    by (auto simp: count_ok_def split: option.splits)
  from wf Some kindsD [of _ _ _ "iters h" "attach_iters h" a] have no_att: "attach_iters h a = None"
    by (auto simp: well_formed_def one_kind_def)
  show ?thesis
  proof (cases "1 < k")
    case True
    with u Some r have "same_stmts h h'" by (auto simp: object_unref_def drop_ref_def same_stmts_def)
    then show ?thesis by (rule held_same [OF held]) simp
  next
    case False
    with r have one: "refs h a = Some 1" by simp
    from references_accounted [OF run] Some obtain e c where "io_el it = Some e" "io_db it = Some c"
      "refs h e \<noteq> None" by blast
    then obtain n where "io_el it = Some e" "io_db it = Some c" "refs h e = Some n" by blast
    from release_iter [OF run Some one this(1,3,2)] obtain h2 where
      h2: "object_unref a h =
        map_option (\<lambda>g. g\<lparr>iters := (iters g)(a := None)\<rparr>) (finalize_stmt (io_stmt it) h2)"
      "stmts h2 = stmts h" "iters h2 = iters h" "attach_iters h2 = attach_iters h" "next_addr h2 = next_addr h"
      by blast
    from h2(1) u obtain g where f: "finalize_stmt (io_stmt it) h2 = Some g"
      and h': "h' = g\<lparr>iters := (iters g)(a := None)\<rparr>" by (cases "finalize_stmt (io_stmt it) h2") auto
    note k = finalize_keeps_others [OF f]
    show ?thesis
    proof (rule held_ended [OF held, where a = a])
      show "stmt_of h' b = stmt_of h b" if "b \<noteq> a" for b
        using that k h2(3,4) by (simp add: h' stmt_of_def cong: option.case_cong)
      show "stmt_of h' a = None \<or> stmt_of h' a = stmt_of h a \<and> a \<in> F"
        using k h2(4) no_att by (simp add: h' stmt_of_def)
      show "s \<in> fst ` set (stmts h')" if "s \<in> fst ` set (stmts h)" "stmt_of h a \<noteq> Some s" for s
        using that k h2(2) by (simp add: h' stmt_of_iter [OF Some])
    qed (use k h2(5) in \<open>simp_all add: h'\<close>)
  qed
qed

lemma iter_move_held:
  assumes held: "stmts_held h F" and mv: "iter_move i m h = Some h'"
    and F': "F' = (if m = Move_failed then insert i F else F)"
  shows "stmts_held h' F'"
proof -
  have sub: "F \<subseteq> F'" using F' by auto
  from mv obtain it where it: "iters h i = Some it" by (auto simp: iter_move_def split: option.splits)
  show ?thesis
  proof (cases "h' = h")
    case True
    then show ?thesis using held_same [OF held _ sub] by (simp add: same_stmts_def)
  next
    case False
    with mv it obtain s where s: "io_stmt it = Some s" by (auto simp: iter_move_def split: option.splits)
    with mv it False have m: "m = At_end \<or> m = Move_failed" by (cases m) (auto simp: iter_move_def split: if_splits)
    with mv it s obtain g where f: "finalize_stmt (Some s) h = Some g"
      and h': "h' = (if m = At_end then g\<lparr>iters := (iters g)(i \<mapsto> it\<lparr>io_stmt := None\<rparr>)\<rparr> else g)"
      by (auto simp: iter_move_def finalize_stmt_def split: if_splits)
    note k = finalize_keeps_others [OF f]
    show ?thesis
    proof (rule held_ended [OF held, where a = i])
      show "stmt_of h' b = stmt_of h b" if "b \<noteq> i" for b
        using that k by (simp add: h' stmt_of_def cong: option.case_cong)
      show "stmt_of h' i = None \<or> stmt_of h' i = stmt_of h i \<and> i \<in> F'"
        using k m it by (auto simp: h' F' stmt_of_def)
      show "r \<in> fst ` set (stmts h')" if "r \<in> fst ` set (stmts h)" "stmt_of h i \<noteq> Some r" for r
        using that k s by (simp add: h' stmt_of_iter [OF it])
    qed (use k sub in \<open>simp_all add: h'\<close>)
  qed
qed

lemma attach_move_held:
  assumes run: "client_run h own" and held: "stmts_held h F" and mv: "attach_iter_move a m h = Some h'"
  shows "stmts_held h' F"
proof -
  from mv obtain ao where ao: "attach_iters h a = Some ao" by (auto simp: attach_iter_move_def split: option.splits)
  from client_run_balanced [OF run] have "well_formed h" by (simp add: balanced_def)
  with ao kindsD [of _ _ _ "iters h" "attach_iters h" a] have no_it: "iters h a = None"
    by (auto simp: well_formed_def one_kind_def)
  show ?thesis
  proof (cases "h' = h")
    case True
    with held show ?thesis by simp
  next
    case False
    with mv ao obtain s g where s: "ao_stmt ao = Some s" and f: "finalize_stmt (Some s) h = Some g"
      and h': "h' = g\<lparr>attach_iters := (attach_iters g)(a \<mapsto> ao\<lparr>ao_stmt := None\<rparr>)\<rparr>"
      by (auto simp: attach_iter_move_def finalize_stmt_def split: option.splits if_splits)
    note k = finalize_keeps_others [OF f]
    show ?thesis
    proof (rule held_ended [OF held, where a = a])
      show "stmt_of h' b = stmt_of h b" if "b \<noteq> a" for b
        using that k by (simp add: h' stmt_of_def cong: option.case_cong)
      show "stmt_of h' a = None \<or> stmt_of h' a = stmt_of h a \<and> a \<in> F"
        using k no_it by (simp add: h' stmt_of_def)
      show "r \<in> fst ` set (stmts h')" if "r \<in> fst ` set (stmts h)" "stmt_of h a \<noteq> Some r" for r
        using that k s by (simp add: h' stmt_of_attach [OF no_it ao])
    qed (use k in \<open>simp_all add: h'\<close>)
  qed
qed

lemma attachments_held:
  assumes run: "client_run h own" and held: "stmts_held h F" and g: "get_attachments_object i h = Some (a, h')"
  shows "stmts_held h' F"
proof -
  from g obtain it c where it: "iters h i = Some it" and db: "io_db it = Some c"
    by (auto simp: get_attachments_object_def split: option.splits)
  obtain s h1 where st: "new_statement c h = (s, h1)" by (metis surj_pair)
  let ?ao = "\<lparr>ao_db = Some c, ao_stmt = Some s\<rparr>"
  from g it db st have a: "a = next_addr h1"
    and h': "h' = h1\<lparr>refs := (refs h1)(a \<mapsto> 1), next_addr := Suc a,
      attach_iters := (attach_iters h1)(a \<mapsto> ?ao)\<rparr>"
    by (auto simp: get_attachments_object_def g_object_alloc_def attach_iter_init_def Let_def
        split: if_splits)
  from st [symmetric] have s: "s = next_addr h" and h1: "h1 = h\<lparr>stmts := (s, c) # stmts h, next_addr := Suc s\<rparr>"
    by (auto simp: new_statement_def Let_def)
  from client_run_balanced [OF run] have wf: "well_formed h" by (simp add: balanced_def)
  have no_it: "iters h a = None" by (rule fresh_refs(4) [OF wf]) (simp add: a h1 s)
  show ?thesis
  proof (rule held_made [OF held, where a = a and s = s and c = c])
    show "stmt_of h' b = stmt_of h b" if "b \<noteq> a" for b
      using that by (simp add: h' h1 stmt_of_def cong: option.case_cong)
    show "stmt_of h' a = Some s" using no_it by (simp add: h' h1 stmt_of_def)
  qed (simp_all add: h' a h1 s)
qed

lemma set_iter_properties:
  assumes "set_properties [RTCOM_EL_ITER_PROP_EL e, RTCOM_EL_ITER_PROP_QUERY q, RTCOM_EL_ITER_PROP_DB c,
       RTCOM_EL_ITER_PROP_STMT s, RTCOM_EL_ITER_PROP_PLUGINS p, RTCOM_EL_ITER_PROP_ATOMIC atomic]
       (iter_init, h) = Some (it, h')"
  shows "io_stmt it = s \<and> (\<exists>r. h' = h\<lparr>refs := r\<rparr>)"
  using assms by (auto simp: iter_init_def unref_pointer_def g_object_ref_def bind_eq_Some_conv)

lemma events_held:
  assumes run: "client_run h own" and held: "stmts_held h F"
    and g: "get_events_object e q atomic h = Some (i, h')"
  shows "stmts_held h' F"
proof -
  let ?h0 = "open_logger e h"
  let ?s = "next_addr ?h0"
  have h0: "same_stmts h ?h0" by (rule open_logger_same)
  note held0 = held_same [OF held h0 subset_refl]
  from g obtain c it h3 where p: "set_properties [RTCOM_EL_ITER_PROP_EL e, RTCOM_EL_ITER_PROP_QUERY q,
        RTCOM_EL_ITER_PROP_DB (Some c), RTCOM_EL_ITER_PROP_STMT (Some ?s), RTCOM_EL_ITER_PROP_PLUGINS (Some e),
        RTCOM_EL_ITER_PROP_ATOMIC atomic]
        (iter_init, ?h0\<lparr>stmts := (?s, c) # stmts ?h0, refs := (refs ?h0)(i \<mapsto> 1), next_addr := Suc i\<rparr>) = Some (it, h3)"
    and h': "h' = h3\<lparr>iters := (iters h3)(i \<mapsto> it)\<rparr>" and i: "i = Suc ?s"
    by (auto simp: get_events_object_def new_statement_def g_object_alloc_def Let_def
        split: option.splits prod.splits simp del: set_properties.simps)
  from set_iter_properties [OF p] obtain r where it: "io_stmt it = Some ?s"
    and h3: "h3 = ?h0\<lparr>stmts := (?s, c) # stmts ?h0, refs := (refs ?h0)(i \<mapsto> 1), next_addr := Suc i,
        refs := r\<rparr>" by blast
  show ?thesis
  proof (rule held_made [OF held0, where a = i and s = ?s and c = c])
    show "stmt_of h' b = stmt_of ?h0 b" if "b \<noteq> i" for b
      using that by (simp add: h' h3 stmt_of_def cong: option.case_cong)
    show "stmt_of h' i = Some ?s" using it by (simp add: h' h3 stmt_of_def)
  qed (simp_all add: h' h3 i)
qed

text \<open>The iterators a call fails on.\<close>

definition failed_on :: "client_call list \<Rightarrow> nat set" where
  "failed_on cs = {i. Call_next i Move_failed \<in> set cs}"

lemma do_call_held:
  assumes run: "client_run h own" and held: "stmts_held h F" and c: "do_call c (h, own) = Some (h', own')"
  shows "stmts_held h' (F \<union> failed_on [c])"
proof -
  have sub: "stmts_held h' F \<Longrightarrow> stmts_held h' (F \<union> failed_on [c])" using held_same
    by (simp add: same_stmts_def)
  show ?thesis
  proof (cases c)
    case (Call_new opened)
    with c held_same [OF held new_same subset_refl] show ?thesis by (intro sub) (auto split: prod.splits)
  next
    case (Call_shared opened)
    with c held_same [OF held shared_same subset_refl] show ?thesis by (intro sub) auto
  next
    case (Call_open a)
    with c held_same [OF held open_logger_same subset_refl] show ?thesis by (intro sub) auto
  next
    case (Call_ref a)
    with c have "same_stmts h h'" by (auto simp: g_object_ref_def same_stmts_def split: if_splits)
    then show ?thesis by (intro sub) (rule held_same [OF held _ subset_refl])
  next
    case (Call_unref a)
    with c unref_held [OF run held] show ?thesis by (intro sub) (auto split: if_splits)
  next
    case (Call_query e)
    with c have "same_stmts h h'"
      by (auto simp: query_object_new_def g_object_alloc_def Let_def same_stmts_def split: if_splits)
    then show ?thesis by (intro sub) (rule held_same [OF held _ subset_refl])
  next
    case (Call_events e q atomic)
    with c events_held [OF run held] show ?thesis by (intro sub) (auto split: if_splits)
  next
    case (Call_next i m)
    have "F \<union> failed_on [c] = (if m = Move_failed then insert i F else F)"
      by (auto simp: failed_on_def Call_next)
    moreover have "iter_move i m h = Some h'" using c Call_next by (auto split: if_splits)
    ultimately show ?thesis using iter_move_held [OF held] by blast
  next
    case (Call_attachments i)
    with c attachments_held [OF run held] show ?thesis by (intro sub) (auto split: if_splits)
  next
    case (Call_attach_next a m)
    with c attach_move_held [OF run held] show ?thesis by (intro sub) (auto split: if_splits)
  qed
qed

lemma do_calls_held:
  "do_calls cs (h, own) = Some (h', own') \<Longrightarrow> client_run h own \<Longrightarrow> stmts_held h F \<Longrightarrow>
     client_run h' own' \<and> stmts_held h' (F \<union> failed_on cs)"
proof (induction cs arbitrary: h own F)
  case Nil
  then show ?case by (simp add: failed_on_def)
next
  case (Cons c cs)
  from Cons.prems(1) obtain h1 own1 where c: "do_call c (h, own) = Some (h1, own1)"
    and cs: "do_calls cs (h1, own1) = Some (h', own')" by (auto simp: bind_eq_Some_conv)
  have "F \<union> failed_on [c] \<union> failed_on cs = F \<union> failed_on (c # cs)" by (auto simp: failed_on_def)
  with Cons.IH [OF cs run_step [OF Cons.prems(2) do_call_step [OF c]] do_call_held [OF Cons.prems(2,3) c]]
  show ?case by simp
qed

section \<open>Releasing an iterator\<close>

text \<open>C23: A program can always release an iterator it holds on which no call of \<open>rtcom_el_iter_next\<close> failed:
  after any calls without undefined behaviour, from the start of the program on, in any order and with any number
  of loggers, queries and iterators, \<open>g_object_unref\<close> of the iterator has a result, whether it was read to its end
  or not, and whichever of the iterator, the query and the logger are released last.\<close>

theorem iterator_release_safe:
  assumes "do_calls cs program_start = Some (h, own)" and "iters h i = Some it" and "0 < own i"
    and "Call_next i Move_failed \<notin> set cs"
  shows "\<exists>h'. do_calls (cs @ [Call_unref i]) program_start = Some (h', own(i := own i - 1))"
proof -
  have start: "stmts_held empty_heap {}" by (simp add: stmts_held_def stmt_of_def empty_heap_def)
  from do_calls_held [OF assms(1) [unfolded program_start_def] run_start start]
  have run: "client_run h own" and held: "stmts_held h (failed_on cs)" by simp_all
  from assms(4) have "i \<notin> failed_on cs" by (simp add: failed_on_def)
  with stmts_heldD(3) [OF held] stmt_of_iter [OF assms(2)]
  have "s \<in> fst ` set (stmts h)" if "io_stmt it = Some s" for s using that by simp
  from live_iterator_release [OF run assms(2,3) this] obtain h' where "object_unref i h = Some h'" by blast
  with assms(1,3) show ?thesis by (simp add: do_calls_append del: One_nat_def)
qed

text \<open>The iterator was read to its end, and is what is left of the program.\<close>

definition sample_calls :: "client_call list" where
  "sample_calls = [Call_new True, Call_query 0, Call_events 0 2 True, Call_next 4 Moved, Call_unref 0, Call_unref 2,
     Call_next 4 At_end]"

theorem iterator_release_safe_witness:
  "\<exists>h own h' own'. do_calls sample_calls program_start = Some (h, own) \<and> own 4 = 1 \<and>
     do_calls (sample_calls @ [Call_unref 4]) program_start = Some (h', own')"
proof -
  have "map_option (\<lambda>(h, own). (own 4, iters h 4 = None)) (do_calls sample_calls program_start) = Some (1, False)"
    by code_simp
  then obtain h own it where d: "do_calls sample_calls program_start = Some (h, own)" "own 4 = 1"
    "iters h 4 = Some it" by auto
  have "Call_next 4 Move_failed \<notin> set sample_calls" by (simp add: sample_calls_def)
  from iterator_release_safe [OF d(1,3) _ this] d(2) obtain h' where
    "do_calls (sample_calls @ [Call_unref 4]) program_start = Some (h', own(4 := own 4 - 1))" by auto
  with d(1,2) show ?thesis by blast
qed

text \<open>A program that goes on after a failure, and releases the iterator, uses a statement that is gone.\<close>

theorem failed_iterator_release:
  "do_calls [Call_new True, Call_query 0, Call_events 0 2 True, Call_next 4 Move_failed, Call_unref 4]
     program_start = None"
proof -
  have "Option.is_none (do_calls [Call_new True, Call_query 0, Call_events 0 2 True, Call_next 4 Move_failed,
     Call_unref 4] program_start)" by code_simp
  then show ?thesis by (simp add: Option.is_none_def)
qed

end
