(* ===== verification/Spec2Isabelle.thy ===== *)
theory Spec2Isabelle
  imports El_Prelude El_Event El_System El_Query_Use El_Plugin_Props El_Client El_Upgrade
    El_Order El_Classes El_Programs
begin

text \<open>
  A model of the event logger library (the C code under src/src and rtcom-eventlogger) and
  the theorems that make it correct.

  The library keeps a log of communication events (calls, messages) in an SQLite database.
  Several processes use the same database at once: every process has an \<open>RTComEl\<close> object with
  its own connection, changes are announced by signals on the D-Bus session bus, and plugins
  register the services, event types and flags events can have.

  \<^bold>\<open>Theories.\<close>

  El_Prelude: error codes, narrowing to \<open>gint\<close>, GLib's string comparison, decimal numerals.

  El_Event: \<open>RTComElEvent\<close> of event.h with its 32-bit mask, the macros, and event.c. Its lemmas:
  setting, unsetting and testing fields; \<open>rtcom_el_event_equals\<close> decides agreement on the
  fields both events have set.

  El_Schema: the tables of db.c as lists of records in the order of their row ids, the triggers,
  and the SQL statements of the source as functions on the tables. A statement yields its
  rows, the new row id and the new tables, or the error of a violated constraint.

  El_Cache: what it means that a row of GroupCache is sound (it counts the events of its
  group, the read ones too, and names the newest and its service; nothing is said of its flags, which clearing
  a flag may leave different from those of the events) and how the triggers keep it so.

  El_Db: connections, transactions and \<open>rtcom_el_db_exec\<close>. SQLite is under no obligation to do
  what it is asked: \<open>script\<close> lists its answers to the calls to come. A theorem without a condition on the script
  speaks about every sequence of failures; others, those about the deletions, reading back, the walk of an iterator, the bus and
  the client among them, assume that SQLite refuses nothing from some point on (\<open>script el = []\<close>) and say so. Without a journal a rolled back change leaves
  tables about which nothing is assumed (\<open>torn\<close>). The locale \<open>transactional_body\<close> says what a
  sequence of statements must keep for its bracket of BEGIN, COMMIT and ROLLBACK to be
  atomic; it is interpreted on the bodies of every operation that uses one.

  El_Logger: the private structure of the object, id lookup, \<open>_emit_dbus\<close>. El_Plugin: plugins,
  and \<open>_ensure_db\<close>. El_Files: the attachment files, with every call of the C library able to
  fail.

  El_Add, El_Update, El_Delete, El_Read: the operations of eventlogger.c; each function of
  the source is one definition with the same name (a leading underscore dropped).
  El_Add_Props, El_Update_Props, El_Delete_Props hold their theorems: the effect on every
  table when the operation succeeds, atomicity when it fails, and the soundness of the cache. The row of an added event
  is described column by column from the event (\<open>row_records\<close>), an attachment by its file and description
  (\<open>attachment_records\<close>).
  The locale \<open>event_update\<close> is what the updates of one event share, \<open>deletion\<close> what the deletions
  share.

  El_Rows: the join a query speaks about, the table \<open>fields\<close> of db.c, and the hash table of values
  made of a row (\<open>rtcom_el_db_schema_get_row\<close>). The iterators use it as a map of values; \<open>update_row_cells\<close> has the
  \<open>GValue\<close>s with their preconditions, and each field gets what its name stands for (\<open>field_meanings\<close>). El_Text:
  quoting, literals, order and LIKE of SQLite.

  El_Query: eventlogger-query.c; the query object with its properties, the WHERE clause, the
  statement and its rows. \<open>parse_where\<close> reads a WHERE clause the way SQLite does, and \<open>where_holds\<close>
  is its meaning. The rows of the statement (\<open>query_rows\<close>) are written down from what SQLite documents of the
  SELECT the code builds, the choice of the row with the greatest id by MAX in a GROUP BY included; they are not computed
  from its text. El_Query_Props: the clause is read back as the conditions it was built from, which mean what
  eventlogger-types.h says of them (\<open>documented\<close>) unless a pattern has wildcards of its own; limits.
  El_Query_Use: deleting what a query selects, the list of conversations.

  El_Iter: eventlogger-iter.c and eventlogger-attach-iter.c; a statement being stepped is a
  \<open>cursor\<close>, and using one that was finalized is undefined (\<open>None\<close>). El_Iter_Props: the locale \<open>walk\<close> is
  what a client's loop relies on; it is interpreted on both iterators. El_Iter_Use, El_Add_Read: atomic
  iterators, and reading back what was added.

  El_Bus: the other end of the bus. A message of any process becomes a signal of the object; nobody
  answers a message with a message, and an event that one process adds is heard by the others, with its contact's
  values. Also the life of an object.

  El_Open: database files, on a \<open>disk\<close> that has the answers of SQLite and of the file system to come: the
  statements of \<open>db_schema_sql\<close>, \<open>_internal_open\<close> with the creation of the schema and the replacement of a
  corrupted file. The journal is taken to be TRUNCATE after the PRAGMA, whose result the code does not look at: only that
  it is not off matters. El_Open_Props: no rows are lost unless SQLite reports corruption, a new database gets the
  complete schema (\<open>schema_names\<close>, a list of its own), a file that is no database is replaced.

  El_Convert: the conversion of a version 0 database. Its statements are steps that may fail (\<open>step\<close>, composed
  by \<open>andthen\<close>), as the jumps to \<open>err\<close> of the code. El_Convert_Steps: what a step achieves when it succeeds
  (\<open>achieves\<close>), and what an attempt may do to the files. El_Convert_Ahead: that steps succeed (\<open>reaches\<close>).
  El_Convert_Props: the history survives (\<open>history_survives\<close>, with a definition of outbound of its own), all or nothing,
  success, and a failure nobody notices. Whether \<open>sqlite3_backup_init\<close> accepts a destination with an open transaction is
  an answer of the script, as versions of SQLite differ in it.

  El_Upgrade: what \<open>_ensure_db\<close> does before it has a connection, from the names of the files to the opened database;
  the first start after an upgrade shows the old history, or, if the copy is refused, nothing is changed. El_Plugin_Props: what registering a plugin adds to the
  database, that it happens once, and the registration that fails half way.

  El_Client: the command line client, src/client/el-client.c, from the parsed options to the exit status.

  El_Order: the linear order of SQLite's values, which the comparisons of a WHERE clause mean; the newest row of each
  group (the locale \<open>row_grouping\<close>, interpreted on the two ways to group by contact, of which \<open>same_contact\<close> says
  independently what a contact is) and the pages that limit and offset cut.

  El_Steady, El_Reads: what opening and registering plugins leaves alone (\<open>steady\<close>), and that the operations that read
  harm nothing, in and out of a transaction (\<open>unharmed\<close>).

  El_System: the operations as steps, the opening of the database, messages and iterators among them, and what holds in
  all reachable states. The deletions are steps when SQLite refuses nothing in them, and \<open>rtcom_el_delete_all\<close> is none: it
  leaves the cache wrong. An operation called on an object that is not open is the step that opens it and then the operation.

  El_Objects: the objects in memory: reference counts, the pointers between loggers, queries and iterators, the
  properties of iterators, construction and finalizers, \<open>rtcom_el_get_shared\<close>, connections and the statements
  prepared on them. What the other theories hold of an iterator or a logger is not in it, and its operations have
  names of their own where those of the others have the code's (\<open>iter_finalize\<close>, \<open>get_events_object\<close>). El_Objects_Props: the
  steps of a program that uses the library, and the invariant they keep (\<open>balanced\<close>). El_Lifetimes: what follows
  for the program. El_Programs: a program as the list of its calls, and that an iterator it holds can be released unless
  one of them, \<open>rtcom_el_iter_next\<close>, failed on it. El_Classes: the declared signals and properties.

  \<^bold>\<open>Bounds and fuel.\<close> Row ids and numbers are integers; where the code narrows them to 32 bits the
  narrowing is written out. \<open>read_in_list\<close> has the length of its text as fuel, each turn consumes
  at least two characters; so do \<open>read_conds\<close> and \<open>read_strv\<close>. The busy loop and the search for a directory name may run forever
  and are partial functions; theorems say when they return. The conversion starts again until its temporary file
  is out of the way: each turn uses up an answer of SQLite or of \<open>g_unlink\<close> (\<open>attempts_left\<close>), whose list is
  finite; copying the old database is tried a hundred times, as in the code.

  \<^bold>\<open>Not modelled.\<close> GObject's type machinery, the memory of
  strings and hash tables that are freed once, debug output (the \<open>g_print\<close> of eventlogger-query.c among it), freeing a
  plugin and closing its module when its name is taken, the generated marshalers and GOption's parsing of the
  command line. What SQLite shows of changes made on the same connection while a statement is
  stepped is undefined and left out. What a plugin's functions return, the meaning to SQLite of a WHERE clause the query
  builder did not write, the order of the rows of a SELECT DISTINCT, and what the triggers of an old file do
  are parameters. Of a table, index or trigger in a file only the name is modelled, and whether it is the current
  definition; file permissions, PRAGMA synchronous and the busy handler's ten retries are not.
  In \<open>ensure_db\<close> the results of opening and converting are a list (\<open>open_attempt\<close>); \<open>open_database\<close> computes each.
\<close>

end
